(* ===== verification/PyValue.thy ===== *)
theory PyValue
  imports Complex_Main Prelude
begin

text \<open>
  The dynamic values of the program: what \<open>Any\<close> stands for in a policy document read from
  YAML, in wire parameters read from JSON and in token claims. \<open>PFloat q s\<close> is a finite
  float of value \<open>q\<close> printed as \<open>s\<close> (the shortest-repr algorithm is not modelled, the text
  is carried). \<open>PObj s as\<close> is any other object: \<open>s\<close> is its \<open>str()\<close>, \<open>as\<close> its readable
  attributes. A dict is its items in insertion order. The operations are Python's truth
  value, \<open>==\<close> against an int or a str, \<open>str()\<close>, \<open>repr()\<close>, \<open>dict.get\<close>, \<open>getattr\<close>
  and \<open>sorted\<close> on keys. The exceptions of all components are one datatype.
\<close>

datatype pyval =
    PNone
  | PBool bool
  | PInt int
  | PFloat rat string
  | PStr string
  | PList "pyval list"
  | PTuple "pyval list"
  | PDict "(pyval \<times> pyval) list"
  | PObj string "(string \<times> pyval) list"

type_synonym pydict = "(pyval \<times> pyval) list"

text \<open>
  \<open>MCPError\<close> carries the JSON-RPC code, the message and the data object. \<open>Foreign\<close> is an
  exception of code outside the repository, by its class name and text.
\<close>

datatype exn =
    PolicyError string
  | ApprovalError string
  | MCPError int string pyval
  | RequestStateKeyError string
  | ServiceNowError string
  | ValueError string
  | TypeError
  | KeyError
  | SystemExit string
  | Foreign string string

section \<open>Truth value and equality\<close>

fun truthy :: "pyval \<Rightarrow> bool" where
  "truthy PNone = False"
| "truthy (PBool b) = b"
| "truthy (PInt i) = (i \<noteq> 0)"
| "truthy (PFloat q _) = (q \<noteq> 0)"
| "truthy (PStr s) = (s \<noteq> [])"
| "truthy (PList xs) = (xs \<noteq> [])"
| "truthy (PTuple xs) = (xs \<noteq> [])"
| "truthy (PDict kvs) = (kvs \<noteq> [])"
| "truthy (PObj _ _) = True"

text \<open>\<open>a or b\<close>.\<close>

definition py_or :: "pyval \<Rightarrow> pyval \<Rightarrow> pyval" where
  "py_or a b = (if truthy a then a else b)"

text \<open>\<open>v == n\<close> for an int literal: a bool counts as 0 or 1, and \<open>1.0 == 1\<close>.\<close>

fun py_eq_int :: "pyval \<Rightarrow> int \<Rightarrow> bool" where
  "py_eq_int (PInt m) n = (m = n)"
| "py_eq_int (PBool b) n = ((if b then 1 else 0) = n)"
| "py_eq_int (PFloat q _) n = (q = of_int n)"
| "py_eq_int _ n = False"

section \<open>str and repr\<close>

definition hex_digit :: "nat \<Rightarrow> char" where
  "hex_digit d = (if d < 10 then char_of (48 + d) else char_of (87 + d))"

definition py_printable :: "char \<Rightarrow> bool" where
  "py_printable c = (let n = (of_char c :: nat) in
     (32 \<le> n \<and> n \<le> 126) \<or> (161 \<le> n \<and> n \<noteq> 173))"

definition repr_char :: "char \<Rightarrow> char \<Rightarrow> string" where
  "repr_char q c =
     (if c = q \<or> c = CHR 0x5C then [CHR 0x5C, c]
      else if c = CHR 0x0A then [CHR 0x5C, CHR ''n'']
      else if c = CHR 0x0D then [CHR 0x5C, CHR ''r'']
      else if c = CHR 0x09 then [CHR 0x5C, CHR ''t'']
      else if py_printable c then [c]
      else [CHR 0x5C, CHR ''x'', hex_digit (of_char c div 16), hex_digit (of_char c mod 16)])"

definition repr_str :: "string \<Rightarrow> string" where
  "repr_str s =
     (let q = (if CHR 0x27 \<in> set s \<and> CHR 0x22 \<notin> set s then CHR 0x22 else CHR 0x27)
      in q # concat (map (repr_char q) s) @ [q])"

definition bracketed :: "string \<Rightarrow> string \<Rightarrow> string list \<Rightarrow> string" where
  "bracketed l r xs = l @ join '', '' xs @ r"

primrec py_repr :: "pyval \<Rightarrow> string" where
  "py_repr PNone = ''None''"
| "py_repr (PBool b) = (if b then ''True'' else ''False'')"
| "py_repr (PInt i) = int_str i"
| "py_repr (PFloat q s) = s"
| "py_repr (PStr s) = repr_str s"
| "py_repr (PList xs) = bracketed ''['' '']'' (map py_repr xs)"
| "py_repr (PTuple xs) =
     (case map py_repr xs of [x] \<Rightarrow> ''('' @ x @ '',)'' | ys \<Rightarrow> bracketed ''('' '')'' ys)"
| "py_repr (PDict kvs) =
     bracketed ''{'' ''}''
       (map (\<lambda>(k, v). k @ '': '' @ v) (map (map_prod py_repr py_repr) kvs))"
| "py_repr (PObj s as) = s"

definition py_str :: "pyval \<Rightarrow> string" where
  "py_str v = (case v of PStr s \<Rightarrow> s | _ \<Rightarrow> py_repr v)"

lemma py_str_simps [simp]:
  "py_str (PStr s) = s"
  "py_str PNone = ''None''"
  "py_str (PBool b) = (if b then ''True'' else ''False'')"
  "py_str (PInt i) = int_str i"
  "py_str (PFloat q t) = t"
  "py_str (PObj t as) = t"
  by (simp_all add: py_str_def)

section \<open>Mappings and attributes\<close>

text \<open>\<open>isinstance(v, Mapping)\<close>, and the items when it is one.\<close>

fun as_mapping :: "pyval \<Rightarrow> pydict option" where
  "as_mapping (PDict kvs) = Some kvs"
| "as_mapping _ = None"

text \<open>\<open>d.get(key, default)\<close> and \<open>key in d\<close> for a string key.\<close>

definition dict_get_or :: "pydict \<Rightarrow> string \<Rightarrow> pyval \<Rightarrow> pyval" where
  "dict_get_or d k v = (case map_of d (PStr k) of None \<Rightarrow> v | Some x \<Rightarrow> x)"

definition dict_get :: "pydict \<Rightarrow> string \<Rightarrow> pyval" where
  "dict_get d k = dict_get_or d k PNone"

definition dict_has :: "pydict \<Rightarrow> string \<Rightarrow> bool" where
  "dict_has d k \<longleftrightarrow> map_of d (PStr k) \<noteq> None"

text \<open>
  \<open>getattr(v, name, default)\<close>. The names the program asks for are not attributes of the
  built-in types, so those give the default.
\<close>

fun getattr_or :: "pyval \<Rightarrow> string \<Rightarrow> pyval \<Rightarrow> pyval" where
  "getattr_or (PObj _ as) name dflt = (case map_of as name of None \<Rightarrow> dflt | Some x \<Rightarrow> x)"
| "getattr_or _ name dflt = dflt"

text \<open>Iterating a value into a list, \<open>list(v)\<close>.\<close>

definition py_list :: "pyval \<Rightarrow> exn + pyval list" where
  "py_list v =
     (case v of
        PList vs \<Rightarrow> Inr vs
      | PTuple vs \<Rightarrow> Inr vs
      | PDict kvs \<Rightarrow> Inr (map fst kvs)
      | PStr s \<Rightarrow> Inr (map (\<lambda>c. PStr [c]) s)
      | _ \<Rightarrow> Inl TypeError)"

text \<open>\<open>xs[:n]\<close>: a negative bound counts from the end.\<close>

definition py_take :: "int \<Rightarrow> 'a list \<Rightarrow> 'a list" where
  "py_take n xs = (if 0 \<le> n then take (nat n) xs else take (length xs - nat (- n)) xs)"

lemma set_py_take: "set (py_take n xs) \<subseteq> set xs"
  by (auto simp: py_take_def dest: in_set_takeD)

lemma py_take_prefix: "prefix (py_take n xs) xs"
  by (simp add: py_take_def take_is_prefix)

text \<open>
  \<open>sorted(keys)\<close>: strings by code points, numbers by value; a list of at most one element
  is itself; mixed or unordered keys raise \<open>TypeError\<close>.
\<close>

fun str_of :: "pyval \<Rightarrow> string option" where
  "str_of (PStr s) = Some s"
| "str_of _ = None"

fun num_of :: "pyval \<Rightarrow> rat option" where
  "num_of (PInt i) = Some (of_int i)"
| "num_of (PBool b) = Some (if b then 1 else 0)"
| "num_of (PFloat q _) = Some q"
| "num_of _ = None"

definition sorted_by :: "('a \<Rightarrow> pyval) \<Rightarrow> 'a list \<Rightarrow> exn + 'a list" where
  "sorted_by key xs =
     (if length xs \<le> 1 then Inr xs
      else if list_all (\<lambda>x. str_of (key x) \<noteq> None) xs
        then Inr (sort_key (\<lambda>x. the (str_of (key x))) xs)
      else if list_all (\<lambda>x. num_of (key x) \<noteq> None) xs
        then Inr (sort_key (\<lambda>x. the (num_of (key x))) xs)
      else Inl TypeError)"

lemma sorted_by_mset: "sorted_by key xs = Inr ys \<Longrightarrow> mset ys = mset xs"
  by (auto simp: sorted_by_def split: if_splits)

lemma sorted_by_set: "sorted_by key xs = Inr ys \<Longrightarrow> set ys = set xs"
  using sorted_by_mset mset_eq_setD by blast

text \<open>A JSON object has string keys, so sorting its keys or its items never raises.\<close>

definition str_keyed :: "pydict \<Rightarrow> bool" where
  "str_keyed d \<longleftrightarrow> list_all (\<lambda>(k, v). str_of k \<noteq> None) d"

lemma sorted_by_str_keys: "str_keyed d \<Longrightarrow> is_ok (sorted_by fst d)"
  by (auto simp: sorted_by_def str_keyed_def list_all_iff)

lemma sorted_names: "str_keyed d \<Longrightarrow> is_ok (sorted_by (\<lambda>k. k) (map fst d))"
  by (auto simp: sorted_by_def str_keyed_def list_all_iff)

end
