(* ===== verification/Fnmatch.thy ===== *)
theory Fnmatch
  imports Prelude
begin

text \<open>
  \<open>fnmatch.fnmatchcase\<close> of the Python standard library, which resource rules are matched
  with: the translation of a pattern into tokens (\<open>*\<close>, \<open>?\<close>, bracket sets with their
  corner cases, literals) and the match of the whole name against them. The regular
  expression the library builds is replaced by its meaning. The lemmas give the language
  of a pattern, and what a literal and a \<open>prefix*\<close> pattern match.
\<close>

datatype gitem = Single char | Range char char

datatype gtok = GStar | GAny | GLit char | GSet bool "gitem list"

section \<open>Translation\<close>

abbreviation "c_star \<equiv> CHR 0x2A"
abbreviation "c_quest \<equiv> CHR 0x3F"
abbreviation "c_lbrack \<equiv> CHR 0x5B"
abbreviation "c_rbrack \<equiv> CHR 0x5D"
abbreviation "c_bang \<equiv> CHR 0x21"
abbreviation "c_dash \<equiv> CHR 0x2D"

text \<open>
  The stuff of a bracket set: from the text after the opening bracket, the part before
  the closing one and the rest. A closing bracket right at the start (after an optional
  \<open>!\<close>) is a member, not the end. \<open>None\<close>: not closed.
\<close>

fun find_close :: "string \<Rightarrow> (string \<times> string) option" where
  "find_close [] = None"
| "find_close (c # cs) =
     (if c = c_rbrack then Some ([], cs)
      else map_option (\<lambda>(a, b). (c # a, b)) (find_close cs))"

definition close_offset :: "string \<Rightarrow> nat" where
  "close_offset r =
     (let j = (case r of c # _ \<Rightarrow> if c = c_bang then 1 else 0 | [] \<Rightarrow> 0)
      in (case drop j r of c # _ \<Rightarrow> if c = c_rbrack then j + 1 else j | [] \<Rightarrow> j))"

definition split_bracket :: "string \<Rightarrow> (string \<times> string) option" where
  "split_bracket r =
     (let j = close_offset r
      in map_option (\<lambda>(a, b). (take j r @ a, b)) (find_close (drop j r)))"

lemma find_close_length: "find_close r = Some (a, b) \<Longrightarrow> length b < length r"
  by (induction r arbitrary: a) (auto split: if_splits simp: less_SucI)

lemma split_bracket_length: "split_bracket r = Some (a, b) \<Longrightarrow> length b < length r"
  by (auto simp: split_bracket_def Let_def dest!: find_close_length)

text \<open>
  The members: \<open>x-y\<close> is a range unless the dash is last; ranges that run backwards are
  dropped. \<open>!\<close> in front negates. When dropping backward ranges brings a \<open>!\<close> to the
  front of what is left, the library negates there too.
\<close>

fun set_items :: "string \<Rightarrow> gitem list" where
  "set_items [] = []"
| "set_items [x] = [Single x]"
| "set_items [x, y] = [Single x, Single y]"
| "set_items (x # d # y # cs) =
     (if d = c_dash then Range x y # set_items cs else Single x # set_items (d # y # cs))"

fun nonempty_item :: "gitem \<Rightarrow> bool" where
  "nonempty_item (Single _) = True"
| "nonempty_item (Range x y) = (x \<le> y)"

definition bracket_set :: "string \<Rightarrow> gtok" where
  "bracket_set stuff =
     (if stuff \<noteq> [] \<and> hd stuff = c_bang
      then GSet True (filter nonempty_item (set_items (tl stuff)))
      else (case filter nonempty_item (set_items stuff) of
              Single c # its \<Rightarrow>
                if c = c_bang then GSet True its else GSet False (Single c # its)
            | Range c y # its \<Rightarrow>
                if c = c_bang then GSet True (Single c_dash # Single y # its)
                else GSet False (Range c y # its)
            | [] \<Rightarrow> GSet False []))"

function translate :: "string \<Rightarrow> gtok list" where
  "translate [] = []"
| "translate (c # cs) =
     (if c = c_star then GStar # translate cs
      else if c = c_quest then GAny # translate cs
      else if c = c_lbrack then
        (case split_bracket cs of
           None \<Rightarrow> GLit c # translate cs
         | Some (stuff, rest) \<Rightarrow> bracket_set stuff # translate rest)
      else GLit c # translate cs)"
  by pat_completeness auto
termination
  by (relation "measure length") (auto dest: split_bracket_length)

section \<open>Matching\<close>

fun item_matches :: "gitem \<Rightarrow> char \<Rightarrow> bool" where
  "item_matches (Single x) c = (c = x)"
| "item_matches (Range x y) c = (x \<le> c \<and> c \<le> y)"

definition set_matches :: "bool \<Rightarrow> gitem list \<Rightarrow> char \<Rightarrow> bool" where
  "set_matches neg its c = (list_ex (\<lambda>i. item_matches i c) its \<noteq> neg)"

fun gmatch :: "gtok list \<Rightarrow> string \<Rightarrow> bool" where
  "gmatch [] s = (s = [])"
| "gmatch (GStar # ts) [] = gmatch ts []"
| "gmatch (GStar # ts) (c # cs) = (gmatch ts (c # cs) \<or> gmatch (GStar # ts) cs)"
| "gmatch (GAny # ts) [] = False"
| "gmatch (GAny # ts) (c # cs) = gmatch ts cs"
| "gmatch (GLit x # ts) [] = False"
| "gmatch (GLit x # ts) (c # cs) = (c = x \<and> gmatch ts cs)"
| "gmatch (GSet neg its # ts) [] = False"
| "gmatch (GSet neg its # ts) (c # cs) =
     (set_matches neg its c \<and> gmatch ts cs)"

definition fnmatchcase :: "string \<Rightarrow> string \<Rightarrow> bool" where
  "fnmatchcase name pat = gmatch (translate pat) name"


section \<open>The language of a pattern\<close>

text \<open>Each token denotes a set of strings; a token list denotes their concatenation.\<close>

fun tok_lang :: "gtok \<Rightarrow> string set" where
  "tok_lang GStar = UNIV"
| "tok_lang GAny = {[c] | c. True}"
| "tok_lang (GLit x) = {[x]}"
| "tok_lang (GSet neg its) = {[c] | c. set_matches neg its c}"

fun pat_lang :: "gtok list \<Rightarrow> string set" where
  "pat_lang [] = {[]}"
| "pat_lang (t # ts) = {a @ b | a b. a \<in> tok_lang t \<and> b \<in> pat_lang ts}"

lemma gmatch_star: "gmatch (GStar # ts) s \<longleftrightarrow> (\<exists>a b. s = a @ b \<and> gmatch ts b)"
proof (induction s)
  case Nil
  then show ?case by simp
next
  case (Cons c cs)
  show ?case
  proof
    assume "gmatch (GStar # ts) (c # cs)"
    then have "gmatch ts (c # cs) \<or> (\<exists>a b. cs = a @ b \<and> gmatch ts b)"
      using Cons.IH by simp
    then show "\<exists>a b. c # cs = a @ b \<and> gmatch ts b"
      by (metis append_Cons append_Nil)
  next
    assume "\<exists>a b. c # cs = a @ b \<and> gmatch ts b"
    then obtain a b where ab: "c # cs = a @ b" "gmatch ts b" by blast
    then show "gmatch (GStar # ts) (c # cs)"
      using Cons.IH by (cases a) auto
  qed
qed

lemma gmatch_any: "gmatch (GAny # ts) s \<longleftrightarrow> (\<exists>c b. s = c # b \<and> gmatch ts b)"
  by (cases s) auto

lemma gmatch_lit: "gmatch (GLit x # ts) s \<longleftrightarrow> (\<exists>b. s = x # b \<and> gmatch ts b)"
  by (cases s) auto

lemma gmatch_set:
  "gmatch (GSet neg its # ts) s \<longleftrightarrow> (\<exists>c b. s = c # b \<and> set_matches neg its c \<and> gmatch ts b)"
  by (cases s) auto

lemmas gmatch_single = gmatch_any gmatch_lit gmatch_set

lemma pat_lang_char:
  assumes "tok_lang t = {[c] | c. P c}"
  shows "s \<in> pat_lang (t # ts) \<longleftrightarrow> (\<exists>c b. s = c # b \<and> P c \<and> b \<in> pat_lang ts)"
proof
  assume "s \<in> pat_lang (t # ts)"
  with assms show "\<exists>c b. s = c # b \<and> P c \<and> b \<in> pat_lang ts" by auto
next
  assume "\<exists>c b. s = c # b \<and> P c \<and> b \<in> pat_lang ts"
  then obtain c b where cb: "s = c # b" "P c" "b \<in> pat_lang ts" by blast
  then have "s = [c] @ b" and "[c] \<in> tok_lang t" using assms by simp_all
  with cb(3) show "s \<in> pat_lang (t # ts)" unfolding pat_lang.simps by blast
qed

lemma gmatch_lang: "gmatch ts s \<longleftrightarrow> s \<in> pat_lang ts"
proof (induction ts arbitrary: s)
  case Nil
  then show ?case by simp
next
  case (Cons t ts)
  show ?case
  proof (cases t)
    case GStar
    with Cons.IH show ?thesis by (auto simp: gmatch_star)
  next
    case GAny
    with Cons.IH show ?thesis by (simp add: gmatch_any pat_lang_char [where P = "\<lambda>_. True"] del: pat_lang.simps)
  next
    case (GLit x)
    with Cons.IH show ?thesis by (auto simp: gmatch_single)
  next
    case (GSet neg its)
    with Cons.IH show ?thesis by (simp add: gmatch_set pat_lang_char [where P = "set_matches neg its"] del: pat_lang.simps)
  qed
qed

section \<open>Literal and prefix patterns\<close>

text \<open>A plain string has none of the three special characters.\<close>

definition plain :: "string \<Rightarrow> bool" where
  "plain p \<longleftrightarrow> c_star \<notin> set p \<and> c_quest \<notin> set p \<and> c_lbrack \<notin> set p"

lemma translate_plain: "plain p \<Longrightarrow> translate (p @ q) = map GLit p @ translate q"
  by (induction p) (auto simp: plain_def)

lemma gmatch_lits: "gmatch (map GLit p @ ts) s \<longleftrightarrow> (\<exists>b. s = p @ b \<and> gmatch ts b)"
  by (induction p arbitrary: s) (auto simp: gmatch_single)

lemma fnmatch_plain: "plain p \<Longrightarrow> fnmatchcase name p \<longleftrightarrow> name = p"
  using translate_plain [of p "[]"] gmatch_lits [of p "[]" name] by (simp add: fnmatchcase_def)

lemma fnmatch_prefix: "plain p \<Longrightarrow> fnmatchcase name (p @ [c_star]) \<longleftrightarrow> prefix p name"
  by (auto simp: fnmatchcase_def translate_plain gmatch_lits gmatch_star prefix_def)

end
