(* ===== verification/Policy.thy ===== *)
theory Policy
  imports PyValue Fnmatch
begin

text \<open>
  \<open>governance/policy.py\<close>: the rules and decisions, the loader of a policy document with its
  checks in the source's order, the decision on a tool and on a resource, and the tools a
  caller may see. \<open>wf_policy\<close> is the invariant of a loaded policy; \<open>grants\<close> is the access
  matrix a document describes, which the decisions are proved against; the locale
  \<open>authorizer\<close> is what the enforcement layer relies on.
\<close>

section \<open>Data\<close>

definition CLASSIFICATIONS :: "string list" where
  "CLASSIFICATIONS = [''public'', ''internal'', ''confidential'', ''restricted'']"

record decision =
  d_allowed :: bool
  d_reason :: string
  d_target :: string
  d_classification :: "string option"
  d_required_roles :: "string list"
  d_granted_roles :: "string list"
  d_requires_approval :: bool
  d_approval_prompt :: string

record rule =
  r_pattern :: string
  r_allow_roles :: "string set"
  r_classification :: string
  r_description :: string
  r_requires_approval :: bool
  r_approval_prompt :: string

type_synonym rules = "(string \<times> rule) list"

record policy =
  p_tools :: rules
  p_resources :: rules
  p_declared_roles :: "string set"
  p_source :: string

section \<open>Loading\<close>

definition parse_roles :: "pyval \<Rightarrow> string \<Rightarrow> exn + string set" where
  "parse_roles raw source =
     (case raw of
        PNone \<Rightarrow> Inr {}
      | PDict kvs \<Rightarrow> Inr (set (map (\<lambda>(k, _). py_str k) kvs))
      | _ \<Rightarrow> Inl (PolicyError (source @ '': `roles` must be a mapping of role name to metadata'')))"

definition parse_rule :: "string set \<Rightarrow> string \<Rightarrow> string \<Rightarrow> pyval \<times> pyval \<Rightarrow> exn + rule" where
  "parse_rule declared source section_name item =
     (let pattern = py_str (fst item);
          place = source @ '': `'' @ section_name @ ''.'' @ pattern
      in case as_mapping (snd item) of
        None \<Rightarrow> Inl (PolicyError (place @ ''` must be a mapping''))
      | Some body \<Rightarrow>
          let classification = py_str (dict_get_or body ''classification'' (PStr ''internal''))
          in if classification \<notin> set CLASSIFICATIONS
             then Inl (PolicyError (place @ ''` has unknown classification ''
               @ repr_str classification @ ''; expected one of '' @ join '', '' CLASSIFICATIONS))
             else (case py_or (dict_get body ''allow_roles'') (PList []) of
                 PList xs \<Rightarrow>
                   let allow_roles = map py_str xs;
                       unknown = sorted_set (filter (\<lambda>r. r \<notin> declared) allow_roles)
                   in if unknown \<noteq> []
                      then Inl (PolicyError (place @ ''` references undeclared role(s): ''
                        @ join '', '' unknown
                        @ ''. Add them under `roles:` or fix the spelling.''))
                      else Inr \<lparr>r_pattern = pattern,
                             r_allow_roles = set allow_roles,
                             r_classification = classification,
                             r_description = py_str (dict_get_or body ''description'' (PStr [])),
                             r_requires_approval =
                               truthy (dict_get_or body ''requires_approval'' (PBool False)),
                             r_approval_prompt =
                               py_str (dict_get_or body ''approval_prompt'' (PStr []))\<rparr>
               | _ \<Rightarrow> Inl (PolicyError (place @ ''.allow_roles` must be a list''))))"

fun parse_items ::
  "string set \<Rightarrow> string \<Rightarrow> string \<Rightarrow> pydict \<Rightarrow> rules \<Rightarrow> exn + rules"
where
  "parse_items declared source section_name [] rs = Inr rs"
| "parse_items declared source section_name (item # items) rs =
     bindE (parse_rule declared source section_name item)
       (\<lambda>r. parse_items declared source section_name items (dict_set (r_pattern r) r rs))"

definition parse_rules :: "pyval \<Rightarrow> string set \<Rightarrow> string \<Rightarrow> string \<Rightarrow> exn + rules" where
  "parse_rules raw declared source section_name =
     (case raw of
        PNone \<Rightarrow> Inr []
      | PDict kvs \<Rightarrow> parse_items declared source section_name kvs []
      | _ \<Rightarrow> Inl (PolicyError (source @ '': `'' @ section_name @ ''` must be a mapping'')))"

definition from_mapping :: "pyval \<Rightarrow> string \<Rightarrow> exn + policy" where
  "from_mapping raw source =
     (case as_mapping raw of
        None \<Rightarrow> Inl (PolicyError (source @ '': policy must be a mapping''))
      | Some doc \<Rightarrow>
          if \<not> py_eq_int (dict_get doc ''version'') 1
          then Inl (PolicyError (source @ '': unsupported policy version ''
            @ py_repr (dict_get doc ''version'') @ '', expected 1''))
          else if dict_get_or doc ''default'' (PStr ''deny'') \<noteq> PStr ''deny''
          then Inl (PolicyError
            (source @ '': `default` must be `deny`; allow-by-default is not supported''))
          else
            bindE (parse_roles (dict_get doc ''roles'') source) (\<lambda>declared.
            bindE (parse_rules (dict_get doc ''tools'') declared source ''tools'') (\<lambda>tools.
            bindE (parse_rules (dict_get doc ''resources'') declared source ''resources'')
              (\<lambda>resources.
              Inr \<lparr>p_tools = tools, p_resources = resources,
                   p_declared_roles = declared, p_source = source\<rparr>))))"

text \<open>
  \<open>Policy.load\<close>: reading the file and parsing YAML are code outside the repository, the
  parameters \<open>read_text\<close> and \<open>safe_load\<close>; their exceptions arrive as \<open>Foreign\<close> by class.
\<close>

definition load :: "(string \<Rightarrow> exn + string) \<Rightarrow> (string \<Rightarrow> exn + pyval) \<Rightarrow> string \<Rightarrow> exn + policy" where
  "load read_text safe_load path =
     (case bindE (read_text path) safe_load of
        Inl (Foreign cls msg) \<Rightarrow>
          if cls = ''FileNotFoundError''
          then Inl (PolicyError (''policy file not found: '' @ path))
          else if cls = ''YAMLError''
          then Inl (PolicyError (''policy file is not valid YAML: '' @ path @ '': '' @ msg))
          else Inl (Foreign cls msg)
      | Inl e \<Rightarrow> Inl e
      | Inr raw \<Rightarrow> from_mapping raw path)"

section \<open>Decisions\<close>

definition match_rule :: "rule \<Rightarrow> string \<Rightarrow> string list \<Rightarrow> decision" where
  "match_rule r target granted =
     (let allowed = (set granted \<inter> r_allow_roles r \<noteq> {})
      in \<lparr>d_allowed = allowed,
          d_reason = (if allowed then ''granted by role''
            else ''caller holds none of the roles this tool requires''),
          d_target = target,
          d_classification = Some (r_classification r),
          d_required_roles = sorted_list_of_set (r_allow_roles r),
          d_granted_roles = granted,
          d_requires_approval = r_requires_approval r,
          d_approval_prompt = r_approval_prompt r\<rparr>)"

definition default_deny :: "string \<Rightarrow> string \<Rightarrow> string list \<Rightarrow> decision" where
  "default_deny reason target granted =
     \<lparr>d_allowed = False, d_reason = reason, d_target = target, d_classification = None,
      d_required_roles = [], d_granted_roles = granted, d_requires_approval = False,
      d_approval_prompt = []\<rparr>"

definition decide_tool :: "policy \<Rightarrow> string \<Rightarrow> string list \<Rightarrow> decision" where
  "decide_tool p tool roles =
     (let granted = sorted_set roles
      in case map_of (p_tools p) tool of
           None \<Rightarrow> default_deny ''no policy entry for this tool (default deny)'' tool granted
         | Some r \<Rightarrow> match_rule r tool granted)"

text \<open>
  \<open>sorted(self.resources, key=len, reverse=True)\<close> is stable, equal lengths stay in document
  order, and so is \<open>sort_key\<close> on the negated length.
\<close>

definition by_length :: "string list \<Rightarrow> string list" where
  "by_length pats = sort_key (\<lambda>pat. - int (length pat)) pats"

definition resource_rule :: "policy \<Rightarrow> string \<Rightarrow> rule option" where
  "resource_rule p uri =
     (case find (\<lambda>pat. fnmatchcase uri pat) (by_length (map fst (p_resources p))) of
        None \<Rightarrow> None
      | Some pat \<Rightarrow> map_of (p_resources p) pat)"

definition decide_resource :: "policy \<Rightarrow> string \<Rightarrow> string list \<Rightarrow> decision" where
  "decide_resource p uri roles =
     (let granted = sorted_set roles
      in case resource_rule p uri of
           None \<Rightarrow> default_deny ''no policy entry for this resource (default deny)'' uri granted
         | Some r \<Rightarrow> match_rule r uri granted)"

definition visible_tools :: "policy \<Rightarrow> string list \<Rightarrow> string set" where
  "visible_tools p roles =
     set (map fst (filter (\<lambda>(name, r). set roles \<inter> r_allow_roles r \<noteq> {}) (p_tools p)))"


section \<open>The invariant of a loaded policy\<close>

definition wf_rules :: "string set \<Rightarrow> rules \<Rightarrow> bool" where
  "wf_rules declared rs \<longleftrightarrow>
     distinct (map fst rs) \<and>
     (\<forall>(k, r) \<in> set rs. r_pattern r = k \<and> r_classification r \<in> set CLASSIFICATIONS \<and>
        r_allow_roles r \<subseteq> declared \<and> finite (r_allow_roles r))"

definition wf_policy :: "policy \<Rightarrow> bool" where
  "wf_policy p \<longleftrightarrow>
     wf_rules (p_declared_roles p) (p_tools p) \<and> wf_rules (p_declared_roles p) (p_resources p)"

lemma sorted_set_Nil_iff [simp]: "sorted_set xs = [] \<longleftrightarrow> xs = []"
  by (metis set_empty set_sorted_set)

definition rule_of_body :: "string \<Rightarrow> pydict \<Rightarrow> pyval list \<Rightarrow> rule" where
  "rule_of_body pattern body xs =
     \<lparr>r_pattern = pattern,
      r_allow_roles = set (map py_str xs),
      r_classification = py_str (dict_get_or body ''classification'' (PStr ''internal'')),
      r_description = py_str (dict_get_or body ''description'' (PStr [])),
      r_requires_approval = truthy (dict_get_or body ''requires_approval'' (PBool False)),
      r_approval_prompt = py_str (dict_get_or body ''approval_prompt'' (PStr []))\<rparr>"

lemma parse_rule_body:
  "parse_rule declared src sec (k, PDict body) = Inr r \<longleftrightarrow>
     py_str (dict_get_or body ''classification'' (PStr ''internal'')) \<in> set CLASSIFICATIONS \<and>
     (\<exists>xs. py_or (dict_get body ''allow_roles'') (PList []) = PList xs \<and>
        set (map py_str xs) \<subseteq> declared \<and> r = rule_of_body (py_str k) body xs)"
proof -
  have unknown: "filter (\<lambda>r. r \<notin> declared) (map py_str xs) = [] \<longleftrightarrow> set (map py_str xs) \<subseteq> declared"
    for xs by (auto simp: filter_empty_conv)
  show ?thesis
    unfolding parse_rule_def Let_def fst_conv snd_conv as_mapping.simps option.case
    by (cases "py_or (dict_get body ''allow_roles'') (PList [])")
      (simp_all add: rule_of_body_def unknown eq_commute [of r] del: set_map)
qed

lemma parse_rule_Inr:
  "parse_rule declared src sec (k, v) = Inr r \<longleftrightarrow>
     (\<exists>body. v = PDict body \<and>
        py_str (dict_get_or body ''classification'' (PStr ''internal'')) \<in> set CLASSIFICATIONS \<and>
        (\<exists>xs. py_or (dict_get body ''allow_roles'') (PList []) = PList xs \<and>
           set (map py_str xs) \<subseteq> declared \<and> r = rule_of_body (py_str k) body xs))"
proof (cases "\<exists>body. v = PDict body")
  case True
  then show ?thesis using parse_rule_body by auto
next
  case False
  then have "as_mapping v = None" by (cases v) auto
  with False show ?thesis by (simp add: parse_rule_def Let_def)
qed

lemma rule_of_body_simps [simp]:
  "r_pattern (rule_of_body pat body xs) = pat"
  "r_allow_roles (rule_of_body pat body xs) = set (map py_str xs)"
  "r_classification (rule_of_body pat body xs) =
     py_str (dict_get_or body ''classification'' (PStr ''internal''))"
  by (simp_all add: rule_of_body_def)

lemma parse_rule_facts:
  assumes "parse_rule declared src sec item = Inr r"
  shows "r_pattern r = py_str (fst item)" "r_classification r \<in> set CLASSIFICATIONS"
    "r_allow_roles r \<subseteq> declared" "finite (r_allow_roles r)"
proof -
  obtain k v where item: "item = (k, v)" by (cases item)
  obtain body xs where
    cls: "py_str (dict_get_or body ''classification'' (PStr ''internal'')) \<in> set CLASSIFICATIONS"
    and roles: "set (map py_str xs) \<subseteq> declared" and r: "r = rule_of_body (py_str k) body xs"
    using assms unfolding item parse_rule_Inr by blast
  show "r_pattern r = py_str (fst item)"
    by (simp only: r item fst_conv rule_of_body_simps)
  show "r_classification r \<in> set CLASSIFICATIONS"
    using cls by (simp only: r rule_of_body_simps)
  show "r_allow_roles r \<subseteq> declared" and "finite (r_allow_roles r)"
    using roles by (simp_all only: r rule_of_body_simps finite_set)
qed

lemma wf_rules_dict_set:
  assumes "wf_rules declared rs" and "parse_rule declared src sec item = Inr r"
  shows "wf_rules declared (dict_set (r_pattern r) r rs)"
  unfolding wf_rules_def
proof (intro conjI ballI)
  show "distinct (map fst (dict_set (r_pattern r) r rs))"
    using assms(1) by (simp add: wf_rules_def distinct_dict_set)
next
  fix e assume "e \<in> set (dict_set (r_pattern r) r rs)"
  then have "e = (r_pattern r, r) \<or> e \<in> set rs"
    using set_dict_set [of "r_pattern r" r rs] by blast
  then show "case e of (k, r) \<Rightarrow> r_pattern r = k \<and> r_classification r \<in> set CLASSIFICATIONS \<and>
      r_allow_roles r \<subseteq> declared \<and> finite (r_allow_roles r)"
    using assms(1) parse_rule_facts [OF assms(2)] by (auto simp: wf_rules_def)
qed

lemma parse_items_wf:
  "parse_items declared src sec items acc = Inr rs \<Longrightarrow> wf_rules declared acc \<Longrightarrow> wf_rules declared rs"
  by (induction items arbitrary: acc) (auto simp: result_simps intro: wf_rules_dict_set)

lemma wf_rules_Nil [simp]: "wf_rules declared []"
  by (simp add: wf_rules_def)

lemma parse_rules_wf: "parse_rules raw declared src sec = Inr rs \<Longrightarrow> wf_rules declared rs"
  by (auto simp: parse_rules_def split: pyval.splits dest: parse_items_wf)

text \<open>A successful load, taken apart.\<close>

lemma from_mapping_Inr:
  assumes "from_mapping raw src = Inr p"
  obtains doc where "raw = PDict doc"
    and "py_eq_int (dict_get doc ''version'') 1"
    and "dict_get_or doc ''default'' (PStr ''deny'') = PStr ''deny''"
    and "parse_roles (dict_get doc ''roles'') src = Inr (p_declared_roles p)"
    and "parse_rules (dict_get doc ''tools'') (p_declared_roles p) src ''tools'' = Inr (p_tools p)"
    and "parse_rules (dict_get doc ''resources'') (p_declared_roles p) src ''resources'' =
      Inr (p_resources p)"
    and "p_source p = src"
proof -
  obtain doc where raw: "raw = PDict doc"
    using assms by (cases raw) (auto simp: from_mapping_def)
  with assms that show ?thesis
    by (auto simp: from_mapping_def result_simps split: if_splits)
qed

lemma from_mapping_wf_policy: "from_mapping raw src = Inr p \<Longrightarrow> wf_policy p"
  by (elim from_mapping_Inr) (auto simp: wf_policy_def dest: parse_rules_wf)

text \<open>The lookups of a well-formed policy.\<close>

lemma wf_rules_lookup:
  "wf_rules declared rs \<Longrightarrow> map_of rs k = Some r \<Longrightarrow>
   r_pattern r = k \<and> r_classification r \<in> set CLASSIFICATIONS \<and>
   r_allow_roles r \<subseteq> declared \<and> finite (r_allow_roles r)"
  by (drule map_of_SomeD) (auto simp: wf_rules_def)

lemma wf_policy_tool:
  "wf_policy p \<Longrightarrow> map_of (p_tools p) t = Some r \<Longrightarrow>
   finite (r_allow_roles r) \<and> r_allow_roles r \<subseteq> p_declared_roles p"
  by (auto simp: wf_policy_def dest: wf_rules_lookup)

lemma wf_policy_resource:
  "wf_policy p \<Longrightarrow> map_of (p_resources p) t = Some r \<Longrightarrow>
   finite (r_allow_roles r) \<and> r_allow_roles r \<subseteq> p_declared_roles p"
  by (auto simp: wf_policy_def dest: wf_rules_lookup)

lemma resource_rule_mem:
  "resource_rule p uri = Some r \<Longrightarrow> \<exists>pat. map_of (p_resources p) pat = Some r \<and> fnmatchcase uri pat"
  by (auto simp: resource_rule_def find_Some_iff split: option.splits)


section \<open>Which documents load\<close>

text \<open>
  A document is valid, said on the document alone: no order of checks, no messages, none of
  the loader's functions or tables. An absent key and one whose value is null are the same to
  \<open>roles\<close>, \<open>tools\<close> and \<open>resources\<close>; \<open>declared_names\<close> is undefined when \<open>roles\<close> is neither
  null nor a mapping.
\<close>

definition known_classification :: "string \<Rightarrow> bool" where
  "known_classification c \<longleftrightarrow>
     c = ''public'' \<or> c = ''internal'' \<or> c = ''confidential'' \<or> c = ''restricted''"

definition valid_body :: "string set \<Rightarrow> pydict \<Rightarrow> bool" where
  "valid_body declared body \<longleftrightarrow>
     (case map_of body (PStr ''classification'') of
        None \<Rightarrow> True | Some c \<Rightarrow> known_classification (py_str c)) \<and>
     (case map_of body (PStr ''allow_roles'') of
        None \<Rightarrow> True
      | Some v \<Rightarrow> \<not> truthy v \<or> (case v of PList xs \<Rightarrow> py_str ` set xs \<subseteq> declared | _ \<Rightarrow> False))"

definition valid_item :: "string set \<Rightarrow> pyval \<Rightarrow> bool" where
  "valid_item declared v \<longleftrightarrow> (case v of PDict body \<Rightarrow> valid_body declared body | _ \<Rightarrow> False)"

definition valid_section :: "string set \<Rightarrow> pyval option \<Rightarrow> bool" where
  "valid_section declared sec \<longleftrightarrow>
     (case sec of
        None \<Rightarrow> True
      | Some PNone \<Rightarrow> True
      | Some (PDict kvs) \<Rightarrow> (\<forall>e \<in> set kvs. valid_item declared (snd e))
      | Some _ \<Rightarrow> False)"

definition declared_names :: "pydict \<Rightarrow> string set option" where
  "declared_names doc =
     (case map_of doc (PStr ''roles'') of
        None \<Rightarrow> Some {}
      | Some PNone \<Rightarrow> Some {}
      | Some (PDict kvs) \<Rightarrow> Some (py_str ` fst ` set kvs)
      | Some _ \<Rightarrow> None)"

definition valid_doc :: "pyval \<Rightarrow> bool" where
  "valid_doc raw \<longleftrightarrow>
     (case raw of
        PDict doc \<Rightarrow>
          (case map_of doc (PStr ''version'') of None \<Rightarrow> False | Some v \<Rightarrow> py_eq_int v 1) \<and>
          map_of doc (PStr ''default'') \<in> {None, Some (PStr ''deny'')} \<and>
          (case declared_names doc of
             None \<Rightarrow> False
           | Some declared \<Rightarrow>
               valid_section declared (map_of doc (PStr ''tools'')) \<and>
               valid_section declared (map_of doc (PStr ''resources'')))
      | _ \<Rightarrow> False)"

lemma known_classification_iff: "known_classification c \<longleftrightarrow> c \<in> set CLASSIFICATIONS"
  by (auto simp: known_classification_def CLASSIFICATIONS_def)

lemma parse_roles_declared:
  "(case parse_roles (dict_get doc ''roles'') src of Inl _ \<Rightarrow> None | Inr d \<Rightarrow> Some d) = declared_names doc"
  by (auto simp: parse_roles_def declared_names_def dict_get_def dict_get_or_def
      split: option.splits pyval.splits intro: rev_image_eqI)

lemma parse_roles_Inr: "parse_roles (dict_get doc ''roles'') src = Inr d \<longleftrightarrow> declared_names doc = Some d"
  using parse_roles_declared [of doc src] by (auto split: sum.splits)

lemma dict_get_or_default_in:
  "py_str (dict_get_or d k (PStr v)) \<in> S \<longleftrightarrow>
   (case map_of d (PStr k) of None \<Rightarrow> v \<in> S | Some c \<Rightarrow> py_str c \<in> S)"
  by (simp add: dict_get_or_def split: option.splits)

lemma dict_get_or_list:
  "(\<exists>xs. py_or (dict_get d k) (PList []) = PList xs \<and> set (map py_str xs) \<subseteq> S) \<longleftrightarrow>
   (case map_of d (PStr k) of None \<Rightarrow> True
    | Some v \<Rightarrow> \<not> truthy v \<or> (case v of PList xs \<Rightarrow> py_str ` set xs \<subseteq> S | _ \<Rightarrow> False))"
  by (auto simp: dict_get_def dict_get_or_def py_or_def split: option.splits pyval.splits)

lemma internal_classification: "''internal'' \<in> set CLASSIFICATIONS"
  by (simp add: CLASSIFICATIONS_def)

lemma parse_rule_ok: "is_ok (parse_rule declared src sec (k, v)) \<longleftrightarrow> valid_item declared v"
proof (cases v)
  case (PDict body)
  have "is_ok (parse_rule declared src sec (k, v)) \<longleftrightarrow>
      py_str (dict_get_or body ''classification'' (PStr ''internal'')) \<in> set CLASSIFICATIONS \<and>
      (\<exists>xs. py_or (dict_get body ''allow_roles'') (PList []) = PList xs \<and>
         set (map py_str xs) \<subseteq> declared)"
    unfolding is_ok_iff PDict parse_rule_body by blast
  also have "\<dots> \<longleftrightarrow> valid_body declared body"
    unfolding dict_get_or_list dict_get_or_default_in valid_body_def
    by (simp add: internal_classification known_classification_iff split: option.splits)
  finally show ?thesis by (simp add: valid_item_def PDict)
qed (simp_all add: parse_rule_def valid_item_def Let_def)

lemma parse_items_ok:
  "is_ok (parse_items declared src sec items acc) \<longleftrightarrow> (\<forall>e\<in>set items. valid_item declared (snd e))"
proof (induction items arbitrary: acc)
  case Nil
  then show ?case by simp
next
  case (Cons e items)
  have "is_ok (parse_rule declared src sec e) \<longleftrightarrow> valid_item declared (snd e)"
    by (cases e) (simp add: parse_rule_ok)
  moreover have "is_ok (parse_items declared src sec (e # items) acc) \<longleftrightarrow>
      is_ok (parse_rule declared src sec e) \<and> (\<forall>e\<in>set items. valid_item declared (snd e))"
    unfolding parse_items.simps by (rule is_ok_bindE_const) (rule Cons.IH)
  ultimately show ?case by simp
qed

lemma parse_rules_ok:
  "is_ok (parse_rules (dict_get doc sec) declared src sec) \<longleftrightarrow> valid_section declared (map_of doc (PStr sec))"
  by (cases "map_of doc (PStr sec)")
    (auto simp: parse_rules_def valid_section_def parse_items_ok dict_get_def dict_get_or_def
      split: pyval.splits)

lemma from_mapping_ok: "is_ok (from_mapping raw src) \<longleftrightarrow> valid_doc raw"
proof (cases raw)
  case (PDict doc)
  have version: "py_eq_int (dict_get doc ''version'') 1 \<longleftrightarrow>
      (case map_of doc (PStr ''version'') of None \<Rightarrow> False | Some v \<Rightarrow> py_eq_int v 1)"
    by (simp add: dict_get_def dict_get_or_def split: option.splits)
  have dflt: "dict_get_or doc ''default'' (PStr ''deny'') = PStr ''deny'' \<longleftrightarrow>
      map_of doc (PStr ''default'') \<in> {None, Some (PStr ''deny'')}"
    by (simp add: dict_get_or_def split: option.splits)
  have sections: "is_ok (bindE (parse_rules (dict_get doc ''tools'') d src ''tools'') (\<lambda>ts.
        bindE (parse_rules (dict_get doc ''resources'') d src ''resources'') (\<lambda>rs.
        Inr \<lparr>p_tools = ts, p_resources = rs, p_declared_roles = d, p_source = src\<rparr>))) \<longleftrightarrow>
      valid_section d (map_of doc (PStr ''tools'')) \<and>
      valid_section d (map_of doc (PStr ''resources''))" for d
    unfolding is_ok_bind2 by (simp only: parse_rules_ok)
  show ?thesis
  proof (cases "declared_names doc")
    case None
    then obtain e where "parse_roles (dict_get doc ''roles'') src = Inl e"
      using parse_roles_Inr [of doc src] by (cases "parse_roles (dict_get doc ''roles'') src") auto
    with None show ?thesis
      by (simp add: from_mapping_def valid_doc_def PDict)
  next
    case (Some d)
    then have "parse_roles (dict_get doc ''roles'') src = Inr d"
      by (simp add: parse_roles_Inr)
    with Some version dflt show ?thesis
      by (simp add: from_mapping_def valid_doc_def PDict sections)
  qed
qed (simp_all add: from_mapping_def valid_doc_def)

section \<open>The access matrix of a document\<close>

text \<open>The entry that counts for a name is the last one whose key prints as that name.\<close>

definition last_entry :: "pydict \<Rightarrow> string \<Rightarrow> pyval option" where
  "last_entry items name = map_of (rev (map (\<lambda>(k, v). (py_str k, v)) items)) name"

definition listed_roles :: "pyval \<Rightarrow> string set" where
  "listed_roles v =
     (case v of
        PDict body \<Rightarrow> (case map_of body (PStr ''allow_roles'') of
            Some (PList xs) \<Rightarrow> set (map py_str xs) | _ \<Rightarrow> {})
      | _ \<Rightarrow> {})"

definition doc_entry :: "pydict \<Rightarrow> string \<Rightarrow> string \<Rightarrow> pyval option" where
  "doc_entry doc section_name name =
     (case dict_get doc section_name of PDict items \<Rightarrow> last_entry items name | _ \<Rightarrow> None)"

definition grants :: "pydict \<Rightarrow> string \<Rightarrow> string \<Rightarrow> string \<Rightarrow> bool" where
  "grants doc section_name name role \<longleftrightarrow>
     (case doc_entry doc section_name name of None \<Rightarrow> False | Some v \<Rightarrow> role \<in> listed_roles v)"

lemma last_entry_Cons:
  "last_entry ((k, v) # items) name =
     (case last_entry items name of None \<Rightarrow> if py_str k = name then Some v else None
      | Some w \<Rightarrow> Some w)"
  by (auto simp: last_entry_def map_add_def split: option.splits)

lemma parse_rule_listed_roles:
  assumes "parse_rule declared src sec (k, v) = Inr r"
  shows "r_allow_roles r = listed_roles v"
proof -
  obtain body xs where v: "v = PDict body"
    and xs: "py_or (dict_get body ''allow_roles'') (PList []) = PList xs"
    and r: "r = rule_of_body (py_str k) body xs"
    using assms unfolding parse_rule_Inr by blast
  have "listed_roles v = set (map py_str xs)"
    using xs by (auto simp: v listed_roles_def dict_get_def dict_get_or_def py_or_def
        split: option.splits pyval.splits if_splits)
  then show ?thesis by (simp only: r rule_of_body_simps)
qed

text \<open>The rules of a section and its document agree at every name.\<close>

definition rule_agrees :: "rule option \<Rightarrow> pyval option \<Rightarrow> bool" where
  "rule_agrees r v \<longleftrightarrow>
     (case (r, v) of
        (None, None) \<Rightarrow> True
      | (Some r, Some v) \<Rightarrow> r_allow_roles r = listed_roles v
      | _ \<Rightarrow> False)"

lemma parse_items_lookup:
  assumes "parse_items declared src sec items acc = Inr rs"
  shows "case last_entry items name of
           None \<Rightarrow> map_of rs name = map_of acc name
         | Some v \<Rightarrow> rule_agrees (map_of rs name) (Some v)"
  using assms
proof (induction items arbitrary: acc)
  case Nil
  then show ?case by (simp add: last_entry_def)
next
  case (Cons e items)
  obtain k v where e: "e = (k, v)" by (cases e)
  obtain r where r: "parse_rule declared src sec (k, v) = Inr r"
    and rest: "parse_items declared src sec items (dict_set (r_pattern r) r acc) = Inr rs"
    using Cons.prems by (auto simp: e result_simps)
  have "map_of (dict_set (r_pattern r) r acc) name =
      (if py_str k = name then Some r else map_of acc name)"
    using parse_rule_facts(1) [OF r] by (simp add: dict_simps)
  with Cons.IH [OF rest] show ?case
    by (auto simp: e last_entry_Cons rule_agrees_def parse_rule_listed_roles [OF r]
        split: option.splits)
qed

lemma parse_rules_agree:
  assumes "parse_rules (dict_get doc sec) declared src sec = Inr rs"
  shows "rule_agrees (map_of rs name) (doc_entry doc sec name)"
proof (cases "dict_get doc sec")
  case (PDict items)
  with assms have "parse_items declared src sec items [] = Inr rs"
    by (simp add: parse_rules_def)
  from parse_items_lookup [OF this, of name] show ?thesis
    by (simp add: doc_entry_def PDict rule_agrees_def split: option.splits)
qed (use assms in \<open>auto simp: parse_rules_def doc_entry_def rule_agrees_def\<close>)

lemma grants_rule:
  "rule_agrees (map_of rs name) (doc_entry doc sec name) \<Longrightarrow>
   grants doc sec name role \<longleftrightarrow> (\<exists>r. map_of rs name = Some r \<and> role \<in> r_allow_roles r)"
  by (auto simp: rule_agrees_def grants_def split: option.splits)


section \<open>What enforcement relies on\<close>

text \<open>
  A decision function over policies: it names its target and the caller's roles, it allows
  exactly when a required role is held, and everything but the verdict on the caller is
  fixed by the target. Both decision functions provide it.
\<close>

locale authorizer =
  fixes valid :: "'p \<Rightarrow> bool"
    and decide :: "'p \<Rightarrow> string \<Rightarrow> string list \<Rightarrow> decision"
  assumes target: "d_target (decide p t rs) = t"
    and granted: "d_granted_roles (decide p t rs) = sorted_set rs"
    and allowed: "valid p \<Longrightarrow>
      d_allowed (decide p t rs) \<longleftrightarrow> set rs \<inter> set (d_required_roles (decide p t rs)) \<noteq> {}"
    and required: "d_required_roles (decide p t rs) = d_required_roles (decide p t rs')"
    and approval: "d_requires_approval (decide p t rs) = d_requires_approval (decide p t rs')"
begin

lemma no_roles_denied: "valid p \<Longrightarrow> \<not> d_allowed (decide p t [])"
  by (simp add: allowed)

lemma more_roles: "valid p \<Longrightarrow> set rs \<subseteq> set rs' \<Longrightarrow> d_allowed (decide p t rs) \<Longrightarrow> d_allowed (decide p t rs')"
  using allowed required [of p t rs rs'] by fastforce

lemma same_roles: "valid p \<Longrightarrow> set rs = set rs' \<Longrightarrow> d_allowed (decide p t rs) = d_allowed (decide p t rs')"
  using more_roles by blast

lemma split_roles:
  "valid p \<Longrightarrow> d_allowed (decide p t (rs @ rs')) \<longleftrightarrow> d_allowed (decide p t rs) \<or> d_allowed (decide p t rs')"
  using allowed required [of p t "rs @ rs'" rs] required [of p t "rs @ rs'" rs'] by auto

end

lemmas decision_defs = match_rule_def default_deny_def Let_def

interpretation tool_auth: authorizer wf_policy decide_tool
proof unfold_locales
  fix p t rs rs'
  show "d_target (decide_tool p t rs) = t"
    and "d_granted_roles (decide_tool p t rs) = sorted_set rs"
    and "d_required_roles (decide_tool p t rs) = d_required_roles (decide_tool p t rs')"
    and "d_requires_approval (decide_tool p t rs) = d_requires_approval (decide_tool p t rs')"
    by (simp_all add: decide_tool_def decision_defs split: option.splits)
  assume "wf_policy p"
  then show "d_allowed (decide_tool p t rs) \<longleftrightarrow>
      set rs \<inter> set (d_required_roles (decide_tool p t rs)) \<noteq> {}"
    by (auto simp: decide_tool_def decision_defs dest!: wf_policy_tool split: option.splits)
qed

interpretation resource_auth: authorizer wf_policy decide_resource
proof unfold_locales
  fix p t rs rs'
  show "d_target (decide_resource p t rs) = t"
    and "d_granted_roles (decide_resource p t rs) = sorted_set rs"
    and "d_required_roles (decide_resource p t rs) = d_required_roles (decide_resource p t rs')"
    and "d_requires_approval (decide_resource p t rs) = d_requires_approval (decide_resource p t rs')"
    by (simp_all add: decide_resource_def decision_defs split: option.splits)
  assume "wf_policy p"
  then show "d_allowed (decide_resource p t rs) \<longleftrightarrow>
      set rs \<inter> set (d_required_roles (decide_resource p t rs)) \<noteq> {}"
    by (auto simp: decide_resource_def decision_defs dest!: resource_rule_mem wf_policy_resource
        split: option.splits)
qed

text \<open>The tools a caller is shown, by the decision.\<close>

lemma visible_tools_callable:
  assumes "wf_policy p"
  shows "tool \<in> visible_tools p roles \<longleftrightarrow> d_allowed (decide_tool p tool roles)"
proof -
  have "distinct (map fst (p_tools p))" using assms by (simp add: wf_policy_def wf_rules_def)
  then have "tool \<in> visible_tools p roles \<longleftrightarrow>
      (\<exists>r. map_of (p_tools p) tool = Some r \<and> set roles \<inter> r_allow_roles r \<noteq> {})"
    by (auto simp: visible_tools_def image_iff)
  then show ?thesis
    by (auto simp: decide_tool_def decision_defs split: option.splits)
qed

section \<open>The longest matching pattern\<close>

text \<open>
  A single pass that keeps the longest match so far, the earlier one on a tie: the
  reference for sorting by length and taking the first match.
\<close>

fun best_match :: "string \<Rightarrow> string list \<Rightarrow> string option" where
  "best_match uri [] = None"
| "best_match uri (pat # pats) =
     (case best_match uri pats of
        None \<Rightarrow> if fnmatchcase uri pat then Some pat else None
      | Some q \<Rightarrow>
          if fnmatchcase uri pat \<and> length q \<le> length pat then Some pat else Some q)"

lemma find_insort_key:
  "sorted (map f xs) \<Longrightarrow>
   find m (insort_key f x xs) =
     (case find m xs of None \<Rightarrow> if m x then Some x else None
      | Some q \<Rightarrow> if m x \<and> f x \<le> f q then Some x else Some q)"
proof (induction xs)
  case Nil
  then show ?case by simp
next
  case (Cons y ys)
  have "f y \<le> f q" if "find m ys = Some q" for q
    using that Cons.prems by (auto simp: find_Some_iff)
  with Cons show ?case by (auto split: option.splits)
qed

lemma find_by_length: "find (fnmatchcase uri) (by_length pats) = best_match uri pats"
proof (induction pats)
  case Nil
  then show ?case by (simp add: by_length_def)
next
  case (Cons pat pats)
  let ?f = "\<lambda>pat. - int (length pat)"
  have "by_length (pat # pats) = insort_key ?f pat (by_length pats)"
    by (simp add: by_length_def)
  moreover have "sorted (map ?f (by_length pats))"
    by (simp add: by_length_def)
  ultimately show ?case
    using Cons.IH by (simp add: find_insort_key split: option.splits)
qed

lemma best_match_None: "best_match uri pats = None \<longleftrightarrow> (\<forall>pat\<in>set pats. \<not> fnmatchcase uri pat)"
  by (induction pats) (auto split: option.splits)

lemma best_match_Some:
  "best_match uri pats = Some pat \<Longrightarrow>
   pat \<in> set pats \<and> fnmatchcase uri pat \<and>
   (\<forall>q\<in>set pats. fnmatchcase uri q \<longrightarrow> length q \<le> length pat)"
proof (induction pats arbitrary: pat)
  case Nil
  then show ?case by simp
next
  case (Cons x xs)
  show ?case
  proof (cases "best_match uri xs")
    case None
    with Cons.prems show ?thesis by (auto simp: best_match_None split: if_splits)
  next
    case (Some q)
    from Cons.IH [OF Some] Cons.prems Some show ?thesis
      by (fastforce split: if_splits)
  qed
qed

text \<open>
  The same, declaratively: a match with every earlier match strictly shorter and no later
  match longer. There is at most one, and one exactly when something matches.
\<close>

definition longest_match :: "string \<Rightarrow> string list \<Rightarrow> string \<Rightarrow> bool" where
  "longest_match uri pats pat \<longleftrightarrow>
     fnmatchcase uri pat \<and>
     (\<exists>before after. pats = before @ pat # after \<and>
        (\<forall>q\<in>set before. fnmatchcase uri q \<longrightarrow> length q < length pat) \<and>
        (\<forall>q\<in>set after. fnmatchcase uri q \<longrightarrow> length q \<le> length pat))"

fun better :: "string option \<Rightarrow> string option \<Rightarrow> string option" where
  "better None b = b"
| "better (Some p) None = Some p"
| "better (Some p) (Some q) = (if length q \<le> length p then Some p else Some q)"

lemma best_match_better:
  "best_match uri (pat # pats) = better (if fnmatchcase uri pat then Some pat else None) (best_match uri pats)"
  by (simp split: option.splits)

lemma better_None [simp]: "better a None = a"
  by (cases a) simp_all

lemma better_assoc: "better (better a b) c = better a (better b c)"
  by (cases a; cases b; cases c) auto

lemma better_repeat: "better a (better b (better a c)) = better a (better b c)"
  by (cases a; cases b; cases c) auto

lemma best_match_append: "best_match uri (xs @ ys) = better (best_match uri xs) (best_match uri ys)"
  by (induction xs) (simp_all only: append.simps best_match_better better_assoc best_match.simps(1) better.simps(1))

lemma best_match_repeated:
  assumes "pat \<in> set xs"
  shows "best_match uri (xs @ pat # ys) = best_match uri (xs @ ys)"
proof -
  obtain us vs where "xs = us @ pat # vs" using assms by (meson split_list)
  then show ?thesis
    by (simp only: append_assoc append.simps best_match_append [of uri us]
        best_match_append [of uri vs] best_match_better better_repeat)
qed

lemma best_match_longest: "best_match uri pats = Some pat \<longleftrightarrow> longest_match uri pats pat"
proof
  assume "best_match uri pats = Some pat"
  then show "longest_match uri pats pat"
  proof (induction pats)
    case Nil
    then show ?case by simp
  next
    case (Cons x xs)
    show ?case
    proof (cases "fnmatchcase uri x \<and> (\<forall>q. best_match uri xs = Some q \<longrightarrow> length q \<le> length x)")
      case True
      with Cons.prems have "pat = x" by (auto split: option.splits)
      moreover have "\<forall>q\<in>set xs. fnmatchcase uri q \<longrightarrow> length q \<le> length x"
      proof (cases "best_match uri xs")
        case None
        then show ?thesis by (simp add: best_match_None)
      next
        case (Some q)
        with True best_match_Some [OF Some] show ?thesis by fastforce
      qed
      ultimately show ?thesis
        using True unfolding longest_match_def by (metis append_Nil empty_iff list.set(1))
    next
      case False
      with Cons.prems have rest: "best_match uri xs = Some pat"
        and x: "fnmatchcase uri x \<longrightarrow> length x < length pat"
        by (auto split: option.splits if_splits)
      from Cons.IH [OF rest] obtain b a where "xs = b @ pat # a" "fnmatchcase uri pat"
        "\<forall>q\<in>set b. fnmatchcase uri q \<longrightarrow> length q < length pat"
        "\<forall>q\<in>set a. fnmatchcase uri q \<longrightarrow> length q \<le> length pat"
        unfolding longest_match_def by blast
      with x show ?thesis
        unfolding longest_match_def by (intro conjI exI [of _ "x # b"] exI [of _ a]) auto
    qed
  qed
next
  assume "longest_match uri pats pat"
  then obtain b a where pats: "pats = b @ pat # a" and pat: "fnmatchcase uri pat"
    and b: "\<forall>q\<in>set b. fnmatchcase uri q \<longrightarrow> length q < length pat"
    and a: "\<forall>q\<in>set a. fnmatchcase uri q \<longrightarrow> length q \<le> length pat"
    unfolding longest_match_def by blast
  have "best_match uri (pat # a) = Some pat"
    using pat a best_match_Some [of uri a] by (auto split: option.splits)
  moreover have "length q < length pat" if "best_match uri b = Some q" for q
    using best_match_Some [OF that] b by blast
  ultimately show "best_match uri pats = Some pat"
    unfolding pats best_match_append by (cases "best_match uri b") fastforce+
qed

lemma longest_match_unique: "longest_match uri pats p \<Longrightarrow> longest_match uri pats q \<Longrightarrow> p = q"
  unfolding best_match_longest [symmetric] by simp

lemma longest_match_exists: "(\<exists>pat. longest_match uri pats pat) \<longleftrightarrow> (\<exists>pat\<in>set pats. fnmatchcase uri pat)"
  unfolding best_match_longest [symmetric] by (metis best_match_None not_Some_eq)

lemma resource_rule_best:
  "resource_rule p uri =
     (case best_match uri (map fst (p_resources p)) of
        None \<Rightarrow> None | Some pat \<Rightarrow> map_of (p_resources p) pat)"
  by (simp add: resource_rule_def find_by_length)


text \<open>The patterns of a document, in its order, repeated keys included: the loader's dict keeps the
  first occurrence of each, which changes nothing.\<close>

definition resource_patterns :: "pydict \<Rightarrow> string list" where
  "resource_patterns doc =
     (case map_of doc (PStr ''resources'') of
        Some (PDict items) \<Rightarrow> map (\<lambda>e. py_str (fst e)) items
      | _ \<Rightarrow> [])"

lemma map_fst_dict_set:
  "map fst (dict_set k v d) = (if k \<in> set (map fst d) then map fst d else map fst d @ [k])"
  by (induction d) (auto simp: dict_simps)

lemma parse_items_patterns:
  "parse_items declared src sec items acc = Inr rs \<Longrightarrow>
   best_match uri (map fst rs) = best_match uri (map fst acc @ map (\<lambda>e. py_str (fst e)) items)"
proof (induction items arbitrary: acc)
  case Nil
  then show ?case by simp
next
  case (Cons e items)
  then obtain r where r: "parse_rule declared src sec e = Inr r"
    and rest: "parse_items declared src sec items (dict_set (r_pattern r) r acc) = Inr rs"
    by (auto simp: result_simps)
  have "r_pattern r = py_str (fst e)" using parse_rule_facts(1) [OF r] .
  with Cons.IH [OF rest] show ?case
    by (simp add: map_fst_dict_set best_match_repeated)
qed

lemma resource_patterns_best:
  assumes "parse_rules (dict_get doc ''resources'') declared src ''resources'' = Inr rs"
  shows "best_match uri (map fst rs) = best_match uri (resource_patterns doc)"
  using assms parse_items_patterns [of declared src "''resources''" _ "[]" rs uri]
  by (auto simp: parse_rules_def resource_patterns_def dict_get_def dict_get_or_def
      split: option.splits pyval.splits)

section \<open>An example document\<close>

text \<open>The policy of the repository's own tests, used as the concrete input of witnesses.\<close>

definition example_entry :: "string \<Rightarrow> string list \<Rightarrow> pyval" where
  "example_entry cls roles = PDict
     [(PStr ''classification'', PStr cls), (PStr ''allow_roles'', PList (map PStr roles))]"

definition example_doc :: pydict where
  "example_doc =
     [(PStr ''version'', PInt 1),
      (PStr ''default'', PStr ''deny''),
      (PStr ''roles'', PDict [(PStr ''tlo.reader'', PDict []), (PStr ''tlo.operator'', PDict [])]),
      (PStr ''tools'', PDict
        [(PStr ''get_shipment_status'', example_entry ''internal'' [''tlo.reader'', ''tlo.operator'']),
         (PStr ''list_delayed_shipments'', example_entry ''internal'' [''tlo.operator''])]),
      (PStr ''resources'', PDict
        [(PStr ''shipment://*'', example_entry ''internal'' [''tlo.reader''])])]"

definition example_policy :: policy where
  "example_policy = projr (from_mapping (PDict example_doc) ''<test>'')"

lemma example_loads: "from_mapping (PDict example_doc) ''<test>'' = Inr example_policy"
proof -
  have "is_ok (from_mapping (PDict example_doc) ''<test>'')" by code_simp
  then show ?thesis by (auto simp: example_policy_def is_ok_iff)
qed

lemma example_wf: "wf_policy example_policy"
  by (rule from_mapping_wf_policy [OF example_loads])

section \<open>Properties\<close>

text \<open>C16: a document loads exactly when it is valid: a mapping with a version equal to 1, a
  default that is absent or \<open>deny\<close>, a \<open>roles\<close> section that is absent, null or a mapping, and
  rule sections that are absent, null or mappings whose entries are mappings with one of the
  four classifications and a list of declared roles (or nothing falsy in its place). The
  loader refuses everything else and nothing more.\<close>

theorem load_iff_valid: "is_ok (from_mapping raw src) \<longleftrightarrow> valid_doc raw"
  by (rule from_mapping_ok)

text \<open>The example loads; it is refused with a list for its \<open>roles\<close> section, even when no entry
  lists a role.\<close>

definition roles_as_list_doc :: pydict where
  "roles_as_list_doc =
     [(PStr ''version'', PInt 1),
      (PStr ''roles'', PList [PStr ''tlo.reader'', PStr ''tlo.operator'']),
      (PStr ''tools'', PDict [(PStr ''get_shipment_status'', PDict [])])]"

theorem load_iff_valid_witness:
  "is_ok (from_mapping (PDict example_doc) ''<test>'') \<and>
   \<not> is_ok (from_mapping (PDict roles_as_list_doc) ''<test>'')"
  unfolding load_iff_valid by code_simp

text \<open>C15: the decision on a tool is the access matrix of the document: allowed exactly when
  some role the caller holds is listed by the entry for that tool; a tool without an entry
  is denied to everyone.\<close>

theorem tool_decision_matrix:
  assumes "from_mapping (PDict doc) src = Inr p"
  shows "d_allowed (decide_tool p tool roles) \<longleftrightarrow> (\<exists>role\<in>set roles. grants doc ''tools'' tool role)"
proof -
  have "parse_rules (dict_get doc ''tools'') (p_declared_roles p) src ''tools'' = Inr (p_tools p)"
    using assms by (elim from_mapping_Inr) simp
  from grants_rule [OF parse_rules_agree [OF this]] show ?thesis
    by (auto simp: decide_tool_def decision_defs split: option.splits)
qed

theorem tool_decision_matrix_witness:
  "d_allowed (decide_tool example_policy ''list_delayed_shipments'' [''tlo.operator'']) \<and>
   \<not> d_allowed (decide_tool example_policy ''list_delayed_shipments'' [''tlo.reader'']) \<and>
   \<not> d_allowed (decide_tool example_policy ''delete_everything'' [''tlo.operator''])"
  unfolding tool_decision_matrix [OF example_loads] by code_simp

text \<open>Fail fast: a document one of whose entries lists a role that \<open>roles:\<close> does not
  declare never loads; the loader raises \<open>PolicyError\<close>.\<close>

lemma from_mapping_error: "from_mapping raw src = Inl e \<Longrightarrow> \<exists>m. e = PolicyError m"
proof -
  have item: "\<exists>m. e = PolicyError m" if "parse_rule d src sec i = Inl e" for d sec i e
    using that by (auto simp: parse_rule_def Let_def split: option.splits if_splits pyval.splits)
  have items: "\<exists>m. e = PolicyError m" if "parse_items d src sec is acc = Inl e" for d sec "is" acc e
    using that by (induction "is" arbitrary: acc) (auto simp: result_simps dest: item)
  have rules: "\<exists>m. e = PolicyError m" if "parse_rules v d src sec = Inl e" for v d sec e
    using that by (cases v) (auto simp: parse_rules_def dest: items)
  have roles: "\<exists>m. e = PolicyError m" if "parse_roles v src = Inl e" for v e
    using that by (cases v) (auto simp: parse_roles_def)
  show "from_mapping raw src = Inl e \<Longrightarrow> \<exists>m. e = PolicyError m"
    by (auto simp: from_mapping_def result_simps split: option.splits if_splits dest: rules roles)
qed

lemma undeclared_invalid:
  assumes "map_of doc (PStr sec) = Some (PDict items)" and "(k, v) \<in> set items"
    and "role \<in> listed_roles v" and "role \<notin> declared"
  shows "\<not> valid_section declared (map_of doc (PStr sec))"
proof -
  have "\<not> valid_item declared v"
    using assms(3,4)
    by (auto simp: listed_roles_def valid_item_def valid_body_def split: pyval.splits option.splits)
  with assms(1,2) show ?thesis
    by (auto simp: valid_section_def intro!: bexI [of _ "(k, v)"])
qed

lemma undeclared_role_refused:
  assumes "sec \<in> {''tools'', ''resources''}" and "map_of doc (PStr sec) = Some (PDict items)"
    and "(k, v) \<in> set items" and "role \<in> listed_roles v"
    and "declared_names doc = Some declared" and "role \<notin> declared"
  shows "\<exists>m. from_mapping (PDict doc) src = Inl (PolicyError m)"
proof -
  have "\<not> valid_doc (PDict doc)"
    using assms(1) undeclared_invalid [OF assms(2-4,6)] by (auto simp: valid_doc_def assms(5))
  then have "\<not> is_ok (from_mapping (PDict doc) src)" by (simp add: from_mapping_ok)
  then show ?thesis
    by (cases "from_mapping (PDict doc) src") (auto dest: from_mapping_error)
qed

text \<open>A caller who gains roles loses nothing: what a set of roles allows, every larger one
  allows, for tools and for resources.\<close>

lemma decisions_monotone:
  assumes "wf_policy p" and "set roles \<subseteq> set roles'"
  shows "(d_allowed (decide_tool p t roles) \<longrightarrow> d_allowed (decide_tool p t roles')) \<and>
    (d_allowed (decide_resource p t roles) \<longrightarrow> d_allowed (decide_resource p t roles'))"
  using tool_auth.more_roles [OF assms] resource_auth.more_roles [OF assms] by blast

text \<open>C35: the decision on a resource is the access matrix of the document at the longest pattern that
  matches the URI: among the patterns of the \<open>resources\<close> section, in the document's order, the
  match that is longer than every earlier match and no shorter than any later one. The caller
  is allowed exactly when there is such a pattern and its entry lists a role the caller holds;
  when nothing matches, everyone is denied.\<close>

theorem resource_longest_match:
  assumes "from_mapping (PDict doc) src = Inr p"
  shows "d_allowed (decide_resource p uri roles) \<longleftrightarrow>
    (\<exists>pat. longest_match uri (resource_patterns doc) pat \<and>
       (\<exists>role\<in>set roles. grants doc ''resources'' pat role))"
proof -
  have rules: "parse_rules (dict_get doc ''resources'') (p_declared_roles p) src ''resources'' =
      Inr (p_resources p)"
    using assms by (elim from_mapping_Inr) simp
  have best: "resource_rule p uri =
      (case best_match uri (resource_patterns doc) of None \<Rightarrow> None | Some pat \<Rightarrow> map_of (p_resources p) pat)"
    by (simp add: resource_rule_best resource_patterns_best [OF rules])
  have grant: "grants doc ''resources'' pat role \<longleftrightarrow>
      (\<exists>r. map_of (p_resources p) pat = Some r \<and> role \<in> r_allow_roles r)" for pat role
    by (rule grants_rule [OF parse_rules_agree [OF rules]])
  show ?thesis
    unfolding best_match_longest [symmetric] grant decide_resource_def best decision_defs
    by (auto split: option.splits)
qed

text \<open>A document in which a shorter pattern comes first and grants less: the longer one decides.\<close>

definition layered_doc :: pydict where
  "layered_doc =
     [(PStr ''version'', PInt 1),
      (PStr ''roles'', PDict [(PStr ''tlo.reader'', PDict []), (PStr ''tlo.operator'', PDict [])]),
      (PStr ''resources'', PDict
        [(PStr ''shipment://*'', example_entry ''internal'' [''tlo.reader'', ''tlo.operator'']),
         (PStr ''shipment://eu/*'', example_entry ''restricted'' [''tlo.operator''])])]"

lemma layered_loads:
  "from_mapping (PDict layered_doc) ''<test>'' = Inr (projr (from_mapping (PDict layered_doc) ''<test>''))"
proof -
  have "is_ok (from_mapping (PDict layered_doc) ''<test>'')" by code_simp
  then show ?thesis by (auto simp: is_ok_iff)
qed

lemma layered_matches:
  "longest_match ''shipment://eu/1'' (resource_patterns layered_doc) pat \<longleftrightarrow> pat = ''shipment://eu/*''"
  "longest_match ''shipment://us/1'' (resource_patterns layered_doc) pat \<longleftrightarrow> pat = ''shipment://*''"
  "\<not> longest_match ''secret://keys'' (resource_patterns layered_doc) pat"
proof -
  have "best_match ''shipment://eu/1'' (resource_patterns layered_doc) = Some ''shipment://eu/*''"
    and "best_match ''shipment://us/1'' (resource_patterns layered_doc) = Some ''shipment://*''"
    and "best_match ''secret://keys'' (resource_patterns layered_doc) = None"
    by code_simp+
  then show "longest_match ''shipment://eu/1'' (resource_patterns layered_doc) pat \<longleftrightarrow> pat = ''shipment://eu/*''"
    and "longest_match ''shipment://us/1'' (resource_patterns layered_doc) pat \<longleftrightarrow> pat = ''shipment://*''"
    and "\<not> longest_match ''secret://keys'' (resource_patterns layered_doc) pat"
    unfolding best_match_longest [symmetric] by auto
qed

lemma layered_grants:
  "grants layered_doc ''resources'' ''shipment://eu/*'' ''tlo.operator''"
  "\<not> grants layered_doc ''resources'' ''shipment://eu/*'' ''tlo.reader''"
  "grants layered_doc ''resources'' ''shipment://*'' ''tlo.reader''"
  by code_simp+

theorem resource_longest_match_witness:
  "let p = projr (from_mapping (PDict layered_doc) ''<test>'') in
   d_allowed (decide_resource p ''shipment://eu/1'' [''tlo.operator'']) \<and>
   \<not> d_allowed (decide_resource p ''shipment://eu/1'' [''tlo.reader'']) \<and>
   d_allowed (decide_resource p ''shipment://us/1'' [''tlo.reader'']) \<and>
   \<not> d_allowed (decide_resource p ''secret://keys'' [''tlo.reader'', ''tlo.operator''])"
  unfolding Let_def resource_longest_match [OF layered_loads] layered_matches
  by (simp add: layered_matches layered_grants)

text \<open>
  The longest pattern is not always the most specific one: a run of wildcards is longer
  than the literal name it also matches.
\<close>

definition wildcard_doc :: pydict where
  "wildcard_doc =
     [(PStr ''version'', PInt 1),
      (PStr ''roles'', PDict [(PStr ''any'', PDict []), (PStr ''one'', PDict [])]),
      (PStr ''resources'', PDict
        [(PStr ''s://a'', example_entry ''restricted'' [''one'']),
         (PStr ''s://***'', example_entry ''public'' [''any''])])]"

lemma longest_is_not_most_specific:
  "map_option r_pattern
     (resource_rule (projr (from_mapping (PDict wildcard_doc) ''<test>'')) ''s://a'') =
   Some ''s://***''"
  by code_simp

end
