(* ===== verification/AuditLog.thy ===== *)
theory AuditLog
  imports Policy
begin

text \<open>
  \<open>governance/audit.py\<close>: the event of a decision, its JSON line and the dedicated logger it
  goes to. \<open>sink\<close> is that logger: its level, its handlers' streams, whether it propagates,
  and the lines each stream has received. The clock is the parameter \<open>now\<close>. The JSON text
  is \<open>json.dumps(event, separators=(",", ":"), default=str)\<close> of the standard library.
\<close>

section \<open>Levels and the logger\<close>

datatype level = INFO | WARNING

instantiation level :: linorder
begin

definition less_eq_level :: "level \<Rightarrow> level \<Rightarrow> bool" where
  "less_eq_level a b = (a = INFO \<or> b = WARNING)"

definition less_level :: "level \<Rightarrow> level \<Rightarrow> bool" where
  "less_level a b = (a = INFO \<and> b = WARNING)"

instance
proof
  fix a b c :: level
  show "(a < b) = (a \<le> b \<and> \<not> b \<le> a)"
    by (cases a; cases b) (simp_all add: less_eq_level_def less_level_def)
  show "a \<le> a" by (cases a) (simp_all add: less_eq_level_def)
  show "a \<le> b \<Longrightarrow> b \<le> c \<Longrightarrow> a \<le> c"
    by (cases a; cases b) (simp_all add: less_eq_level_def)
  show "a \<le> b \<Longrightarrow> b \<le> a \<Longrightarrow> a = b"
    by (cases a; cases b) (simp_all add: less_eq_level_def)
  show "a \<le> b \<or> b \<le> a" by (cases a; cases b) (simp_all add: less_eq_level_def)
qed

end

record audit_line =
  l_level :: level
  l_text :: string

record sink =
  sk_level :: level
  sk_handlers :: "string list"
  sk_propagate :: bool
  sk_lines :: "(string \<times> audit_line) list"

text \<open>\<open>configure\<close>: one handler of its own (a fresh stream), no propagation, level INFO.\<close>

definition configure :: "string \<Rightarrow> sink \<Rightarrow> sink" where
  "configure stream s = s\<lparr>sk_handlers := [stream], sk_propagate := False, sk_level := INFO\<rparr>"

text \<open>A log call: dropped below the logger's level, else one line per handler.\<close>

definition emit :: "level \<Rightarrow> string \<Rightarrow> sink \<Rightarrow> sink" where
  "emit lv text s =
     (if sk_level s \<le> lv
      then s\<lparr>sk_lines := sk_lines s @
        map (\<lambda>h. (h, \<lparr>l_level = lv, l_text = text\<rparr>)) (sk_handlers s)\<rparr>
      else s)"

section \<open>JSON\<close>

definition json_char :: "char \<Rightarrow> string" where
  "json_char c =
     (if c = CHR 0x22 \<or> c = CHR 0x5C then [CHR 0x5C, c]
      else if c = CHR 0x0A then [CHR 0x5C, CHR ''n'']
      else if c = CHR 0x0D then [CHR 0x5C, CHR ''r'']
      else if c = CHR 0x09 then [CHR 0x5C, CHR ''t'']
      else if c = CHR 0x08 then [CHR 0x5C, CHR ''b'']
      else if c = CHR 0x0C then [CHR 0x5C, CHR ''f'']
      else if (32::nat) \<le> of_char c \<and> of_char c \<le> (126::nat) then [c]
      else [CHR 0x5C, CHR ''u'', CHR ''0'', CHR ''0'',
            hex_digit (of_char c div 16), hex_digit (of_char c mod 16)])"

definition json_str :: "string \<Rightarrow> string" where
  "json_str s = CHR 0x22 # concat (map json_char s) @ [CHR 0x22]"

fun sequence :: "('e + 'a) list \<Rightarrow> 'e + 'a list" where
  "sequence [] = Inr []"
| "sequence (r # rs) = bindE r (\<lambda>x. bindE (sequence rs) (\<lambda>xs. Inr (x # xs)))"

fun json_key :: "pyval \<Rightarrow> exn + string" where
  "json_key (PStr s) = Inr (json_str s)"
| "json_key PNone = Inr (json_str ''null'')"
| "json_key (PBool b) = Inr (json_str (if b then ''true'' else ''false''))"
| "json_key (PInt i) = Inr (json_str (int_str i))"
| "json_key (PFloat q s) = Inr (json_str s)"
| "json_key _ = Inl TypeError"

definition json_list :: "string \<Rightarrow> string \<Rightarrow> string list \<Rightarrow> string" where
  "json_list l r xs = l @ join '','' xs @ r"

primrec json_dumps :: "pyval \<Rightarrow> exn + string" where
  "json_dumps PNone = Inr ''null''"
| "json_dumps (PBool b) = Inr (if b then ''true'' else ''false'')"
| "json_dumps (PInt i) = Inr (int_str i)"
| "json_dumps (PFloat q s) = Inr s"
| "json_dumps (PStr s) = Inr (json_str s)"
| "json_dumps (PList xs) =
     bindE (sequence (map json_dumps xs)) (\<lambda>ys. Inr (json_list ''['' '']'' ys))"
| "json_dumps (PTuple xs) =
     bindE (sequence (map json_dumps xs)) (\<lambda>ys. Inr (json_list ''['' '']'' ys))"
| "json_dumps (PDict kvs) =
     bindE (sequence (map (\<lambda>(k, r). bindE (json_key k) (\<lambda>k. bindE r (\<lambda>v. Inr (k @ '':'' @ v))))
         (map (map_prod id json_dumps) kvs)))
       (\<lambda>ys. Inr (json_list ''{'' ''}'' ys))"
| "json_dumps (PObj s as) = Inr (json_str s)"

section \<open>Recording a decision\<close>

definition RECORD_ARGUMENT_VALUES :: bool where
  "RECORD_ARGUMENT_VALUES = False"

definition opt_str :: "string option \<Rightarrow> pyval" where
  "opt_str x = (case x of None \<Rightarrow> PNone | Some s \<Rightarrow> PStr s)"

text \<open>\<open>outcome or ("allow" if decision.allowed else "deny")\<close>.\<close>

definition outcome_of :: "decision \<Rightarrow> string option \<Rightarrow> string" where
  "outcome_of d outcome =
     (case outcome of
        Some (c # cs) \<Rightarrow> c # cs
      | _ \<Rightarrow> if d_allowed d then ''allow'' else ''deny'')"

definition audit_event ::
  "string \<Rightarrow> string \<Rightarrow> string \<Rightarrow> decision \<Rightarrow> pydict option \<Rightarrow> string option \<Rightarrow> string option
    \<Rightarrow> exn + pydict"
where
  "audit_event now who verb d arguments protocol_version outcome =
     (let event =
        [(PStr ''timestamp'', PStr now),
         (PStr ''principal'', PStr who),
         (PStr ''method'', PStr verb),
         (PStr ''target'', PStr (d_target d)),
         (PStr ''outcome'', PStr (outcome_of d outcome)),
         (PStr ''reason'', PStr (d_reason d)),
         (PStr ''classification'', opt_str (d_classification d)),
         (PStr ''required_roles'', PList (map PStr (d_required_roles d))),
         (PStr ''granted_roles'', PList (map PStr (d_granted_roles d))),
         (PStr ''protocol_version'', opt_str protocol_version)]
      in case arguments of
           None \<Rightarrow> Inr event
         | Some args \<Rightarrow>
             bindE (sorted_by (\<lambda>k. k) (map fst args)) (\<lambda>names.
               Inr (event @ [(PStr ''argument_names'', PList names)] @
                 (if RECORD_ARGUMENT_VALUES then [(PStr ''arguments'', PDict args)] else []))))"

definition audit_record ::
  "string \<Rightarrow> string \<Rightarrow> string \<Rightarrow> decision \<Rightarrow> pydict option \<Rightarrow> string option \<Rightarrow> string option
    \<Rightarrow> sink \<Rightarrow> (exn + unit) \<times> sink"
where
  "audit_record now who verb d arguments protocol_version outcome s =
     (case bindE (audit_event now who verb d arguments protocol_version outcome)
             (\<lambda>event. json_dumps (PDict event)) of
        Inl e \<Rightarrow> (Inl e, s)
      | Inr text \<Rightarrow>
          (Inr (), emit (if outcome_of d outcome = ''deny'' then WARNING else INFO) text s))"


section \<open>Lines\<close>

text \<open>
  A value made of strings, \<open>None\<close>, lists and string-keyed dicts of such: what an event is
  made of. Its JSON always exists and is printable ASCII, so it is one line.
\<close>

primrec textual :: "pyval \<Rightarrow> bool" where
  "textual PNone = True"
| "textual (PBool b) = True"
| "textual (PInt i) = False"
| "textual (PFloat q s) = False"
| "textual (PStr s) = True"
| "textual (PList xs) = list_all (\<lambda>b. b) (map textual xs)"
| "textual (PTuple xs) = list_all (\<lambda>b. b) (map textual xs)"
| "textual (PDict kvs) =
     list_all (\<lambda>(k, b). str_of k \<noteq> None \<and> b) (map (map_prod id textual) kvs)"
| "textual (PObj s as) = True"

definition printable :: "string \<Rightarrow> bool" where
  "printable s \<longleftrightarrow> (\<forall>c\<in>set s. 32 \<le> (of_char c :: nat) \<and> of_char c \<le> (126 :: nat))"

lemma printable_simps [simp]:
  "printable []"
  "printable (c # s) \<longleftrightarrow> 32 \<le> (of_char c :: nat) \<and> of_char c \<le> (126 :: nat) \<and> printable s"
  "printable (s @ t) \<longleftrightarrow> printable s \<and> printable t"
  by (auto simp: printable_def)

lemma hex_digit_printable: "d < 16 \<Longrightarrow> 32 \<le> (of_char (hex_digit d) :: nat) \<and> of_char (hex_digit d) \<le> (126 :: nat)"
  by (simp add: hex_digit_def)

lemma of_char_less_256: "(of_char c :: nat) < 256"
  using of_char_mod_256 [of c, where 'a = nat] by (metis mod_less_divisor zero_less_numeral)

lemma of_char_nibbles: "(of_char c :: nat) div 16 < 16" "(of_char c :: nat) mod 16 < 16"
  using of_char_less_256 [of c] by (simp_all add: less_mult_imp_div_less)

lemma json_char_printable: "printable (json_char c)"
  using of_char_nibbles [of c] by (auto simp: json_char_def hex_digit_printable)

lemma json_str_printable: "printable (json_str s)"
  using json_char_printable by (induction s) (auto simp: json_str_def)

lemma join_printable: "list_all printable xs \<Longrightarrow> printable (join '','' xs)"
  by (induction "'',''" xs rule: join.induct) auto

lemma json_list_printable:
  "printable l \<Longrightarrow> printable r \<Longrightarrow> list_all printable xs \<Longrightarrow> printable (json_list l r xs)"
  by (simp add: json_list_def join_printable)

text \<open>Every element dumps to a printable text, so the sequence does.\<close>

definition dumps_line :: "exn + string \<Rightarrow> bool" where
  "dumps_line r \<longleftrightarrow> (case r of Inl _ \<Rightarrow> False | Inr t \<Rightarrow> printable t)"

lemma sequence_lines:
  "list_all dumps_line rs \<Longrightarrow> \<exists>ys. sequence rs = Inr ys \<and> list_all printable ys"
  by (induction rs) (auto simp: dumps_line_def split: sum.splits)

lemma dumps_list:
  assumes "list_all dumps_line rs" and "printable l" and "printable r"
  shows "dumps_line (bindE (sequence rs) (\<lambda>ys. Inr (json_list l r ys)))"
  using sequence_lines [OF assms(1)] assms(2,3) by (auto simp: dumps_line_def json_list_printable)

lemma textual_dumps: "textual v \<Longrightarrow> dumps_line (json_dumps v)"
proof (induction v)
  case (PList xs)
  then have "list_all dumps_line (map json_dumps xs)" by (auto simp: list_all_iff)
  then show ?case using dumps_list by simp
next
  case (PTuple xs)
  then have "list_all dumps_line (map json_dumps xs)" by (auto simp: list_all_iff)
  then show ?case using dumps_list by simp
next
  case (PDict kvs)
  have "dumps_line (bindE (json_key k) (\<lambda>k. bindE (json_dumps v) (\<lambda>v. Inr (k @ '':'' @ v))))"
    if "(k, v) \<in> set kvs" for k v
  proof -
    have "str_of k \<noteq> None" and "textual v"
      using PDict.prems that by (auto simp: list_all_iff)
    then have "dumps_line (json_dumps v)"
      using PDict.IH(2) [of "(k, v)" v] that by simp
    with \<open>str_of k \<noteq> None\<close> obtain s t where
      "k = PStr s" and "json_dumps v = Inr t" and "printable t"
      by (cases k) (auto simp: dumps_line_def split: sum.splits)
    then show ?thesis by (simp add: dumps_line_def json_str_printable)
  qed
  then have "list_all dumps_line
      (map (\<lambda>(k, r). bindE (json_key k) (\<lambda>k. bindE r (\<lambda>v. Inr (k @ '':'' @ v))))
        (map (map_prod id json_dumps) kvs))"
    by (auto simp: list_all_iff)
  then show ?case using dumps_list by simp
qed (simp_all add: dumps_line_def json_str_printable)


section \<open>Recording\<close>

text \<open>Arguments off the wire: absent, or a mapping with string keys.\<close>

definition wire_args :: "pydict option \<Rightarrow> bool" where
  "wire_args args \<longleftrightarrow> (case args of None \<Rightarrow> True | Some d \<Rightarrow> str_keyed d)"

lemma textual_strs: "textual (PList (map PStr xs))"
  by (induction xs) auto

lemma textual_opt: "textual (opt_str x)"
  by (simp add: opt_str_def split: option.splits)

lemma audit_event_textual:
  assumes "wire_args args"
  shows "\<exists>event. audit_event now who verb d args ver outcome = Inr event \<and> textual (PDict event)"
proof (cases args)
  case None
  then show ?thesis by (simp add: audit_event_def textual_opt textual_strs del: textual.simps(6))
next
  case (Some a)
  with assms have a: "str_keyed a" by (simp add: wire_args_def)
  obtain names where names: "sorted_by (\<lambda>k. k) (map fst a) = Inr names"
    using sorted_names [OF a] unfolding is_ok_iff by blast
  have "\<forall>k\<in>set (map fst a). str_of k \<noteq> None"
    using a by (auto simp: list_all_iff str_keyed_def split_beta simp del: not_None_eq)
  then have "list_all (\<lambda>k. str_of k \<noteq> None) names"
    by (simp only: sorted_by_set [OF names, symmetric] list_all_iff)
  moreover have "textual k" if "str_of k \<noteq> None" for k
    using that by (cases k) auto
  ultimately have "textual (PList names)" by (auto simp: list_all_iff)
  with Some names show ?thesis
    by (simp add: audit_event_def textual_opt textual_strs RECORD_ARGUMENT_VALUES_def
        del: textual.simps(6))
qed

definition outcome_level :: "decision \<Rightarrow> string option \<Rightarrow> level" where
  "outcome_level d outcome = (if outcome_of d outcome = ''deny'' then WARNING else INFO)"

lemma audit_record_emits:
  assumes "wire_args args"
  obtains tx where "printable tx"
    and "\<And>s. audit_record now who verb d args ver outcome s =
      (Inr (), emit (outcome_level d outcome) tx s)"
proof -
  obtain event where event: "audit_event now who verb d args ver outcome = Inr event"
    and "textual (PDict event)"
    using audit_event_textual [OF assms] by blast
  then obtain tx where "json_dumps (PDict event) = Inr tx" and "printable tx"
    using textual_dumps by (fastforce simp: dumps_line_def split: sum.splits)
  with event that show ?thesis by (simp add: audit_record_def outcome_level_def)
qed

lemma audit_record_ok: "wire_args args \<Longrightarrow> fst (audit_record now who verb d args ver outcome s) = Inr ()"
  by (rule audit_record_emits [of args now who verb d ver outcome]) simp_all

text \<open>A record that fails leaves the log as it was; the log only ever grows.\<close>

lemma emit_grows: "\<exists>new. sk_lines (emit lv text s) = sk_lines s @ new"
  by (simp add: emit_def)

lemma audit_record_grows:
  "\<exists>new. sk_lines (snd (audit_record now who verb d args ver outcome s)) = sk_lines s @ new"
  using emit_grows by (auto simp: audit_record_def split: sum.splits)

lemma audit_record_frame:
  "sk_level (snd (audit_record now who verb d args ver outcome s)) = sk_level s"
  "sk_handlers (snd (audit_record now who verb d args ver outcome s)) = sk_handlers s"
  "sk_propagate (snd (audit_record now who verb d args ver outcome s)) = sk_propagate s"
  by (simp_all add: audit_record_def emit_def split: sum.splits)

section \<open>Properties\<close>

definition example_sink :: sink where
  "example_sink = configure ''stdout'' \<lparr>sk_level = WARNING, sk_handlers = [], sk_propagate = True,
     sk_lines = []\<rparr>"

text \<open>C33: once the stream is configured, every decision on a call whose arguments are absent or
  a string-keyed mapping becomes exactly one record on exactly that stream, of printable
  ASCII only: no line break, quote or control character of a tool name, a role, a principal
  or an argument name can split or forge a record.\<close>

theorem audit_one_line:
  assumes "wire_args args"
  shows "\<exists>line. printable (l_text line) \<and>
    (let r = audit_record now who verb d args ver outcome (configure stream s)
     in fst r = Inr () \<and> sk_lines (snd r) = sk_lines s @ [(stream, line)])"
proof -
  obtain tx where "printable tx" and "\<And>s. audit_record now who verb d args ver outcome s =
      (Inr (), emit (outcome_level d outcome) tx s)"
    using audit_record_emits [OF assms] by blast
  then show ?thesis
    by (intro exI [of _ "\<lparr>l_level = outcome_level d outcome, l_text = tx\<rparr>"])
      (simp add: emit_def configure_def less_eq_level_def)
qed

theorem audit_one_line_witness:
  "\<exists>line. printable (l_text line) \<and>
    (let r = audit_record ''2026-07-31'' [CHR 0x0A] ''tools/call'' (default_deny ''x'' ''t'' [])
        (Some [(PStr [CHR 0x0A, CHR 0x22], PInt 3)]) None None (configure ''out'' example_sink)
     in fst r = Inr () \<and> sk_lines (snd r) = sk_lines example_sink @ [(''out'', line)])"
  by (rule audit_one_line) (simp add: wire_args_def str_keyed_def)

text \<open>Argument values are not recorded: two calls that differ only in the values of their
  arguments leave the same log.\<close>

lemma audit_ignores_values:
  assumes "map fst args = map fst args'"
  shows "audit_record now who verb d (Some args) ver outcome s =
    audit_record now who verb d (Some args') ver outcome s"
  using assms by (simp add: audit_record_def audit_event_def RECORD_ARGUMENT_VALUES_def)

text \<open>The start of a record, up to its reason: who did what to which target, with which outcome.\<close>

definition json_field :: "string \<Rightarrow> string \<Rightarrow> string" where
  "json_field name value = json_str name @ '':'' @ json_str value"

definition record_start :: "string \<Rightarrow> string \<Rightarrow> string \<Rightarrow> string \<Rightarrow> string \<Rightarrow> string" where
  "record_start now who verb target outcome =
     ''{'' @ join '',''
       [json_field ''timestamp'' now, json_field ''principal'' who, json_field ''method'' verb,
        json_field ''target'' target, json_field ''outcome'' outcome]"

lemma audit_event_dict:
  assumes "audit_event now who verb d args ver outcome = Inr event"
  obtains others where "event =
    [(PStr ''timestamp'', PStr now), (PStr ''principal'', PStr who), (PStr ''method'', PStr verb),
     (PStr ''target'', PStr (d_target d)), (PStr ''outcome'', PStr (outcome_of d outcome)),
     (PStr ''reason'', PStr (d_reason d))] @ others"
  using assms by (auto simp: audit_event_def Let_def result_simps split: option.splits)

lemma dumps_five:
  assumes "json_dumps (PDict ([(PStr k1, PStr v1), (PStr k2, PStr v2), (PStr k3, PStr v3),
      (PStr k4, PStr v4), (PStr k5, PStr v5), (PStr k6, PStr v6)] @ others)) = Inr tx"
  shows "\<exists>rest. tx = ''{'' @ join '','' [json_field k1 v1, json_field k2 v2, json_field k3 v3,
      json_field k4 v4, json_field k5 v5] @ rest"
proof -
  obtain ys where "tx = json_list ''{'' ''}'' ([json_field k1 v1, json_field k2 v2, json_field k3 v3,
      json_field k4 v4, json_field k5 v5, json_field k6 v6] @ ys)"
    using assms by (auto simp: result_simps json_field_def)
  then show ?thesis by (cases ys) (simp_all add: json_list_def)
qed

lemma audit_record_text:
  assumes "wire_args args"
  obtains rest where "\<And>s. audit_record now who verb d args ver outcome s =
      (Inr (), emit (outcome_level d outcome)
        (record_start now who verb (d_target d) (outcome_of d outcome) @ rest) s)"
proof -
  obtain event where event: "audit_event now who verb d args ver outcome = Inr event"
    and "textual (PDict event)"
    using audit_event_textual [OF assms] by blast
  then obtain tx where tx: "json_dumps (PDict event) = Inr tx"
    using textual_dumps by (fastforce simp: dumps_line_def split: sum.splits)
  obtain others where others: "event =
    [(PStr ''timestamp'', PStr now), (PStr ''principal'', PStr who), (PStr ''method'', PStr verb),
     (PStr ''target'', PStr (d_target d)), (PStr ''outcome'', PStr (outcome_of d outcome)),
     (PStr ''reason'', PStr (d_reason d))] @ others"
    by (rule audit_event_dict [OF event])
  obtain rest where "tx = record_start now who verb (d_target d) (outcome_of d outcome) @ rest"
    using dumps_five [OF tx [unfolded others]] by (auto simp: record_start_def)
  with event tx that show ?thesis by (simp add: audit_record_def outcome_level_def)
qed

text \<open>C34: denials survive a log level raised to WARNING and nothing else does. A denial is a record
  made with the outcome \<open>deny\<close>, or without an outcome (or with an empty one) for a decision that
  does not allow: at that level the log then grows by one WARNING record on the stream, whose
  text starts with the time, the principal, the method, the target and the outcome \<open>deny\<close>.
  Everything else, allows and pending approvals, leaves the logger unchanged.\<close>

theorem denials_survive_warning:
  assumes "wire_args args" and "sk_level s = WARNING" and "sk_handlers s = [stream]"
  shows "if outcome = Some ''deny'' \<or> (outcome = None \<or> outcome = Some []) \<and> \<not> d_allowed d
    then \<exists>rest. sk_lines (snd (audit_record now who verb d args ver outcome s)) =
      sk_lines s @ [(stream, \<lparr>l_level = WARNING,
        l_text = record_start now who verb (d_target d) ''deny'' @ rest\<rparr>)]
    else snd (audit_record now who verb d args ver outcome s) = s"
proof -
  have denial: "outcome_of d outcome = ''deny'' \<longleftrightarrow>
      outcome = Some ''deny'' \<or> (outcome = None \<or> outcome = Some []) \<and> \<not> d_allowed d"
    by (auto simp: outcome_of_def split: option.splits list.splits)
  obtain rest where "\<And>s. audit_record now who verb d args ver outcome s =
      (Inr (), emit (outcome_level d outcome)
        (record_start now who verb (d_target d) (outcome_of d outcome) @ rest) s)"
    by (rule audit_record_text [OF assms(1), of now who verb d ver outcome]) blast
  with assms(2,3) show ?thesis
    unfolding denial [symmetric]
    by (auto simp: emit_def outcome_level_def less_eq_level_def)
qed

theorem denials_survive_warning_witness:
  "let s = example_sink\<lparr>sk_level := WARNING\<rparr>;
       denied = default_deny ''x'' ''t'' []; allowed = denied\<lparr>d_allowed := True\<rparr>;
       entry = (\<lambda>d outcome. snd (audit_record ''now'' ''u'' ''tools/call'' d None None outcome s))
   in (\<exists>rest. sk_lines (entry denied None) =
         [(''stdout'', \<lparr>l_level = WARNING,
            l_text = record_start ''now'' ''u'' ''tools/call'' ''t'' ''deny'' @ rest\<rparr>)]) \<and>
      entry allowed None = s \<and> entry denied (Some ''pending'') = s"
proof -
  have s: "wire_args None" "sk_level (example_sink\<lparr>sk_level := WARNING\<rparr>) = WARNING"
    "sk_handlers (example_sink\<lparr>sk_level := WARNING\<rparr>) = [''stdout'']"
    by (simp_all add: wire_args_def example_sink_def configure_def)
  note log = denials_survive_warning [OF s, where now = "''now''" and who = "''u''"
      and verb = "''tools/call''" and ver = None]
  show ?thesis
    using log [of None "default_deny ''x'' ''t'' []"]
      log [of None "(default_deny ''x'' ''t'' [])\<lparr>d_allowed := True\<rparr>"]
      log [of "Some ''pending''" "default_deny ''x'' ''t'' []"]
    by (simp add: Let_def default_deny_def example_sink_def configure_def)
qed

end
