(* ===== verification/Approval.thy ===== *)
theory Approval
  imports PyValue
begin

text \<open>
  \<open>governance/approval.py\<close>: the plaintext state of a pending approval, and the check that a
  returned state is one of this layer's and the human's answer a yes. The nonce of
  \<open>secrets.token_urlsafe\<close> is a parameter. Failures are \<open>ApprovalError\<close>s.
\<close>

definition APPROVAL_KEY :: string where
  "APPROVAL_KEY = ''approval''"

definition pending_prefix :: string where
  "pending_prefix = ''awaiting-approval:''"

definition new_pending_state :: "string \<Rightarrow> string \<Rightarrow> string" where
  "new_pending_state nonce tool = pending_prefix @ tool @ '':'' @ nonce"

text \<open>\<open>_field\<close>: an item of a mapping, or an attribute of anything else.\<close>

definition get_field :: "pyval \<Rightarrow> string \<Rightarrow> pyval" where
  "get_field v name =
     (case as_mapping v of Some d \<Rightarrow> dict_get d name | None \<Rightarrow> getattr_or v name PNone)"

definition is_affirmative :: "pyval \<Rightarrow> bool" where
  "is_affirmative answer =
     (let action = get_field answer ''action''
      in if action \<noteq> PStr ''accept'' then False
         else (case as_mapping (py_or (get_field answer ''content'') (PDict [])) of
                 None \<Rightarrow> False
               | Some content \<Rightarrow> dict_get content ''approve'' = PBool True))"

definition check :: "pyval \<Rightarrow> pyval \<Rightarrow> exn + unit" where
  "check state answers =
     (if \<not> (case state of PStr s \<Rightarrow> startswith s pending_prefix | _ \<Rightarrow> False)
      then Inl (ApprovalError ''no approval was requested for this call'')
      else (case as_mapping answers of
              None \<Rightarrow> Inl (ApprovalError ''the approval question was not answered'')
            | Some d \<Rightarrow>
                (case map_of d (PStr APPROVAL_KEY) of
                   None \<Rightarrow> Inl (ApprovalError ''the approval question was not answered'')
                 | Some answer \<Rightarrow>
                     if \<not> is_affirmative answer
                     then Inl (ApprovalError ''a human declined the action'')
                     else Inr ())))"

section \<open>What counts as a yes\<close>

text \<open>
  The answer, read as a wire mapping or as a model with attributes, has the action
  \<open>accept\<close> and a content mapping whose \<open>approve\<close> is the boolean \<open>True\<close> itself.
\<close>

definition says_yes :: "pyval \<Rightarrow> bool" where
  "says_yes answer \<longleftrightarrow>
     get_field answer ''action'' = PStr ''accept'' \<and>
     (\<exists>content. get_field answer ''content'' = PDict content \<and>
        map_of content (PStr ''approve'') = Some (PBool True))"

lemma is_affirmative_says_yes: "is_affirmative answer \<longleftrightarrow> says_yes answer"
  unfolding is_affirmative_def says_yes_def Let_def
  by (cases "get_field answer ''content''")
    (auto simp: py_or_def dict_get_def dict_get_or_def split: option.splits)

lemma check_ok:
  "check state answers = Inr () \<longleftrightarrow>
     (\<exists>s d answer. state = PStr s \<and> prefix pending_prefix s \<and> answers = PDict d \<and>
        map_of d (PStr ''approval'') = Some answer \<and> says_yes answer)"
  by (cases answers; cases state)
    (auto simp: check_def startswith_def APPROVAL_KEY_def is_affirmative_says_yes
      split: option.splits if_splits)

lemma check_error: "check state answers = Inl e \<Longrightarrow> \<exists>m. e = ApprovalError m"
  by (auto simp: check_def split: if_splits option.splits pyval.splits)

lemma check_cases: "check state answers = Inr () \<or> (\<exists>m. check state answers = Inl (ApprovalError m))"
  using check_error by (cases "check state answers") auto

lemma new_pending_state_prefix: "prefix pending_prefix (new_pending_state nonce tool)"
  by (simp add: new_pending_state_def)

section \<open>Properties\<close>

text \<open>C24: an approval is accepted exactly when the state is a pending state of this layer, the
  approval question has an answer, and that answer accepts with the boolean \<open>True\<close> under
  \<open>approve\<close>; declines, cancellations, malformed answers and truthy look-alikes (1, "true")
  are all refused.\<close>

theorem approval_accepted_iff:
  "check state answers = Inr () \<longleftrightarrow>
     (\<exists>s d answer. state = PStr s \<and> prefix ''awaiting-approval:'' s \<and> answers = PDict d \<and>
        map_of d (PStr ''approval'') = Some answer \<and>
        get_field answer ''action'' = PStr ''accept'' \<and>
        (\<exists>content. get_field answer ''content'' = PDict content \<and>
           map_of content (PStr ''approve'') = Some (PBool True)))"
  unfolding check_ok says_yes_def pending_prefix_def ..

end
