(* ===== verification/RequestState.thy ===== *)
theory RequestState
  imports PyValue "HOL-Library.Word"
begin

text \<open>
  \<open>governance/request_state.py\<close>: the key ring of \<open>MCP_REQUEST_STATE_KEYS\<close>. Base64 is the
  standard library's: the encoder, and the decoder with \<open>validate=True\<close> as the loop of
  CPython's \<open>binascii.a2b_base64\<close> in strict mode (3.11 and later). The random bytes, the
  environment and the SDK's \<open>RequestStateSecurity\<close> are parameters or plain data.
\<close>

type_synonym byte = "8 word"

section \<open>Base64\<close>

definition b64_char :: "nat \<Rightarrow> char" where
  "b64_char n =
     (if n < 26 then char_of (65 + n)
      else if n < 52 then char_of (71 + n)
      else if n < 62 then char_of (n - 4)
      else if n = 62 then CHR 0x2B else CHR 0x2F)"

definition b64_val :: "char \<Rightarrow> nat option" where
  "b64_val c =
     (let n = (of_char c :: nat)
      in if 65 \<le> n \<and> n \<le> 90 then Some (n - 65)
         else if 97 \<le> n \<and> n \<le> 122 then Some (n - 71)
         else if 48 \<le> n \<and> n \<le> 57 then Some (n + 4)
         else if n = 43 then Some 62
         else if n = 47 then Some 63
         else None)"

definition byte_of :: "nat \<Rightarrow> byte" where
  "byte_of n = word_of_nat n"

fun b64encode :: "byte list \<Rightarrow> string" where
  "b64encode [] = []"
| "b64encode [a] =
     [b64_char (unat a div 4), b64_char (unat a mod 4 * 16), CHR 0x3D, CHR 0x3D]"
| "b64encode [a, b] =
     [b64_char (unat a div 4), b64_char (unat a mod 4 * 16 + unat b div 16),
      b64_char (unat b mod 16 * 4), CHR 0x3D]"
| "b64encode (a # b # c # bs) =
     [b64_char (unat a div 4), b64_char (unat a mod 4 * 16 + unat b div 16),
      b64_char (unat b mod 16 * 4 + unat c div 64), b64_char (unat c mod 64)] @ b64encode bs"

text \<open>
  One character per step: \<open>q\<close> is the position in the quad, \<open>left\<close> the bits carried over,
  \<open>pads\<close> the padding seen in this quad, \<open>started\<close> whether any padding was seen. Padding
  that completes a quad ends the data, and anything after it is an error.
\<close>

fun a2b_loop :: "nat \<Rightarrow> nat \<Rightarrow> nat \<Rightarrow> bool \<Rightarrow> string \<Rightarrow> byte list option" where
  "a2b_loop q left pads started [] = (if q = 0 then Some [] else None)"
| "a2b_loop q left pads started (c # cs) =
     (if c = CHR 0x3D then
        (if 2 \<le> q \<and> 4 \<le> q + Suc pads then (if cs = [] then Some [] else None)
         else a2b_loop q left (if 2 \<le> q then Suc pads else pads) True cs)
      else (case b64_val c of
          None \<Rightarrow> None
        | Some v \<Rightarrow>
            if started then None
            else if q = 0 then a2b_loop 1 v 0 started cs
            else if q = 1 then
              map_option ((#) (byte_of (left * 4 + v div 16))) (a2b_loop 2 (v mod 16) 0 started cs)
            else if q = 2 then
              map_option ((#) (byte_of (left * 16 + v div 4))) (a2b_loop 3 (v mod 4) 0 started cs)
            else
              map_option ((#) (byte_of (left * 64 + v))) (a2b_loop 0 0 0 started cs)))"

definition b64decode :: "string \<Rightarrow> byte list option" where
  "b64decode s =
     (case s of
        c # _ \<Rightarrow> if c = CHR 0x3D then None else a2b_loop 0 0 0 False s
      | [] \<Rightarrow> a2b_loop 0 0 0 False s)"

lemma b64_val_char: "n < 64 \<Longrightarrow> b64_val (b64_char n) = Some n"
  by (auto simp: b64_val_def b64_char_def Let_def)

lemma b64_val_None: "b64_val (CHR 0x3D) = None" "b64_val (CHR '','') = None"
  by (simp_all add: b64_val_def)

lemma b64_val_space: "py_isspace c \<Longrightarrow> b64_val c = None"
  by (auto simp: b64_val_def py_isspace_def Let_def)

lemma b64_char_not_pad: "n < 64 \<Longrightarrow> b64_char n \<noteq> CHR 0x3D"
  using b64_val_char [of n] b64_val_None by auto

lemma b64_char_plain: "n < 64 \<Longrightarrow> b64_char n \<noteq> CHR '','' \<and> \<not> py_isspace (b64_char n)"
  using b64_val_char [of n] b64_val_None b64_val_space by auto

lemma byte_bound: "unat (a :: byte) < 256"
  using unsigned_less [of a] by simp

lemma byte_of_unat: "n = unat a \<Longrightarrow> byte_of n = a"
  by (simp add: byte_of_def)

text \<open>The six-bit values of a group of bytes are in range and give the bytes back.\<close>

lemma bits_bound:
  fixes a :: byte
  shows "unat a div 4 < 64" "unat a div 16 < 16" "unat a div 64 < 4"
  using byte_bound [of a] by (simp_all add: less_mult_imp_div_less)

lemma mod_bounds: "(n::nat) mod 4 < 4" "n mod 16 < 16" "n mod 64 < 64"
  by simp_all

lemma sextets:
  fixes a b c :: byte
  shows "unat a mod 4 * 16 + unat b div 16 < 64"
    "unat b mod 16 * 4 + unat c div 64 < 64" "unat c mod 64 < 64"
    "unat a mod 4 * 16 < 64" "unat b mod 16 * 4 < 64"
  using bits_bound [of a] bits_bound [of b] bits_bound [of c]
    mod_bounds [of "unat a"] mod_bounds [of "unat b"] mod_bounds [of "unat c"] by linarith+

lemma split_sextet:
  fixes x y :: nat
  shows "y < 16 \<Longrightarrow> (x * 16 + y) div 16 = x" "y < 16 \<Longrightarrow> (x * 16 + y) mod 16 = y"
    "y < 4 \<Longrightarrow> (x * 4 + y) div 4 = x" "y < 4 \<Longrightarrow> (x * 4 + y) mod 4 = y"
  by simp_all

lemma regroup:
  fixes a b c :: byte
  shows "byte_of (unat a div 4 * 4 + (unat a mod 4 * 16 + unat b div 16) div 16) = a"
    "byte_of ((unat a mod 4 * 16 + unat b div 16) mod 16 * 16 +
       (unat b mod 16 * 4 + unat c div 64) div 4) = b"
    "byte_of ((unat b mod 16 * 4 + unat c div 64) mod 4 * 64 + unat c mod 64) = c"
    "byte_of (unat a div 4 * 4 + unat a mod 4 * 16 div 16) = a"
    "byte_of ((unat a mod 4 * 16 + unat b div 16) mod 16 * 16 + unat b mod 16 * 4 div 4) = b"
  by (rule byte_of_unat, simp only: split_sextet bits_bound nonzero_mult_div_cancel_right
      zero_neq_numeral not_False_eq_True div_mult_mod_eq)+

lemmas b64_group = b64_val_char b64_char_not_pad bits_bound sextets regroup byte_of_unat

lemma a2b_loop_encode: "a2b_loop 0 0 0 False (b64encode bs) = Some bs"
  by (induction bs rule: b64encode.induct) (simp_all add: b64_group)

lemma b64decode_encode: "b64decode (b64encode bs) = Some bs"
proof (cases bs rule: b64encode.cases)
  case 1
  then show ?thesis by (simp add: b64decode_def)
qed (use a2b_loop_encode [of bs] in \<open>simp_all add: b64decode_def b64_group\<close>)


section \<open>The key ring\<close>

definition ENV_KEYS :: string where
  "ENV_KEYS = ''MCP_REQUEST_STATE_KEYS''"

definition MINIMUM_KEY_BYTES :: nat where
  "MINIMUM_KEY_BYTES = 32"

definition generate_key :: "(nat \<Rightarrow> byte list) \<Rightarrow> string" where
  "generate_key urandom = b64encode (urandom MINIMUM_KEY_BYTES)"

fun load_loop :: "nat \<Rightarrow> string list \<Rightarrow> byte list list \<Rightarrow> exn + byte list list" where
  "load_loop index [] keys = Inr keys"
| "load_loop index (chunk # chunks) keys =
     (let c = strip chunk
      in if c = [] then load_loop (Suc index) chunks keys
         else (case b64decode c of
             None \<Rightarrow> Inl (RequestStateKeyError (ENV_KEYS @ '' entry '' @ nat_str index
               @ '' is not valid base64. Generate one with `python server.py --print-state-key`.''))
           | Some key \<Rightarrow>
               if length key < MINIMUM_KEY_BYTES
               then Inl (RequestStateKeyError (ENV_KEYS @ '' entry '' @ nat_str index @ '' is ''
                 @ nat_str (length key) @ '' bytes; at least '' @ nat_str MINIMUM_KEY_BYTES
                 @ '' are required.''))
               else load_loop (Suc index) chunks (keys @ [key])))"

text \<open>\<open>environ\<close> is the value of the variable, if set; \<open>raw\<close> the argument, if given.\<close>

definition load_keys :: "string option \<Rightarrow> string option \<Rightarrow> exn + byte list list" where
  "load_keys environ raw =
     (let text = (case raw of Some r \<Rightarrow> r
                  | None \<Rightarrow> (case environ of Some e \<Rightarrow> e | None \<Rightarrow> []))
      in if strip text = [] then Inr []
         else bindE (load_loop 0 (split_on (CHR '','') text) []) (\<lambda>keys.
           if keys = [] then Inr [] else Inr keys))"

text \<open>
  \<open>build\<close>: which of the SDK's constructors is called with what, and the log line. The
  ring is \<open>KeyRing\<close>; \<open>Ephemeral\<close> is the process-local fallback.
\<close>

datatype security =
    Ephemeral rat "string option"
  | KeyRing "byte list list" rat "string option"

datatype boot_log = BootWarning string | BootInfo string

definition build :: "string option \<Rightarrow> string option \<Rightarrow> rat \<Rightarrow> exn + (security \<times> boot_log)" where
  "build environ audience ttl =
     bindE (load_keys environ None) (\<lambda>keys.
       if keys = []
       then Inr (Ephemeral ttl audience, BootWarning (ENV_KEYS
         @ '' is not set: sealing request state with a process-local key. ''
         @ ''Approvals will not survive a restart and will fail across replicas. ''
         @ ''Single-process use only.''))
       else Inr (KeyRing keys ttl audience, BootInfo
         (''request state sealed with a shared key ring ('' @ nat_str (length keys) @ '' key(s))'')))"

section \<open>What the ring holds\<close>

definition entries :: "string \<Rightarrow> string list" where
  "entries text = filter (\<lambda>c. c \<noteq> []) (map strip (split_on (CHR '','') text))"

definition good_entry :: "string \<Rightarrow> bool" where
  "good_entry c \<longleftrightarrow>
     (case b64decode c of None \<Rightarrow> False | Some key \<Rightarrow> MINIMUM_KEY_BYTES \<le> length key)"

lemma load_loop_Inr:
  "load_loop i chunks keys = Inr ks \<longleftrightarrow>
     list_all good_entry (filter (\<lambda>c. c \<noteq> []) (map strip chunks)) \<and>
     ks = keys @ map (\<lambda>c. the (b64decode c)) (filter (\<lambda>c. c \<noteq> []) (map strip chunks))"
proof (induction chunks arbitrary: i keys)
  case Nil
  then show ?case by auto
next
  case (Cons chunk chunks)
  show ?case
  proof (cases "strip chunk = []")
    case True
    with Cons.IH show ?thesis by simp
  next
    case False
    with Cons.IH show ?thesis
      by (cases "b64decode (strip chunk)") (auto simp: good_entry_def)
  qed
qed

lemma load_loop_error: "load_loop i chunks keys = Inl e \<Longrightarrow> \<exists>m. e = RequestStateKeyError m"
  by (induction chunks arbitrary: i keys)
    (auto simp: Let_def split: if_splits option.splits)

lemma strip_Nil_iff: "strip s = [] \<longleftrightarrow> (\<forall>c\<in>set s. py_isspace c)"
proof
  assume "strip s = []"
  then have all: "\<forall>c\<in>set (dropWhile py_isspace s). py_isspace c" by (simp add: strip_def)
  show "\<forall>c\<in>set s. py_isspace c"
  proof (rule ccontr)
    assume "\<not> (\<forall>c\<in>set s. py_isspace c)"
    then have ne: "dropWhile py_isspace s \<noteq> []" by simp
    with all hd_in_set [OF ne] hd_dropWhile [OF ne] show False by blast
  qed
qed (auto simp: strip_def dest: set_dropWhileD)

lemma strip_Nil_entries: "strip text = [] \<Longrightarrow> entries text = []"
proof -
  assume "strip text = []"
  then have all: "\<forall>c\<in>set text. py_isspace c" by (simp add: strip_Nil_iff)
  then have "CHR '','' \<notin> set text" by (auto simp: py_isspace_def)
  then show "entries text = []"
    using all by (simp add: entries_def split_on_no_sep strip_Nil_iff)
qed

lemma load_keys_Inr:
  "load_keys environ (Some text) = Inr ks \<longleftrightarrow>
     list_all good_entry (entries text) \<and> ks = map (\<lambda>c. the (b64decode c)) (entries text)"
proof (cases "strip text = []")
  case True
  with strip_Nil_entries [OF True] show ?thesis by (auto simp: load_keys_def)
next
  case False
  then have "load_keys environ (Some text) = load_loop 0 (split_on (CHR '','') text) []"
    by (auto simp: load_keys_def bindE_eq_Inr split: sum.splits)
      (cases "load_loop 0 (split_on (CHR '','') text) []"; simp)
  then show ?thesis by (simp add: load_loop_Inr entries_def)
qed

lemma load_keys_environ: "load_keys (Some text) None = load_keys None (Some text)"
  by (simp add: load_keys_def)

lemma load_keys_error: "load_keys environ raw = Inl e \<Longrightarrow> \<exists>m. e = RequestStateKeyError m"
  by (auto simp: load_keys_def Let_def bindE_eq_Inl dest: load_loop_error split: if_splits)

text \<open>The text of a ring: encoded keys joined by commas.\<close>

definition ring_text :: "byte list list \<Rightarrow> string" where
  "ring_text keys = join '','' (map b64encode keys)"

lemma pad_plain: "\<not> py_isspace (CHR 0x3D)"
  by (simp add: py_isspace_def)

lemma b64encode_plain: "c \<in> set (b64encode bs) \<Longrightarrow> c \<noteq> CHR '','' \<and> \<not> py_isspace c"
proof (induction bs rule: b64encode.induct)
  case 1
  then show ?case by simp
qed (auto simp: b64_char_plain bits_bound sextets pad_plain)

lemma b64encode_Nil: "b64encode bs = [] \<longleftrightarrow> bs = []"
  by (cases bs rule: b64encode.cases) auto

lemma entries_ring_text:
  assumes "list_all (\<lambda>k. k \<noteq> []) keys"
  shows "entries (ring_text keys) = map b64encode keys"
proof (cases "keys = []")
  case True
  then show ?thesis by (simp add: entries_def ring_text_def strip_def)
next
  case False
  have "split_on (CHR '','') (ring_text keys) = map b64encode keys"
    unfolding ring_text_def
    by (rule split_on_join) (use False b64encode_plain in auto)
  moreover have "map strip (map b64encode keys) = map b64encode keys"
    using b64encode_plain by (auto intro!: strip_no_space)
  ultimately show ?thesis
    using assms by (auto simp: entries_def list_all_iff b64encode_Nil)
qed

lemma load_ring_text:
  assumes "list_all (\<lambda>k. MINIMUM_KEY_BYTES \<le> length k) keys"
  shows "load_keys environ (Some (ring_text keys)) = Inr keys"
proof -
  have "list_all (\<lambda>k. k \<noteq> []) keys"
    using assms by (auto simp: list_all_iff MINIMUM_KEY_BYTES_def)
  then have "entries (ring_text keys) = map b64encode keys" by (rule entries_ring_text)
  moreover have "list_all good_entry (map b64encode keys)"
    using assms by (auto simp: list_all_iff good_entry_def b64decode_encode)
  ultimately show ?thesis
    by (simp add: load_keys_Inr b64decode_encode o_def)
qed


lemma build_cases:
  "build environ audience ttl =
     (case load_keys environ None of
        Inl e \<Rightarrow> Inl e
      | Inr keys \<Rightarrow> Inr
          (if keys = [] then Ephemeral ttl audience else KeyRing keys ttl audience,
           if keys = []
           then BootWarning (ENV_KEYS
             @ '' is not set: sealing request state with a process-local key. ''
             @ ''Approvals will not survive a restart and will fail across replicas. ''
             @ ''Single-process use only.'')
           else BootInfo (''request state sealed with a shared key ring (''
             @ nat_str (length keys) @ '' key(s))'')))"
  by (simp add: build_def split: sum.splits)

section \<open>Properties\<close>

text \<open>C40: the ring survives the environment variable: keys of at least 32 bytes, base64-encoded
  and joined by commas, are read back as the same keys in the same order, so the key that
  seals is the first one written.\<close>

theorem key_ring_roundtrip:
  assumes "list_all (\<lambda>k. 32 \<le> length k) keys"
  shows "load_keys (Some (join '','' (map b64encode keys))) None = Inr keys"
  using load_ring_text [of keys] assms by (simp add: load_keys_environ ring_text_def MINIMUM_KEY_BYTES_def)

theorem key_ring_roundtrip_witness:
  "load_keys (Some (join '','' [b64encode (replicate 32 1), b64encode (replicate 33 2)])) None =
    Inr [replicate 32 1, replicate 33 2]"
  using key_ring_roundtrip [of "[replicate 32 1, replicate 33 2]"] by simp

text \<open>C25: the server never runs on a weak or unreadable key, whatever the variable holds: with no
  entry in it the server runs on the process-local fallback, with a warning; with entries that
  are all base64 of at least 32 bytes it runs on exactly those keys in their order, with an
  info line; with any other entry it raises \<open>RequestStateKeyError\<close>. The time to live and the
  audience are those given.\<close>

theorem build_never_weak:
  "let ring = (case environ of Some e \<Rightarrow> e | None \<Rightarrow> []);
       usable = list_all (\<lambda>c. case b64decode c of None \<Rightarrow> False | Some key \<Rightarrow> 32 \<le> length key) (entries ring)
   in case build environ audience ttl of
     Inl e \<Rightarrow> \<not> usable \<and> (\<exists>m. e = RequestStateKeyError m)
   | Inr (Ephemeral t a, line) \<Rightarrow> entries ring = [] \<and> t = ttl \<and> a = audience \<and> (\<exists>m. line = BootWarning m)
   | Inr (KeyRing keys t a, line) \<Rightarrow> usable \<and> keys \<noteq> [] \<and> map Some keys = map b64decode (entries ring) \<and>
       list_all (\<lambda>k. 32 \<le> length k) keys \<and> t = ttl \<and> a = audience \<and> (\<exists>m. line = BootInfo m)"
proof -
  let ?ring = "case environ of Some e \<Rightarrow> e | None \<Rightarrow> []"
  have usable: "list_all (\<lambda>c. case b64decode c of None \<Rightarrow> False | Some key \<Rightarrow> 32 \<le> length key) (entries ?ring)
      \<longleftrightarrow> list_all good_entry (entries ?ring)"
    unfolding good_entry_def MINIMUM_KEY_BYTES_def by simp
  have ld: "load_keys environ None = load_keys None (Some ?ring)"
    by (cases environ) (simp_all add: load_keys_def)
  show ?thesis
  proof (cases "load_keys environ None")
    case (Inl e)
    then have "\<not> list_all good_entry (entries ?ring)"
      using load_keys_Inr [of None ?ring] ld by (metis sum.distinct(1))
    with Inl load_keys_error [OF Inl] show ?thesis
      unfolding Let_def usable by (simp add: build_cases)
  next
    case (Inr ks)
    then have ks: "list_all good_entry (entries ?ring)" "ks = map (\<lambda>c. the (b64decode c)) (entries ?ring)"
      by (simp_all add: ld load_keys_Inr)
    have "list_all (\<lambda>k. 32 \<le> length k) ks"
      using ks by (auto simp: list_all_iff good_entry_def MINIMUM_KEY_BYTES_def split: option.splits)
    moreover have "map Some ks = map b64decode (entries ?ring)"
      using ks by (auto simp: list_all_iff good_entry_def split: option.splits)
    moreover have "ks = [] \<longleftrightarrow> entries ?ring = []" by (simp add: ks(2))
    ultimately show ?thesis
      using Inr ks(1) unfolding Let_def usable by (simp add: build_cases)
  qed
qed

text \<open>A generated key is usable: given 32 random bytes from the operating system, the text
  printed for the operator loads as a ring of exactly those bytes.\<close>

lemma generated_key_loads:
  assumes "\<And>n. length (urandom n) = n"
  shows "load_keys environ (Some (generate_key urandom)) = Inr [urandom 32]"
  using load_ring_text [of "[urandom 32]" environ] assms
  by (simp add: ring_text_def generate_key_def MINIMUM_KEY_BYTES_def)

end
