(* ===== verification/Verifier.thy ===== *)
theory Verifier
  imports PyValue
begin

text \<open>
  \<open>governance/verifier.py\<close>: key sources, the token verifier and the projection of claims
  onto the access token the server reasons about. PyJWT is code outside the repository: the
  unverified header, \<open>PyJWK\<close>, \<open>PyJWKClient\<close> and \<open>jwt.decode\<close> are parameters, and tokens and
  keys are type variables. \<open>decode\<close> gets exactly what the source passes it, the required claims
  and the verification options that are on included. The SDK's \<open>AccessToken\<close> is a validated
  model with \<open>scopes: list[str]\<close>; its construction raises for any other scope, and the
  record is what it holds when it does not.
\<close>

section \<open>Constants and data\<close>

definition ALLOWED_ALGORITHMS :: "string list" where
  "ALLOWED_ALGORITHMS = [''RS256'', ''RS384'', ''RS512'', ''ES256'', ''ES384'', ''PS256'']"

record 't access_token =
  at_token :: 't
  at_client_id :: string
  at_scopes :: "pyval list"
  at_expires_at :: "int option"
  at_resource :: string
  at_subject :: "string option"
  at_claims :: pydict

record verifier =
  v_issuer :: string
  v_audience :: string
  v_algorithms :: "string list"
  v_leeway_seconds :: int

text \<open>
  The exceptions of \<open>jwt.decode\<close> the source tells apart; \<open>JwtOther\<close> is anything that is not
  an \<open>InvalidTokenError\<close>.
\<close>

datatype jwt_error = InvalidAudience | ExpiredSignature | InvalidToken string | JwtOther exn

datatype auth_log = AuthWarning string | AuthInfo string

section \<open>Key sources\<close>

text \<open>\<open>StaticJwks.key_for\<close>: the first key when the token names none, else the key of that id.\<close>

fun scan_keys :: "(pydict \<Rightarrow> exn + 'k) \<Rightarrow> pyval \<Rightarrow> pyval list \<Rightarrow> exn + 'k" where
  "scan_keys pyjwk kid [] =
     Inl (Foreign ''PyJWKClientError'' (''no key with kid '' @ py_repr kid @ '' in static JWKS''))"
| "scan_keys pyjwk kid (v # vs) =
     (case as_mapping v of
        None \<Rightarrow> Inl (Foreign ''AttributeError'' ''get'')
      | Some key \<Rightarrow>
          if kid = PNone \<or> dict_get key ''kid'' = kid then pyjwk key
          else scan_keys pyjwk kid vs)"

definition static_key_for ::
  "('t \<Rightarrow> exn + pydict) \<Rightarrow> (pydict \<Rightarrow> exn + 'k) \<Rightarrow> pydict \<Rightarrow> 't \<Rightarrow> (exn + 'k) \<times> pydict"
where
  "static_key_for header pyjwk jwks token =
     (bindE (header token) (\<lambda>h.
        case dict_get_or jwks ''keys'' (PList []) of
          PList vs \<Rightarrow> scan_keys pyjwk (dict_get h ''kid'') vs
        | _ \<Rightarrow> Inl TypeError),
      jwks)"

text \<open>
  \<open>JwksEndpoint.key_for\<close>: the client is made on first use and kept; the lookup may refetch,
  so it returns the client's new state.
\<close>

record 'c jwks_endpoint =
  je_uri :: string
  je_client :: "'c option"

definition endpoint_key_for ::
  "(string \<Rightarrow> 'c) \<Rightarrow> ('c \<Rightarrow> 't \<Rightarrow> (exn + 'k) \<times> 'c) \<Rightarrow> 'c jwks_endpoint \<Rightarrow> 't
    \<Rightarrow> (exn + 'k) \<times> 'c jwks_endpoint"
where
  "endpoint_key_for new_client get_key e token =
     (let client = (case je_client e of None \<Rightarrow> new_client (je_uri e) | Some c \<Rightarrow> c);
          (r, client') = get_key client token
      in (r, e\<lparr>je_client := Some client'\<rparr>))"

section \<open>Claims\<close>

text \<open>\<open>_string_list\<close>.\<close>

definition string_list :: "pyval \<Rightarrow> string list" where
  "string_list v =
     (case v of
        PStr s \<Rightarrow> [s]
      | PList vs \<Rightarrow> map py_str vs
      | PTuple vs \<Rightarrow> map py_str vs
      | _ \<Rightarrow> [])"

text \<open>\<open>int(v)\<close>.\<close>

definition is_digit :: "char \<Rightarrow> bool" where
  "is_digit c \<longleftrightarrow> 48 \<le> (of_char c :: nat) \<and> of_char c \<le> (57 :: nat)"

definition py_int_str :: "string \<Rightarrow> int option" where
  "py_int_str s =
     (let t = strip s;
          neg = (t \<noteq> [] \<and> hd t = CHR 0x2D);
          u = (if t \<noteq> [] \<and> hd t \<in> {CHR 0x2D, CHR 0x2B} then tl t else t);
          parts = split_on (CHR 0x5F) u
      in if list_all (\<lambda>p. p \<noteq> [] \<and> list_all is_digit p) parts
         then Some ((if neg then - 1 else 1) * int (nat_of_digits (concat parts)))
         else None)"

definition py_int :: "pyval \<Rightarrow> exn + int" where
  "py_int v =
     (case v of
        PInt i \<Rightarrow> Inr i
      | PBool b \<Rightarrow> Inr (if b then 1 else 0)
      | PFloat q _ \<Rightarrow> Inr (if 0 \<le> q then \<lfloor>q\<rfloor> else - \<lfloor>- q\<rfloor>)
      | PStr s \<Rightarrow> (case py_int_str s of
            None \<Rightarrow> Inl (ValueError (''invalid literal for int() with base 10: '' @ repr_str s))
          | Some i \<Rightarrow> Inr i)
      | _ \<Rightarrow> Inl TypeError)"

section \<open>The verifier\<close>

definition init_verifier :: "string \<Rightarrow> string \<Rightarrow> string list \<Rightarrow> int \<Rightarrow> exn + verifier" where
  "init_verifier issuer audience algorithms leeway =
     (let bad = filter (\<lambda>a. a \<notin> set ALLOWED_ALGORITHMS) algorithms
      in if bad \<noteq> []
         then Inl (ValueError (''refusing to accept non-asymmetric or unknown algorithm(s): ''
           @ join '', '' (sorted_set bad)))
         else Inr \<lparr>v_issuer = issuer, v_audience = audience, v_algorithms = algorithms,
                v_leeway_seconds = leeway\<rparr>)"

text \<open>
  The validation of \<open>AccessToken(...)\<close>. Every other field is of its type by construction: the
  client id and the subject come from \<open>str()\<close>, the expiry from \<open>int()\<close>.
\<close>

definition is_text :: "pyval \<Rightarrow> bool" where
  "is_text v \<longleftrightarrow> (case v of PStr _ \<Rightarrow> True | _ \<Rightarrow> False)"

definition new_access_token :: "'t access_token \<Rightarrow> exn + 't access_token" where
  "new_access_token t =
     (if list_all is_text (at_scopes t) then Inr t
      else Inl (Foreign ''ValidationError'' ''scopes: Input should be a valid string''))"

definition to_access_token :: "verifier \<Rightarrow> 't \<Rightarrow> pydict \<Rightarrow> exn + 't access_token" where
  "to_access_token v token claims =
     (let scp = dict_get claims ''scp'';
          roles = string_list (dict_get claims ''roles'');
          sub = dict_get claims ''sub''
      in bindE (case scp of
                  PStr s \<Rightarrow> Inr (map PStr (split_words s))
                | _ \<Rightarrow> py_list (py_or scp (PList []))) (\<lambda>scp_list.
         let scopes = (if scp_list = [] then map PStr roles else scp_list);
             client_id = py_str (py_or (dict_get claims ''azp'')
               (py_or (dict_get claims ''appid'') (py_or sub (PStr ''unknown''))))
         in bindE (if dict_has claims ''exp''
                   then bindE (py_int (dict_get claims ''exp'')) (\<lambda>i. Inr (Some i))
                   else Inr None) (\<lambda>expires_at.
            new_access_token \<lparr>at_token = token, at_client_id = client_id, at_scopes = scopes,
                 at_expires_at = expires_at, at_resource = v_audience v,
                 at_subject = (if truthy sub then Some (py_str sub) else None),
                 at_claims =
                   [(PStr ''iss'', dict_get claims ''iss''),
                    (PStr ''roles'', PList (map PStr roles)),
                    (PStr ''tid'', dict_get claims ''tid''),
                    (PStr ''oid'', dict_get claims ''oid''),
                    (PStr ''preferred_username'', dict_get claims ''preferred_username'')]\<rparr>)))"

definition required_claims :: "string list" where
  "required_claims = [''exp'', ''iat'', ''iss'', ''aud'', ''sub'']"

definition verify_options :: "string list" where
  "verify_options =
     [''verify_signature'', ''verify_exp'', ''verify_nbf'', ''verify_iat'', ''verify_iss'', ''verify_aud'']"

text \<open>
  \<open>decode token key algorithms issuer audience leeway require on\<close>: \<open>on\<close> are the \<open>verify_\<close>
  options that are \<open>True\<close>. The result pairs the verdict with the log lines and the key source's new state.
\<close>

type_synonym ('t, 'k) decoder =
  "'t \<Rightarrow> 'k \<Rightarrow> string list \<Rightarrow> string \<Rightarrow> string \<Rightarrow> int \<Rightarrow> string list \<Rightarrow> string list \<Rightarrow> jwt_error + pydict"

definition verify_token ::
  "('s \<Rightarrow> 't \<Rightarrow> (exn + 'k) \<times> 's) \<Rightarrow> ('t, 'k) decoder \<Rightarrow> (exn \<Rightarrow> string) \<Rightarrow> verifier \<Rightarrow> 't \<Rightarrow> 's
    \<Rightarrow> (exn + 't access_token option) \<times> auth_log list \<times> 's"
where
  "verify_token key_for decode show_exn v token s =
     (let (r, s') = key_for s token
      in case r of
           Inl e \<Rightarrow> (Inr None,
             [AuthWarning (''token rejected: no usable signing key ('' @ show_exn e @ '')'')], s')
         | Inr key \<Rightarrow>
             (case decode token key (v_algorithms v) (v_issuer v) (v_audience v)
                     (v_leeway_seconds v) required_claims verify_options of
                Inl InvalidAudience \<Rightarrow> (Inr None,
                  [AuthWarning (''token rejected: audience is not '' @ v_audience v)], s')
              | Inl ExpiredSignature \<Rightarrow> (Inr None, [AuthInfo ''token rejected: expired''], s')
              | Inl (InvalidToken m) \<Rightarrow> (Inr None, [AuthWarning (''token rejected: '' @ m)], s')
              | Inl (JwtOther e) \<Rightarrow> (Inl e, [], s')
              | Inr claims \<Rightarrow> (bindE (to_access_token v token claims) (\<lambda>t. Inr (Some t)), [], s')))"

section \<open>What the rest of the server reads\<close>

definition roles_from_token :: "'t access_token option \<Rightarrow> string list" where
  "roles_from_token t =
     (case t of None \<Rightarrow> [] | Some tok \<Rightarrow> string_list (dict_get (at_claims tok) ''roles''))"

definition describe_principal :: "'t access_token option \<Rightarrow> string" where
  "describe_principal t =
     (case t of
        None \<Rightarrow> ''anonymous''
      | Some tok \<Rightarrow>
          py_str (py_or (dict_get (at_claims tok) ''preferred_username'')
            (py_or (case at_subject tok of None \<Rightarrow> PNone | Some s \<Rightarrow> PStr s)
              (PStr (at_client_id tok)))))"

definition entra_issuer :: "string \<Rightarrow> string" where
  "entra_issuer tenant_id = ''https://login.microsoftonline.com/'' @ tenant_id @ ''/v2.0''"

definition entra_jwks_uri :: "string \<Rightarrow> string" where
  "entra_jwks_uri tenant_id =
     ''https://login.microsoftonline.com/'' @ tenant_id @ ''/discovery/v2.0/keys''"

definition load_jwks :: "(string \<Rightarrow> exn + pyval) \<Rightarrow> string \<Rightarrow> exn + pyval" where
  "load_jwks loads raw = loads raw"


lemma verify_token_source:
  "verify_token key_for decode show_exn v token s = (r, lines, s') \<Longrightarrow> \<exists>k. key_for s token = (k, s')"
  by (auto simp: verify_token_def split: sum.splits jwt_error.splits prod.splits)

section \<open>What a verifier relies on\<close>

text \<open>A key source hands out keys of a fixed set, the issuer's, and no other.\<close>

locale key_source =
  fixes key_for :: "'s \<Rightarrow> 't \<Rightarrow> (exn + 'k) \<times> 's"
    and trusted :: "'s \<Rightarrow> 'k set"
  assumes from_trusted: "key_for s t = (Inr k, s') \<Longrightarrow> k \<in> trusted s"
    and trusted_kept: "key_for s t = (r, s') \<Longrightarrow> trusted s' = trusted s"
begin

lemma accepted:
  assumes "verify_token key_for decode show_exn v token s = (Inr (Some tok), lines, s')"
  shows "\<exists>k claims. k \<in> trusted s \<and>
    decode token k (v_algorithms v) (v_issuer v) (v_audience v) (v_leeway_seconds v)
      required_claims verify_options = Inr claims \<and> to_access_token v token claims = Inr tok"
proof -
  obtain r s1 where key: "key_for s token = (r, s1)" by (cases "key_for s token")
  obtain k where r: "r = Inr k"
    using assms key by (cases r) (auto simp: verify_token_def)
  obtain claims where "decode token k (v_algorithms v) (v_issuer v) (v_audience v)
      (v_leeway_seconds v) required_claims verify_options = Inr claims"
    and "to_access_token v token claims = Inr tok"
    using assms key r
    by (auto simp: verify_token_def bindE_eq_Inr split: sum.splits jwt_error.splits)
  with from_trusted key r show ?thesis by blast
qed

lemma trusted_after:
  "verify_token key_for decode show_exn v token s = (r, lines, s') \<Longrightarrow> trusted s' = trusted s"
  using trusted_kept by (auto simp: verify_token_def split: sum.splits jwt_error.splits prod.splits)

end

definition static_trusted :: "(pydict \<Rightarrow> exn + 'k) \<Rightarrow> pydict \<Rightarrow> 'k set" where
  "static_trusted pyjwk jwks =
     {k. \<exists>vs key. dict_get_or jwks ''keys'' (PList []) = PList vs \<and> PDict key \<in> set vs \<and>
        pyjwk key = Inr k}"

lemma scan_keys_mem: "scan_keys pyjwk kid vs = Inr k \<Longrightarrow> \<exists>key. PDict key \<in> set vs \<and> pyjwk key = Inr k"
proof (induction vs)
  case Nil
  then show ?case by simp
next
  case (Cons v vs)
  then show ?case by (cases v) (auto split: if_splits)
qed

lemma static_key_for_mem:
  "static_key_for header pyjwk jwks token = (Inr k, jwks') \<Longrightarrow> k \<in> static_trusted pyjwk jwks"
  by (cases "dict_get_or jwks ''keys'' (PList [])")
    (auto simp: static_key_for_def static_trusted_def bindE_eq_Inr dest: scan_keys_mem)

interpretation static: key_source "static_key_for header pyjwk" "static_trusted pyjwk"
  for header pyjwk
proof unfold_locales
  fix s t k s'
  assume "static_key_for header pyjwk s t = (Inr k, s')"
  then show "k \<in> static_trusted pyjwk s" by (rule static_key_for_mem)
next
  fix s t r s'
  assume "static_key_for header pyjwk s t = (r, s')"
  then show "static_trusted pyjwk s' = static_trusted pyjwk s" by (simp add: static_key_for_def)
qed

text \<open>
  The issuer's endpoint is a key source too, when a JWKS client keeps the URI it was made for
  and hands out keys published there only. The endpoint's keys are those of its own URI, as
  long as the client it keeps was made for that URI.
\<close>

definition own_client :: "('c \<Rightarrow> string) \<Rightarrow> 'c jwks_endpoint \<Rightarrow> bool" where
  "own_client uri_of e \<longleftrightarrow> (case je_client e of None \<Rightarrow> True | Some c \<Rightarrow> uri_of c = je_uri e)"

definition endpoint_trusted :: "('c \<Rightarrow> string) \<Rightarrow> (string \<Rightarrow> 'k set) \<Rightarrow> 'c jwks_endpoint \<Rightarrow> 'k set" where
  "endpoint_trusted uri_of published e =
     published (case je_client e of None \<Rightarrow> je_uri e | Some c \<Rightarrow> uri_of c)"

lemma own_client_trusted: "own_client uri_of e \<Longrightarrow> endpoint_trusted uri_of published e = published (je_uri e)"
  by (auto simp: own_client_def endpoint_trusted_def split: option.splits)

lemma endpoint_key_source:
  assumes "\<And>u. uri_of (new_client u) = u"
    and "\<And>c t r c'. get_key c t = (r, c') \<Longrightarrow> uri_of c' = uri_of c"
    and "\<And>c t k c'. get_key c t = (Inr k, c') \<Longrightarrow> k \<in> published (uri_of c)"
  shows "key_source (endpoint_key_for new_client get_key) (endpoint_trusted uri_of published)"
proof unfold_locales
  fix e t k e'
  assume "endpoint_key_for new_client get_key e t = (Inr k, e')"
  then obtain c' where
    "get_key (case je_client e of None \<Rightarrow> new_client (je_uri e) | Some c \<Rightarrow> c) t = (Inr k, c')"
    by (auto simp: endpoint_key_for_def Let_def split: prod.splits)
  from assms(3) [OF this] show "k \<in> endpoint_trusted uri_of published e"
    by (auto simp: endpoint_trusted_def assms(1) split: option.splits)
next
  fix e t r e'
  assume "endpoint_key_for new_client get_key e t = (r, e')"
  then show "endpoint_trusted uri_of published e' = endpoint_trusted uri_of published e"
    by (auto simp: endpoint_key_for_def endpoint_trusted_def assms(1) dest: assms(2)
        split: prod.splits option.splits)
qed

lemma own_client_kept:
  assumes "\<And>u. uri_of (new_client u) = u"
    and "\<And>c t r c'. get_key c t = (r, c') \<Longrightarrow> uri_of c' = uri_of c"
    and "own_client uri_of e" and "endpoint_key_for new_client get_key e t = (r, e')"
  shows "own_client uri_of e' \<and> je_uri e' = je_uri e"
  using assms(3,4)
  by (auto simp: endpoint_key_for_def own_client_def assms(1) dest: assms(2)
      split: prod.splits option.splits)

lemma endpoint_client_kept:
  assumes "endpoint_key_for new_client get_key e t = (r, e')" and "je_client e = Some c"
  shows "\<exists>c'. e' = e\<lparr>je_client := Some c'\<rparr> \<and> get_key c t = (r, c')"
  using assms by (auto simp: endpoint_key_for_def split: prod.splits)

section \<open>Projection of claims\<close>

lemma init_verifier_Inr:
  "init_verifier issuer audience algorithms leeway = Inr v \<Longrightarrow>
   v_issuer v = issuer \<and> v_audience v = audience \<and> v_algorithms v = algorithms \<and>
   v_leeway_seconds v = leeway \<and> set algorithms \<subseteq> set ALLOWED_ALGORITHMS"
  by (auto simp: init_verifier_def Let_def filter_empty_conv split: if_splits)

lemma string_list_strs [simp]: "string_list (PList (map PStr xs)) = xs"
  by (simp add: string_list_def map_idI)

lemma new_access_token_Inr: "new_access_token t = Inr tok \<longleftrightarrow> list_all is_text (at_scopes t) \<and> tok = t"
  by (auto simp: new_access_token_def)

lemma is_text_strs [simp]: "list_all is_text (map PStr xs)"
  by (simp add: list_all_iff is_text_def)

lemma is_text_iff: "is_text v \<longleftrightarrow> (\<exists>s. v = PStr s)"
  by (cases v) (simp_all add: is_text_def)

lemma to_access_token_fields:
  assumes "to_access_token v token claims = Inr tok"
  shows "roles_from_token (Some tok) = string_list (dict_get claims ''roles'')"
    and "at_resource tok = v_audience v" and "at_token tok = token"
    and "at_subject tok = (if truthy (dict_get claims ''sub'') then Some (py_str (dict_get claims ''sub'')) else None)"
    and "dict_get (at_claims tok) ''preferred_username'' = dict_get claims ''preferred_username''"
  using assms
  by (auto simp: to_access_token_def Let_def bindE_eq_Inr new_access_token_Inr roles_from_token_def
      dict_get_def dict_get_or_def)

text \<open>
  Claims the projection accepts: \<open>scp\<close> is absent, falsy, a string, or a list, tuple or dict
  of strings; \<open>exp\<close> is absent, a number, or a string that spells an integer.
\<close>

definition projectable :: "pydict \<Rightarrow> bool" where
  "projectable claims \<longleftrightarrow>
     (case map_of claims (PStr ''scp'') of
        None \<Rightarrow> True
      | Some v \<Rightarrow> \<not> truthy v \<or>
          (case v of
             PStr _ \<Rightarrow> True
           | PList vs \<Rightarrow> list_all is_text vs
           | PTuple vs \<Rightarrow> list_all is_text vs
           | PDict kvs \<Rightarrow> list_all (\<lambda>(k, _). is_text k) kvs
           | _ \<Rightarrow> False)) \<and>
     (case map_of claims (PStr ''exp'') of
        None \<Rightarrow> True
      | Some v \<Rightarrow>
          (case v of
             PInt _ \<Rightarrow> True
           | PBool _ \<Rightarrow> True
           | PFloat _ _ \<Rightarrow> True
           | PStr s \<Rightarrow> py_int_str s \<noteq> None
           | _ \<Rightarrow> False))"

text \<open>The two fallible steps of the projection, by themselves.\<close>

definition scope_list :: "pyval \<Rightarrow> exn + pyval list" where
  "scope_list scp =
     (case scp of PStr s \<Rightarrow> Inr (map PStr (split_words s)) | _ \<Rightarrow> py_list (py_or scp (PList [])))"

definition expiry :: "pydict \<Rightarrow> exn + int option" where
  "expiry claims =
     (if dict_has claims ''exp''
      then bindE (py_int (dict_get claims ''exp'')) (\<lambda>i. Inr (Some i)) else Inr None)"

lemma scope_list_ok:
  "(\<exists>l. scope_list (dict_get claims ''scp'') = Inr l \<and> list_all is_text l) \<longleftrightarrow>
   (case map_of claims (PStr ''scp'') of
      None \<Rightarrow> True
    | Some v \<Rightarrow> \<not> truthy v \<or>
        (case v of
           PStr _ \<Rightarrow> True
         | PList vs \<Rightarrow> list_all is_text vs
         | PTuple vs \<Rightarrow> list_all is_text vs
         | PDict kvs \<Rightarrow> list_all (\<lambda>(k, _). is_text k) kvs
         | _ \<Rightarrow> False))"
  by (cases "map_of claims (PStr ''scp'')")
    (auto simp: dict_get_def dict_get_or_def scope_list_def py_or_def py_list_def list_all_iff is_text_iff
      split: pyval.splits)

lemma expiry_ok:
  "is_ok (expiry claims) \<longleftrightarrow>
   (case map_of claims (PStr ''exp'') of
      None \<Rightarrow> True
    | Some v \<Rightarrow>
        (case v of
           PInt _ \<Rightarrow> True
         | PBool _ \<Rightarrow> True
         | PFloat _ _ \<Rightarrow> True
         | PStr s \<Rightarrow> py_int_str s \<noteq> None
         | _ \<Rightarrow> False))"
  by (cases "map_of claims (PStr ''exp'')")
    (auto simp: expiry_def dict_has_def dict_get_def dict_get_or_def py_int_def
      split: pyval.splits option.splits)

lemma to_access_token_steps:
  "is_ok (to_access_token v token claims) \<longleftrightarrow>
   (\<exists>l. scope_list (dict_get claims ''scp'') = Inr l \<and> list_all is_text l) \<and> is_ok (expiry claims)"
  unfolding to_access_token_def Let_def scope_list_def [symmetric] expiry_def [symmetric]
  by (cases "scope_list (dict_get claims ''scp'')"; cases "expiry claims")
    (auto simp: new_access_token_def)

lemma to_access_token_ok: "is_ok (to_access_token v token claims) \<longleftrightarrow> projectable claims"
  unfolding to_access_token_steps scope_list_ok expiry_ok projectable_def by (rule refl)

section \<open>Properties\<close>

text \<open>
  A concrete instance for the witnesses: one published key, and a decoder that accepts with
  the claims it is given when the arguments are those of the server.
\<close>

definition example_jwks :: pydict where
  "example_jwks = [(PStr ''keys'', PList [PDict [(PStr ''kid'', PStr ''k1'')]])]"

definition example_header :: "string \<Rightarrow> exn + pydict" where
  "example_header token = Inr [(PStr ''kid'', PStr ''k1'')]"

definition example_pyjwk :: "pydict \<Rightarrow> exn + nat" where
  "example_pyjwk key = Inr 7"

definition example_decode :: "pydict \<Rightarrow> (string, nat) decoder" where
  "example_decode claims token key algorithms issuer audience leeway required on =
     (if key = 7 \<and> audience = ''api'' then Inr claims else Inl InvalidAudience)"

definition example_verifier :: verifier where
  "example_verifier = projr (init_verifier ''iss'' ''api'' ALLOWED_ALGORITHMS 60)"

definition example_claims :: pydict where
  "example_claims =
     [(PStr ''sub'', PStr ''ops@example.com''), (PStr ''exp'', PInt 1785500000),
      (PStr ''scp'', PStr ''mcp.invoke''), (PStr ''roles'', PList [PStr ''tlo.reader''])]"

lemma example_verifier_ok: "init_verifier ''iss'' ''api'' ALLOWED_ALGORITHMS 60 = Inr example_verifier"
proof -
  have "is_ok (init_verifier ''iss'' ''api'' ALLOWED_ALGORITHMS 60)" by code_simp
  then show ?thesis by (auto simp: example_verifier_def is_ok_iff)
qed

text \<open>C20: whatever token a constructed verifier accepts was decoded with a key of the issuer's
  published set, with the caller's algorithm list restricted to the asymmetric allowlist,
  with exactly the configured issuer, audience and leeway, and with the five required
  claims demanded and all six verification options on; the roles the server then reads are those of the decoded claims.\<close>

theorem accepted_token_was_checked:
  assumes "init_verifier issuer audience algorithms leeway = Inr v"
    and "verify_token (static_key_for header pyjwk) decode show_exn v token jwks =
      (Inr (Some tok), lines, jwks')"
  shows "\<exists>k claims. k \<in> static_trusted pyjwk jwks \<and> set algorithms \<subseteq> set ALLOWED_ALGORITHMS \<and>
    decode token k algorithms issuer audience leeway [''exp'', ''iat'', ''iss'', ''aud'', ''sub'']
      [''verify_signature'', ''verify_exp'', ''verify_nbf'', ''verify_iat'', ''verify_iss'', ''verify_aud''] =
      Inr claims \<and>
    roles_from_token (Some tok) = string_list (dict_get claims ''roles'') \<and>
    at_resource tok = audience"
  using static.accepted [OF assms(2)] init_verifier_Inr [OF assms(1)]
  by (auto simp: required_claims_def verify_options_def to_access_token_fields)

theorem accepted_token_was_checked_witness:
  "\<exists>k claims. k \<in> static_trusted example_pyjwk example_jwks \<and>
    example_decode example_claims ''tok'' k ALLOWED_ALGORITHMS ''iss'' ''api'' 60
      [''exp'', ''iat'', ''iss'', ''aud'', ''sub'']
      [''verify_signature'', ''verify_exp'', ''verify_nbf'', ''verify_iat'', ''verify_iss'', ''verify_aud''] = Inr claims"
proof -
  have "is_ok (fst (verify_token (static_key_for example_header example_pyjwk)
      (example_decode example_claims) (\<lambda>_. []) example_verifier ''tok'' example_jwks)) \<and>
    projr (fst (verify_token (static_key_for example_header example_pyjwk)
      (example_decode example_claims) (\<lambda>_. []) example_verifier ''tok'' example_jwks)) \<noteq> None"
    by code_simp
  then obtain tok lines jwks' where
    "verify_token (static_key_for example_header example_pyjwk)
      (example_decode example_claims) (\<lambda>_. []) example_verifier ''tok'' example_jwks =
     (Inr (Some tok), lines, jwks')"
    by (cases "verify_token (static_key_for example_header example_pyjwk)
      (example_decode example_claims) (\<lambda>_. []) example_verifier ''tok'' example_jwks")
      (auto simp: is_ok_iff)
  from accepted_token_was_checked [OF example_verifier_ok this] show ?thesis by blast
qed



text \<open>C22: access tokens are well typed and narrow: whatever the claims, exactly five of them reach
  the token, its roles and its scopes are strings, and \<open>exp\<close>, when present, is the expiry.\<close>

theorem access_token_typed:
  assumes "to_access_token v token claims = Inr tok"
  shows "list_all (\<lambda>x. str_of x \<noteq> None) (at_scopes tok) \<and>
    map fst (at_claims tok) = map PStr [''iss'', ''roles'', ''tid'', ''oid'', ''preferred_username''] \<and>
    map_of (at_claims tok) (PStr ''roles'') = Some (PList (map PStr (roles_from_token (Some tok)))) \<and>
    (at_expires_at tok = None \<longleftrightarrow> \<not> dict_has claims ''exp'')"
proof -
  have "list_all is_text (at_scopes tok)"
    using assms by (auto simp: to_access_token_def Let_def bindE_eq_Inr new_access_token_Inr)
  then have "list_all (\<lambda>x. str_of x \<noteq> None) (at_scopes tok)"
    by (auto simp: list_all_iff is_text_iff)
  moreover have "roles_from_token (Some tok) = string_list (dict_get claims ''roles'')"
    by (rule to_access_token_fields(1) [OF assms])
  ultimately show ?thesis
    using assms by (auto simp: to_access_token_def Let_def bindE_eq_Inr new_access_token_Inr split: if_splits)
qed

theorem access_token_typed_witness:
  "\<exists>tok. to_access_token example_verifier ''tok'' example_claims = Inr tok \<and>
     list_all (\<lambda>x. str_of x \<noteq> None) (at_scopes tok) \<and> length (at_claims tok) = 5"
proof -
  have "is_ok (to_access_token example_verifier ''tok'' example_claims)" by code_simp
  then obtain tok where tok: "to_access_token example_verifier ''tok'' example_claims = Inr tok"
    by (auto simp: is_ok_iff)
  from access_token_typed [OF tok] have strs: "list_all (\<lambda>x. str_of x \<noteq> None) (at_scopes tok)"
    and keys: "map fst (at_claims tok) = map PStr [''iss'', ''roles'', ''tid'', ''oid'', ''preferred_username'']"
    by blast+
  from keys have "length (map fst (at_claims tok)) = 5" by simp
  with tok strs show ?thesis by simp
qed

text \<open>The projection of accepted claims: delegated scopes are the words of \<open>scp\<close>, the roles
  stand in for scopes when \<open>scp\<close> is absent, the subject and the principal come from the
  claims, and the resource is this server's audience.\<close>

lemma access_token_projection:
  assumes "to_access_token v token claims = Inr tok"
  shows "at_scopes tok =
      (case dict_get claims ''scp'' of
         PStr s \<Rightarrow> if split_words s = [] then map PStr (roles_from_token (Some tok))
           else map PStr (split_words s)
       | PNone \<Rightarrow> map PStr (roles_from_token (Some tok))
       | _ \<Rightarrow> at_scopes tok) \<and>
    at_resource tok = v_audience v \<and>
    (truthy (dict_get claims ''preferred_username'') \<longrightarrow>
       describe_principal (Some tok) = py_str (dict_get claims ''preferred_username''))"
proof -
  have "roles_from_token (Some tok) = string_list (dict_get claims ''roles'')"
    by (rule to_access_token_fields(1) [OF assms])
  moreover have "dict_get claims ''scp'' = PStr s \<Longrightarrow> at_scopes tok =
      (if split_words s = [] then map PStr (string_list (dict_get claims ''roles''))
       else map PStr (split_words s))" for s
    using assms by (auto simp: to_access_token_def Let_def bindE_eq_Inr new_access_token_Inr)
  moreover have "dict_get claims ''scp'' = PNone \<Longrightarrow>
      at_scopes tok = map PStr (string_list (dict_get claims ''roles''))"
    using assms by (auto simp: to_access_token_def Let_def bindE_eq_Inr new_access_token_Inr py_or_def py_list_def)
  moreover have "truthy (dict_get claims ''preferred_username'') \<Longrightarrow>
      describe_principal (Some tok) = py_str (dict_get claims ''preferred_username'')"
    using to_access_token_fields(5) [OF assms] by (simp add: describe_principal_def py_or_def)
  ultimately show ?thesis
    using to_access_token_fields(2) [OF assms] by (auto split: pyval.splits)
qed

end
