(* ===== verification/Middleware.thy ===== *)
theory Middleware
  imports Policy AuditLog Approval Verifier
begin

text \<open>
  \<open>governance/middleware.py\<close>: the enforcement layer, one definition per method. The state is
  the audit sink, the reads of the clock and of the nonce source so far, and the world the
  inner handlers act on; \<open>call_next\<close>, the rest of the chain, is a parameter that maps the
  request and the world to a result and a new world. The caller's token, which the SDK keeps
  in a context variable, is an argument.
\<close>

section \<open>Data\<close>

definition AUTHORIZATION_DENIED :: int where
  "AUTHORIZATION_DENIED = - 32003"

record middleware =
  mw_policy :: policy
  mw_enforce :: bool

record ctx =
  c_method :: "string option"
  c_params :: pyval
  c_protocol_version :: "string option"

text \<open>The environment's inputs: the n-th clock reading and the n-th nonce.\<close>

record env_inputs =
  clock :: "nat \<Rightarrow> string"
  nonce :: "nat \<Rightarrow> string"

record 'w mstate =
  ms_sink :: sink
  ms_clock_reads :: nat
  ms_nonce_reads :: nat
  ms_world :: 'w

text \<open>
  A result: what the dispatcher serialized (\<open>Wire\<close>), a \<open>ListToolsResult\<close> model with its
  tools and its other fields, or an \<open>InputRequiredResult\<close> with the one entry of its
  \<open>input_requests\<close>, the key and the message and schema of the elicitation under it, and the
  request state.
\<close>

datatype response =
    Wire pyval
  | ToolsResult "pyval list" pydict
  | InputRequired string string pyval string

type_synonym 'w handler = "ctx \<Rightarrow> 'w \<Rightarrow> (exn + response) \<times> 'w"

definition run_next :: "'w handler \<Rightarrow> ctx \<Rightarrow> 'w mstate \<Rightarrow> (exn + response) \<times> 'w mstate" where
  "run_next call_next ctx st =
     (let (r, w) = call_next ctx (ms_world st) in (r, st\<lparr>ms_world := w\<rparr>))"

section \<open>Helpers\<close>

definition params_of :: "ctx \<Rightarrow> pydict" where
  "params_of ctx = (case as_mapping (c_params ctx) of Some d \<Rightarrow> d | None \<Rightarrow> [])"

definition tool_name :: "pyval \<Rightarrow> string" where
  "tool_name tool =
     (case as_mapping tool of
        Some d \<Rightarrow> py_str (dict_get_or d ''name'' (PStr []))
      | None \<Rightarrow> py_str (getattr_or tool ''name'' (PStr [])))"

definition raise_if_denied :: "middleware \<Rightarrow> decision \<Rightarrow> exn + unit" where
  "raise_if_denied m d =
     (if d_allowed d \<or> \<not> mw_enforce m then Inr ()
      else Inl (MCPError AUTHORIZATION_DENIED
        (''Access denied for '' @ repr_str (d_target d) @ '': '' @ d_reason d @ ''.'')
        (PDict
          [(PStr ''target'', PStr (d_target d)),
           (PStr ''required_roles'', PList (map PStr (d_required_roles d))),
           (PStr ''classification'', opt_str (d_classification d))])))"

definition audit ::
  "env_inputs \<Rightarrow> string \<Rightarrow> string \<Rightarrow> decision \<Rightarrow> pydict option \<Rightarrow> string option \<Rightarrow> string option
    \<Rightarrow> 'w mstate \<Rightarrow> (exn + unit) \<times> 'w mstate"
where
  "audit orc who verb d arguments version outcome st =
     (let (r, s) = audit_record (clock orc (ms_clock_reads st)) who verb d arguments version
                     outcome (ms_sink st)
      in (r, st\<lparr>ms_sink := s, ms_clock_reads := Suc (ms_clock_reads st)\<rparr>))"

section \<open>Approval\<close>

definition approval_decision :: "middleware \<Rightarrow> string \<Rightarrow> string \<Rightarrow> string \<Rightarrow> decision" where
  "approval_decision m tool outcome reason =
     \<lparr>d_allowed = (outcome = ''allow''), d_reason = reason, d_target = tool,
      d_classification = map_option r_classification (map_of (p_tools (mw_policy m)) tool),
      d_required_roles = [], d_granted_roles = [], d_requires_approval = False,
      d_approval_prompt = []\<rparr>"

definition audit_approval ::
  "middleware \<Rightarrow> env_inputs \<Rightarrow> string \<Rightarrow> string \<Rightarrow> string \<Rightarrow> string \<Rightarrow> 'w mstate
    \<Rightarrow> (exn + unit) \<times> 'w mstate"
where
  "audit_approval m orc tool who outcome reason =
     audit orc who ''approval'' (approval_decision m tool outcome reason) None None (Some outcome)"

definition approval_schema :: "string \<Rightarrow> pyval" where
  "approval_schema tool = PDict
     [(PStr ''type'', PStr ''object''),
      (PStr ''properties'', PDict
        [(PStr ''approve'', PDict
          [(PStr ''type'', PStr ''boolean''),
           (PStr ''title'', PStr ''Approve''),
           (PStr ''description'', PStr (''Allow '' @ tool @ '' to run with these arguments.''))])]),
      (PStr ''required'', PList [PStr ''approve''])]"

definition approval_prompt_for :: "middleware \<Rightarrow> string \<Rightarrow> string" where
  "approval_prompt_for m tool =
     (case map_of (p_tools (mw_policy m)) tool of
        Some r \<Rightarrow> if r_approval_prompt r \<noteq> [] then r_approval_prompt r
                  else ''Approve running '' @ tool @ ''?''
      | None \<Rightarrow> ''Approve running '' @ tool @ ''?'')"

definition argument_detail :: "pydict \<Rightarrow> string" where
  "argument_detail items =
     (let text = join '', '' (map (\<lambda>(k, v). py_str k @ ''='' @ py_str v) items)
      in if text \<noteq> [] then text else ''no arguments'')"

definition ask_for_approval ::
  "middleware \<Rightarrow> env_inputs \<Rightarrow> string \<Rightarrow> string \<Rightarrow> pydict \<Rightarrow> 'w mstate \<Rightarrow> (exn + response) \<times> 'w mstate"
where
  "ask_for_approval m orc tool who arguments st =
     bindS (liftS (sorted_by fst arguments) st) (\<lambda>items st.
     bindS (audit_approval m orc tool who ''pending'' ''awaiting human approval'' st) (\<lambda>_ st.
       (Inr (InputRequired APPROVAL_KEY
          (approval_prompt_for m tool @ [CHR 0x0A, CHR 0x0A] @ tool @ ''('' @ argument_detail items @ '')'')
          (approval_schema tool)
          (new_pending_state (nonce orc (ms_nonce_reads st)) tool)),
        st\<lparr>ms_nonce_reads := Suc (ms_nonce_reads st)\<rparr>)))"

text \<open>The answers and the state off the wire, under either spelling.\<close>

definition answers_of :: "pydict \<Rightarrow> pyval" where
  "answers_of params = py_or (dict_get params ''inputResponses'') (dict_get params ''input_responses'')"

definition state_of :: "pydict \<Rightarrow> pyval" where
  "state_of params = py_or (dict_get params ''requestState'') (dict_get params ''request_state'')"

definition mapping_or_empty :: "pyval \<Rightarrow> pydict" where
  "mapping_or_empty v = (case as_mapping v of Some d \<Rightarrow> d | None \<Rightarrow> [])"

definition exn_text :: "exn \<Rightarrow> string" where
  "exn_text e = (case e of ApprovalError m \<Rightarrow> m | _ \<Rightarrow> [])"

definition not_approved :: "string \<Rightarrow> string \<Rightarrow> exn" where
  "not_approved tool reason =
     MCPError AUTHORIZATION_DENIED (repr_str tool @ '' was not approved: '' @ reason @ ''.'')
       (PDict [(PStr ''target'', PStr tool)])"

definition check_approval ::
  "middleware \<Rightarrow> env_inputs \<Rightarrow> pydict \<Rightarrow> string \<Rightarrow> string \<Rightarrow> pyval \<Rightarrow> 'w mstate
    \<Rightarrow> (exn + response option) \<times> 'w mstate"
where
  "check_approval m orc params tool who arguments st =
     (let answers = answers_of params; state = state_of params
      in if \<not> truthy answers
         then bindS (ask_for_approval m orc tool who (mapping_or_empty arguments) st)
                (\<lambda>gate st. (Inr (Some gate), st))
         else (case check state answers of
             Inl e \<Rightarrow>
               bindS (audit_approval m orc tool who ''deny'' (exn_text e) st)
                 (\<lambda>_ st. (Inl (not_approved tool (exn_text e)), st))
           | Inr _ \<Rightarrow>
               bindS (audit_approval m orc tool who ''allow'' ''approved by human'' st)
                 (\<lambda>_ st. (Inr None, st))))"

section \<open>Interception\<close>

definition guard_tool_call ::
  "middleware \<Rightarrow> env_inputs \<Rightarrow> 't access_token option \<Rightarrow> ctx \<Rightarrow> 'w handler \<Rightarrow> 'w mstate
    \<Rightarrow> (exn + response) \<times> 'w mstate"
where
  "guard_tool_call m orc token ctx call_next st =
     (let params = params_of ctx;
          tool = py_str (dict_get_or params ''name'' (PStr []));
          arguments = dict_get params ''arguments'';
          who = describe_principal token;
          d = decide_tool (mw_policy m) tool (roles_from_token token)
      in bindS (audit orc who ''tools/call'' d (as_mapping arguments) (c_protocol_version ctx) None st)
           (\<lambda>_ st.
         bindS (liftS (raise_if_denied m d) st) (\<lambda>_ st.
         if d_requires_approval d \<and> mw_enforce m
         then bindS (check_approval m orc params tool who arguments st) (\<lambda>gate st.
           case gate of Some g \<Rightarrow> (Inr g, st) | None \<Rightarrow> run_next call_next ctx st)
         else run_next call_next ctx st)))"

definition guard_resource_read ::
  "middleware \<Rightarrow> env_inputs \<Rightarrow> 't access_token option \<Rightarrow> ctx \<Rightarrow> 'w handler \<Rightarrow> 'w mstate
    \<Rightarrow> (exn + response) \<times> 'w mstate"
where
  "guard_resource_read m orc token ctx call_next st =
     (let uri = py_str (dict_get_or (params_of ctx) ''uri'' (PStr []));
          d = decide_resource (mw_policy m) uri (roles_from_token token)
      in bindS (audit orc (describe_principal token) ''resources/read'' d None
                 (c_protocol_version ctx) None st) (\<lambda>_ st.
         bindS (liftS (raise_if_denied m d) st) (\<lambda>_ st.
         run_next call_next ctx st)))"

definition model_tool_visible :: "string set \<Rightarrow> pyval \<Rightarrow> bool" where
  "model_tool_visible visible t =
     (case getattr_or t ''name'' PNone of PStr n \<Rightarrow> n \<in> visible | _ \<Rightarrow> False)"

definition filter_response :: "string set \<Rightarrow> response \<Rightarrow> response" where
  "filter_response visible result =
     (case result of
        ToolsResult tools rest \<Rightarrow>
          let kept = filter (model_tool_visible visible) tools
          in if length kept = length tools then result else ToolsResult kept rest
      | Wire (PDict d) \<Rightarrow>
          (case dict_get d ''tools'' of
             PList tools \<Rightarrow>
               let kept = filter (\<lambda>t. tool_name t \<in> visible) tools
               in if length kept = length tools then result
                  else Wire (PDict (dict_set (PStr ''tools'') (PList kept) d))
           | _ \<Rightarrow> result)
      | _ \<Rightarrow> result)"

definition filter_tool_list ::
  "middleware \<Rightarrow> 't access_token option \<Rightarrow> ctx \<Rightarrow> 'w handler \<Rightarrow> 'w mstate
    \<Rightarrow> (exn + response) \<times> 'w mstate"
where
  "filter_tool_list m token ctx call_next st =
     bindS (run_next call_next ctx st) (\<lambda>result st.
       if \<not> mw_enforce m then (Inr result, st)
       else (Inr (filter_response (visible_tools (mw_policy m) (roles_from_token token)) result), st))"

definition handle ::
  "middleware \<Rightarrow> env_inputs \<Rightarrow> 't access_token option \<Rightarrow> ctx \<Rightarrow> 'w handler \<Rightarrow> 'w mstate
    \<Rightarrow> (exn + response) \<times> 'w mstate"
where
  "handle m orc token ctx call_next st =
     (if c_method ctx = Some ''tools/call'' then guard_tool_call m orc token ctx call_next st
      else if c_method ctx = Some ''resources/read'' then guard_resource_read m orc token ctx call_next st
      else if c_method ctx = Some ''tools/list'' then filter_tool_list m token ctx call_next st
      else run_next call_next ctx st)"


section \<open>Steps\<close>

text \<open>
  \<open>logging h st\<close>: the audit stream is configured with the one stream \<open>h\<close>. \<open>trail\<close> is the
  levels of the records so far; a denial is a WARNING, everything else an INFO.
\<close>

definition logging :: "string \<Rightarrow> 'w mstate \<Rightarrow> bool" where
  "logging h st \<longleftrightarrow> sk_level (ms_sink st) = INFO \<and> sk_handlers (ms_sink st) = [h]"

definition trail :: "'w mstate \<Rightarrow> level list" where
  "trail st = map (\<lambda>(h, line). l_level line) (sk_lines (ms_sink st))"

lemma logging_world [simp]: "logging h (st\<lparr>ms_world := w\<rparr>) \<longleftrightarrow> logging h st"
  "logging h (st\<lparr>ms_nonce_reads := n\<rparr>) \<longleftrightarrow> logging h st"
  by (simp_all add: logging_def)

lemma trail_world [simp]: "trail (st\<lparr>ms_world := w\<rparr>) = trail st"
  "trail (st\<lparr>ms_nonce_reads := n\<rparr>) = trail st"
  by (simp_all add: trail_def)

lemma audit_world:
  "audit orc who verb d args ver outcome st = (r, st') \<Longrightarrow>
   ms_world st' = ms_world st \<and> ms_nonce_reads st' = ms_nonce_reads st"
  by (auto simp: audit_def split: prod.splits)

lemma audit_wire:
  assumes "wire_args args"
  obtains st' where "audit orc who verb d args ver outcome st = (Inr (), st')"
    and "ms_world st' = ms_world st" and "ms_nonce_reads st' = ms_nonce_reads st"
    and "logging h st \<longrightarrow> logging h st' \<and> trail st' = trail st @ [outcome_level d outcome]"
proof -
  obtain tx where tx: "\<And>s. audit_record (clock orc (ms_clock_reads st)) who verb d args ver outcome s =
      (Inr (), emit (outcome_level d outcome) tx s)"
    using audit_record_emits [OF assms] by metis
  let ?st = "st\<lparr>ms_sink := emit (outcome_level d outcome) tx (ms_sink st),
    ms_clock_reads := Suc (ms_clock_reads st)\<rparr>"
  show ?thesis
  proof (rule that [of ?st])
    show "audit orc who verb d args ver outcome st = (Inr (), ?st)"
      by (simp add: audit_def tx)
    show "logging h st \<longrightarrow> logging h ?st \<and> trail ?st = trail st @ [outcome_level d outcome]"
      by (simp add: logging_def trail_def emit_def less_eq_level_def)
  qed simp_all
qed

text \<open>An audit step that cannot fail, as the bind of the code sees it.\<close>

lemma audit_wire_none:
  obtains st' where "audit orc who verb d None ver outcome st = (Inr (), st')"
    and "ms_world st' = ms_world st" and "ms_nonce_reads st' = ms_nonce_reads st"
    and "logging h st \<longrightarrow> logging h st' \<and> trail st' = trail st @ [outcome_level d outcome]"
  by (rule audit_wire [of None orc who verb d ver outcome st h]) (simp_all add: wire_args_def)

lemma approval_levels:
  "outcome_level (approval_decision m tool out reason) (Some ''pending'') = INFO"
  "outcome_level (approval_decision m tool out reason) (Some ''allow'') = INFO"
  "outcome_level (approval_decision m tool out reason) (Some ''deny'') = WARNING"
  by (simp_all add: outcome_level_def outcome_of_def)

lemma decision_level: "outcome_level d None = (if d_allowed d then INFO else WARNING)"
  by (simp add: outcome_level_def outcome_of_def)

lemma wire_args_empty: "wire_args (as_mapping v) \<Longrightarrow> str_keyed (mapping_or_empty v)"
  by (simp add: wire_args_def mapping_or_empty_def str_keyed_def split: option.splits)

lemma ask_for_approval_wire:
  assumes "wire_args (as_mapping arguments)"
  obtains msg st' where "ask_for_approval m orc tool who (mapping_or_empty arguments) st =
      (Inr (InputRequired APPROVAL_KEY msg (approval_schema tool)
         (new_pending_state (nonce orc (ms_nonce_reads st)) tool)), st')"
    and "ms_world st' = ms_world st" and "ms_nonce_reads st' = Suc (ms_nonce_reads st)"
    and "logging h st \<longrightarrow> logging h st' \<and> trail st' = trail st @ [INFO]"
proof -
  obtain items where items: "sorted_by fst (mapping_or_empty arguments) = Inr items"
    using sorted_by_str_keys [OF wire_args_empty [OF assms]] by (auto simp: is_ok_iff)
  obtain st1 where "audit orc who ''approval''
      (approval_decision m tool ''pending'' ''awaiting human approval'') None None (Some ''pending'') st =
      (Inr (), st1)"
    and "ms_world st1 = ms_world st" and "ms_nonce_reads st1 = ms_nonce_reads st"
    and "logging h st \<longrightarrow> logging h st1 \<and> trail st1 = trail st @ [INFO]"
    using audit_wire_none [of orc who "''approval''"
        "approval_decision m tool ''pending'' ''awaiting human approval''" None "Some ''pending''" st h]
    by (metis approval_levels(1))
  with items that show ?thesis
    by (simp add: ask_for_approval_def audit_approval_def)
qed

section \<open>The gate, abstractly\<close>

text \<open>What becomes of a tool call, from the policy, the caller's roles and the parameters alone.\<close>

datatype verdict = Denied | NeedsApproval | NotApproved | Runs

definition call_decision :: "middleware \<Rightarrow> 't access_token option \<Rightarrow> ctx \<Rightarrow> decision" where
  "call_decision m token ctx =
     decide_tool (mw_policy m) (py_str (dict_get_or (params_of ctx) ''name'' (PStr [])))
       (roles_from_token token)"

definition gate_verdict :: "middleware \<Rightarrow> 't access_token option \<Rightarrow> ctx \<Rightarrow> verdict" where
  "gate_verdict m token ctx =
     (let d = call_decision m token ctx; params = params_of ctx
      in if \<not> d_allowed d then Denied
         else if \<not> d_requires_approval d then Runs
         else if \<not> truthy (answers_of params) then NeedsApproval
         else if check (state_of params) (answers_of params) = Inr () then Runs
         else NotApproved)"

lemma gate_verdict_iff:
  "gate_verdict m token ctx = Denied \<longleftrightarrow> \<not> d_allowed (call_decision m token ctx)"
  "gate_verdict m token ctx = NeedsApproval \<longleftrightarrow> d_allowed (call_decision m token ctx) \<and>
     d_requires_approval (call_decision m token ctx) \<and> \<not> truthy (answers_of (params_of ctx))"
  "gate_verdict m token ctx = NotApproved \<longleftrightarrow> d_allowed (call_decision m token ctx) \<and>
     d_requires_approval (call_decision m token ctx) \<and> truthy (answers_of (params_of ctx)) \<and>
     check (state_of (params_of ctx)) (answers_of (params_of ctx)) \<noteq> Inr ()"
  "gate_verdict m token ctx = Runs \<longleftrightarrow> d_allowed (call_decision m token ctx) \<and>
     (d_requires_approval (call_decision m token ctx) \<longrightarrow> truthy (answers_of (params_of ctx)) \<and>
       check (state_of (params_of ctx)) (answers_of (params_of ctx)) = Inr ())"
  by (auto simp: gate_verdict_def Let_def)

definition is_denial :: "exn + 'a \<Rightarrow> bool" where
  "is_denial r \<longleftrightarrow>
     (case r of Inl (MCPError code msg data) \<Rightarrow> code = AUTHORIZATION_DENIED | _ \<Rightarrow> False)"

definition is_question :: "string \<Rightarrow> exn + response \<Rightarrow> bool" where
  "is_question tool r \<longleftrightarrow>
     (case r of
        Inr (InputRequired k msg schema state) \<Rightarrow>
          k = ''approval'' \<and> schema = approval_schema tool \<and> prefix (pending_prefix @ tool @ '':'') state
      | _ \<Rightarrow> False)"

text \<open>The records of a call: the decision, then the approval's own.\<close>

definition verdict_trail :: "middleware \<Rightarrow> 't access_token option \<Rightarrow> ctx \<Rightarrow> level list" where
  "verdict_trail m token ctx =
     (case gate_verdict m token ctx of
        Denied \<Rightarrow> [WARNING]
      | NeedsApproval \<Rightarrow> [INFO, INFO]
      | NotApproved \<Rightarrow> [INFO, WARNING]
      | Runs \<Rightarrow> if d_requires_approval (call_decision m token ctx) then [INFO, INFO] else [INFO])"

text \<open>The call's arguments are absent, not a mapping, or a string-keyed mapping: JSON.\<close>

definition wire_call :: "ctx \<Rightarrow> bool" where
  "wire_call ctx \<longleftrightarrow> wire_args (as_mapping (dict_get (params_of ctx) ''arguments''))"

text \<open>One run of the guard, read against the verdict.\<close>

definition gate_result ::
  "middleware \<Rightarrow> 't access_token option \<Rightarrow> ctx \<Rightarrow> 'w handler \<Rightarrow> 'w mstate
    \<Rightarrow> (exn + response) \<times> 'w mstate \<Rightarrow> bool"
where
  "gate_result m token ctx call_next st out \<longleftrightarrow>
     (case gate_verdict m token ctx of
        Denied \<Rightarrow> is_denial (fst out) \<and> ms_world (snd out) = ms_world st
      | NeedsApproval \<Rightarrow>
          is_question (py_str (dict_get_or (params_of ctx) ''name'' (PStr []))) (fst out) \<and>
          ms_world (snd out) = ms_world st
      | NotApproved \<Rightarrow> is_denial (fst out) \<and> ms_world (snd out) = ms_world st
      | Runs \<Rightarrow> (fst out, ms_world (snd out)) = call_next ctx (ms_world st))"

lemma gate_result_world:
  "ms_world st' = ms_world st \<Longrightarrow> gate_result m token ctx call_next st' out = gate_result m token ctx call_next st out"
  by (simp add: gate_result_def cong: verdict.case_cong)

lemma run_next_result: "(fst (run_next call_next ctx st), ms_world (snd (run_next call_next ctx st))) =
    call_next ctx (ms_world st)"
  by (simp add: run_next_def split: prod.splits)

lemma run_next_log [simp]: "trail (snd (run_next call_next ctx st)) = trail st"
  "ms_nonce_reads (snd (run_next call_next ctx st)) = ms_nonce_reads st"
  by (simp_all add: run_next_def split: prod.splits)

lemma raise_if_denied_ok: "d_allowed d \<Longrightarrow> raise_if_denied m d = Inr ()"
  by (simp add: raise_if_denied_def)

lemma raise_if_denied_shadow: "\<not> mw_enforce m \<Longrightarrow> raise_if_denied m d = Inr ()"
  by (simp add: raise_if_denied_def)

lemma raise_if_denied_denial:
  "mw_enforce m \<Longrightarrow> \<not> d_allowed d \<Longrightarrow> \<exists>e. raise_if_denied m d = Inl e \<and> is_denial (Inl e)"
  by (simp add: raise_if_denied_def is_denial_def)

lemma not_approved_denial: "is_denial (Inl (not_approved tool reason))"
  by (simp add: is_denial_def not_approved_def)

lemma new_pending_question:
  "is_question tool (Inr (InputRequired APPROVAL_KEY msg (approval_schema tool) (new_pending_state n tool)))"
  by (simp add: is_question_def new_pending_state_def APPROVAL_KEY_def)

text \<open>The approval check, by its three outcomes.\<close>

lemma check_approval_asks:
  assumes "wire_args (as_mapping arguments)" and "\<not> truthy (answers_of params)"
  obtains g st' where "check_approval m orc params tool who arguments st = (Inr (Some g), st')"
    and "is_question tool (Inr g)" and "ms_world st' = ms_world st"
    and "logging h st \<longrightarrow> logging h st' \<and> trail st' = trail st @ [INFO]"
  by (rule ask_for_approval_wire [OF assms(1), of m orc tool who st h])
    (use assms(2) that new_pending_question in \<open>simp add: check_approval_def\<close>)

lemma check_approval_accepts:
  assumes "truthy (answers_of params)" and "check (state_of params) (answers_of params) = Inr ()"
  obtains st' where "check_approval m orc params tool who arguments st = (Inr None, st')"
    and "ms_world st' = ms_world st"
    and "logging h st \<longrightarrow> logging h st' \<and> trail st' = trail st @ [INFO]"
  by (rule audit_wire_none [of orc who "''approval''"
        "approval_decision m tool ''allow'' ''approved by human''" None "Some ''allow''" st h])
    (use assms that in \<open>simp add: check_approval_def audit_approval_def approval_levels\<close>)

lemma check_approval_refuses:
  assumes "truthy (answers_of params)" and "check (state_of params) (answers_of params) \<noteq> Inr ()"
  obtains e st' where "check_approval m orc params tool who arguments st = (Inl e, st')"
    and "is_denial (Inl e :: exn + response)" and "ms_world st' = ms_world st"
    and "logging h st \<longrightarrow> logging h st' \<and> trail st' = trail st @ [WARNING]"
proof -
  obtain msg where msg: "check (state_of params) (answers_of params) = Inl (ApprovalError msg)"
    using assms(2) check_cases by blast
  show ?thesis
    by (rule audit_wire_none [of orc who "''approval''"
          "approval_decision m tool ''deny'' msg" None "Some ''deny''" st h])
      (use assms(1) msg that in \<open>simp add: check_approval_def audit_approval_def approval_levels
          exn_text_def not_approved_denial\<close>)
qed


section \<open>The guard follows the verdict\<close>

text \<open>The approval check of a request, and the guard once the decision is on record.\<close>

abbreviation check_call ::
  "middleware \<Rightarrow> env_inputs \<Rightarrow> 't access_token option \<Rightarrow> ctx \<Rightarrow> 'w mstate \<Rightarrow> (exn + response option) \<times> 'w mstate"
where
  "check_call m orc token ctx st \<equiv> check_approval m orc (params_of ctx)
     (py_str (dict_get_or (params_of ctx) ''name'' (PStr []))) (describe_principal token)
     (dict_get (params_of ctx) ''arguments'') st"

abbreviation check_then_run ::
  "middleware \<Rightarrow> env_inputs \<Rightarrow> 't access_token option \<Rightarrow> ctx \<Rightarrow> 'w handler \<Rightarrow> 'w mstate \<Rightarrow> (exn + response) \<times> 'w mstate"
where
  "check_then_run m orc token ctx call_next st \<equiv> bindS (check_call m orc token ctx st)
     (\<lambda>gate st. case gate of Some g \<Rightarrow> (Inr g, st) | None \<Rightarrow> run_next call_next ctx st)"

lemma guard_after_audit:
  assumes "audit orc (describe_principal token) ''tools/call'' (call_decision m token ctx)
      (as_mapping (dict_get (params_of ctx) ''arguments'')) (c_protocol_version ctx) None st = (Inr (), st1)"
  shows "guard_tool_call m orc token ctx call_next st =
    bindS (liftS (raise_if_denied m (call_decision m token ctx)) st1) (\<lambda>_ st.
      if d_requires_approval (call_decision m token ctx) \<and> mw_enforce m
      then check_then_run m orc token ctx call_next st else run_next call_next ctx st)"
  using assms by (simp add: guard_tool_call_def call_decision_def [symmetric] Let_def)

lemma guard_tool_call_audited:
  assumes "wire_call ctx"
  obtains st1 where "guard_tool_call m orc token ctx call_next st =
      bindS (liftS (raise_if_denied m (call_decision m token ctx)) st1) (\<lambda>_ st.
        if d_requires_approval (call_decision m token ctx) \<and> mw_enforce m
        then check_then_run m orc token ctx call_next st else run_next call_next ctx st)"
    and "ms_world st1 = ms_world st"
    and "logging h st \<longrightarrow> logging h st1 \<and>
      trail st1 = trail st @ [if d_allowed (call_decision m token ctx) then INFO else WARNING]"
  by (rule audit_wire [OF assms [unfolded wire_call_def], of orc "describe_principal token"
        "''tools/call''" "call_decision m token ctx" "c_protocol_version ctx" None st h])
    (rule that [OF guard_after_audit], simp_all add: decision_level)

text \<open>The approval stage, for a call the policy allows and holds.\<close>

lemma check_then_run_gate:
  assumes wire: "wire_call ctx"
    and held: "d_allowed (call_decision m token ctx)" "d_requires_approval (call_decision m token ctx)"
  shows "gate_result m token ctx call_next st (check_then_run m orc token ctx call_next st) \<and>
    (logging h st \<longrightarrow> trail (snd (check_then_run m orc token ctx call_next st)) =
       trail st @ tl (verdict_trail m token ctx))"
proof (cases "gate_verdict m token ctx")
  case Denied
  with held show ?thesis by (simp add: gate_verdict_iff)
next
  case NeedsApproval
  then have "\<not> truthy (answers_of (params_of ctx))" by (simp add: gate_verdict_iff)
  then obtain g st2 where "check_call m orc token ctx st = (Inr (Some g), st2)"
    and "is_question (py_str (dict_get_or (params_of ctx) ''name'' (PStr []))) (Inr g)" and "ms_world st2 = ms_world st"
    and "logging h st \<longrightarrow> logging h st2 \<and> trail st2 = trail st @ [INFO]"
    by (rule check_approval_asks [OF wire [unfolded wire_call_def]])
  with NeedsApproval show ?thesis by (simp add: gate_result_def verdict_trail_def)
next
  case NotApproved
  then have "truthy (answers_of (params_of ctx))"
    and "check (state_of (params_of ctx)) (answers_of (params_of ctx)) \<noteq> Inr ()" by (simp_all add: gate_verdict_iff)
  then obtain e st2 where "check_call m orc token ctx st = (Inl e, st2)"
    and "is_denial (Inl e :: exn + response)" and "ms_world st2 = ms_world st"
    and "logging h st \<longrightarrow> logging h st2 \<and> trail st2 = trail st @ [WARNING]" by (rule check_approval_refuses)
  with NotApproved show ?thesis by (simp add: gate_result_def verdict_trail_def)
next
  case Runs
  with held have "truthy (answers_of (params_of ctx))"
    and "check (state_of (params_of ctx)) (answers_of (params_of ctx)) = Inr ()" by (simp_all add: gate_verdict_iff)
  then obtain st2 where "check_call m orc token ctx st = (Inr None, st2)" and "ms_world st2 = ms_world st"
    and "logging h st \<longrightarrow> logging h st2 \<and> trail st2 = trail st @ [INFO]" by (rule check_approval_accepts)
  with Runs held run_next_result [of call_next ctx st2] show ?thesis
    by (simp add: gate_result_def verdict_trail_def)
qed

lemma guard_tool_call_gate:
  assumes enforce: "mw_enforce m" and wire: "wire_call ctx"
  shows "gate_result m token ctx call_next st (guard_tool_call m orc token ctx call_next st) \<and>
    (logging h st \<longrightarrow> trail (snd (guard_tool_call m orc token ctx call_next st)) =
       trail st @ verdict_trail m token ctx)"
proof -
  let ?d = "call_decision m token ctx"
  obtain st1 where run: "guard_tool_call m orc token ctx call_next st =
      bindS (liftS (raise_if_denied m ?d) st1) (\<lambda>_ st.
        if d_requires_approval ?d \<and> mw_enforce m
        then check_then_run m orc token ctx call_next st else run_next call_next ctx st)"
    and st1: "ms_world st1 = ms_world st"
      "logging h st \<longrightarrow> logging h st1 \<and> trail st1 = trail st @ [if d_allowed ?d then INFO else WARNING]"
    by (rule guard_tool_call_audited [OF wire])
  show ?thesis
  proof (cases "d_allowed ?d")
    case False
    then have "gate_verdict m token ctx = Denied" by (simp add: gate_verdict_iff)
    with raise_if_denied_denial [OF enforce False] st1 False show ?thesis
      by (auto simp: run gate_result_def verdict_trail_def is_denial_def)
  next
    case allowed: True
    show ?thesis
    proof (cases "d_requires_approval ?d")
      case True
      have "INFO # tl (verdict_trail m token ctx) = verdict_trail m token ctx"
        using allowed gate_verdict_iff(1) [of m token ctx]
        by (cases "gate_verdict m token ctx") (simp_all add: verdict_trail_def)
      with check_then_run_gate [OF wire allowed True, of call_next st1 orc h] True allowed enforce st1 show ?thesis
        by (simp add: run raise_if_denied_ok gate_result_world [OF st1(1)])
    next
      case False
      with allowed have "gate_verdict m token ctx = Runs" by (simp add: gate_verdict_iff)
      with False allowed st1 run_next_result [of call_next ctx st1] show ?thesis
        by (simp add: run raise_if_denied_ok gate_result_def verdict_trail_def)
    qed
  qed
qed

text \<open>Shadow mode: the same decision is recorded, and the call goes through.\<close>

lemma guard_tool_call_shadow:
  assumes "\<not> mw_enforce m" and "wire_call ctx"
  shows "(fst (guard_tool_call m orc token ctx call_next st),
      ms_world (snd (guard_tool_call m orc token ctx call_next st))) = call_next ctx (ms_world st) \<and>
    (logging h st \<longrightarrow> trail (snd (guard_tool_call m orc token ctx call_next st)) =
       trail st @ [if d_allowed (call_decision m token ctx) then INFO else WARNING])"
proof -
  let ?d = "call_decision m token ctx"
  obtain st1 where run: "guard_tool_call m orc token ctx call_next st = run_next call_next ctx st1"
    and st1: "ms_world st1 = ms_world st"
      "logging h st \<longrightarrow> logging h st1 \<and> trail st1 = trail st @ [if d_allowed ?d then INFO else WARNING]"
    by (rule guard_tool_call_audited [OF assms(2), of m orc token call_next st h])
      (use assms(1) in \<open>simp add: raise_if_denied_shadow\<close>)
  from run_next_result [of call_next ctx st1] st1 show ?thesis by (simp add: run)
qed

text \<open>A resource read, the same way.\<close>

definition read_decision :: "middleware \<Rightarrow> 't access_token option \<Rightarrow> ctx \<Rightarrow> decision" where
  "read_decision m token ctx =
     decide_resource (mw_policy m) (py_str (dict_get_or (params_of ctx) ''uri'' (PStr [])))
       (roles_from_token token)"

lemma guard_resource_read_gate:
  "(if d_allowed (read_decision m token ctx) \<or> \<not> mw_enforce m
    then (fst (guard_resource_read m orc token ctx call_next st),
        ms_world (snd (guard_resource_read m orc token ctx call_next st))) = call_next ctx (ms_world st)
    else is_denial (fst (guard_resource_read m orc token ctx call_next st)) \<and>
      ms_world (snd (guard_resource_read m orc token ctx call_next st)) = ms_world st) \<and>
   (logging h st \<longrightarrow> trail (snd (guard_resource_read m orc token ctx call_next st)) =
      trail st @ [if d_allowed (read_decision m token ctx) then INFO else WARNING])"
proof -
  let ?d = "read_decision m token ctx"
  obtain st1 where a: "audit orc (describe_principal token) ''resources/read'' ?d None
      (c_protocol_version ctx) None st = (Inr (), st1)"
    and st1: "ms_world st1 = ms_world st" "ms_nonce_reads st1 = ms_nonce_reads st"
      "logging h st \<longrightarrow> logging h st1 \<and> trail st1 = trail st @ [outcome_level ?d None]"
    by (rule audit_wire_none [of orc "describe_principal token" "''resources/read''" ?d
          "c_protocol_version ctx" None st h])
  have run: "guard_resource_read m orc token ctx call_next st =
      bindS (liftS (raise_if_denied m ?d) st1) (\<lambda>_ st. run_next call_next ctx st)"
    using a by (simp add: guard_resource_read_def read_decision_def Let_def)
  show ?thesis
  proof (cases "d_allowed ?d \<or> \<not> mw_enforce m")
    case True
    then have "raise_if_denied m ?d = Inr ()" by (simp add: raise_if_denied_def)
    with True st1 run_next_result [of call_next ctx st1] show ?thesis
      by (simp add: run decision_level)
  next
    case False
    then obtain e where "raise_if_denied m ?d = Inl e" and "is_denial (Inl e :: exn + response)"
      using raise_if_denied_denial [of m ?d] by (auto simp: is_denial_def)
    with False st1 show ?thesis by (simp add: run decision_level)
  qed
qed


section \<open>A middleware calls the rest of the chain at most once\<close>

text \<open>
  What the server relies on from a middleware: on a given request and state it either
  answers without the rest of the chain, leaving the world alone, or it runs the rest of the
  chain once, on the request as it came, and only rewrites its result.
\<close>

type_synonym 'w wrapper = "ctx \<Rightarrow> 'w handler \<Rightarrow> 'w mstate \<Rightarrow> (exn + response) \<times> 'w mstate"

definition blocks :: "'w wrapper \<Rightarrow> ctx \<Rightarrow> 'w mstate \<Rightarrow> bool" where
  "blocks wrap ctx st \<longleftrightarrow>
     (\<exists>r st'. ms_world st' = ms_world st \<and> (\<forall>f. wrap ctx f st = (r, st')))"

definition passes :: "'w wrapper \<Rightarrow> ctx \<Rightarrow> 'w mstate \<Rightarrow> bool" where
  "passes wrap ctx st \<longleftrightarrow>
     (\<exists>st1 g. \<forall>f. wrap ctx f st =
        (g (fst (f ctx (ms_world st))), st1\<lparr>ms_world := snd (f ctx (ms_world st))\<rparr>))"

lemma blocksI: "ms_world st' = ms_world st \<Longrightarrow> (\<And>f. wrap ctx f st = (r, st')) \<Longrightarrow> blocks wrap ctx st"
  unfolding blocks_def by blast

lemma passesI:
  "(\<And>f. wrap ctx f st = (g (fst (f ctx (ms_world st))), st1\<lparr>ms_world := snd (f ctx (ms_world st))\<rparr>)) \<Longrightarrow>
   passes wrap ctx st"
  unfolding passes_def by blast

lemma run_next_eq: "run_next f ctx st = (fst (f ctx (ms_world st)), st\<lparr>ms_world := snd (f ctx (ms_world st))\<rparr>)"
  by (simp add: run_next_def split: prod.splits)

lemma passes_run_next:
  "ms_world st1 = ms_world st \<Longrightarrow> (\<And>f. wrap ctx f st = run_next f ctx st1) \<Longrightarrow> passes wrap ctx st"
  by (rule passesI [where g = "\<lambda>r. r" and ?st1.0 = st1]) (simp add: run_next_eq)

locale server_middleware =
  fixes wrap :: "'w wrapper"
  assumes at_most_once: "blocks wrap ctx st \<or> passes wrap ctx st"
begin

lemma world_result:
  "ms_world (snd (wrap ctx f st)) = ms_world st \<or>
   ms_world (snd (wrap ctx f st)) = snd (f ctx (ms_world st))"
  using at_most_once [of ctx st] unfolding blocks_def passes_def
  by (metis mstate.select_convs(4) mstate.surjective mstate.update_convs(4) snd_conv)

lemma world_invariant:
  assumes "I (ms_world st)" and "\<And>w. I w \<Longrightarrow> I (snd (f ctx w))"
  shows "I (ms_world (snd (wrap ctx f st)))"
  using world_result [of ctx f st] assms by metis

lemma changed_passes:
  "ms_world (snd (wrap ctx f st)) \<noteq> ms_world st \<Longrightarrow> passes wrap ctx st"
  using at_most_once [of ctx st] unfolding blocks_def by (metis snd_conv)

lemma differs_passes: "wrap ctx f st \<noteq> wrap ctx g st \<Longrightarrow> passes wrap ctx st"
  using at_most_once [of ctx st] unfolding blocks_def by metis

end

lemma audit_blocks_or:
  assumes "\<And>st1. audit orc who verb d args ver outcome st = (Inr (), st1) \<Longrightarrow>
      ms_world st1 = ms_world st \<Longrightarrow> blocks wrap ctx st \<or> passes wrap ctx st"
    and "\<And>e st1. audit orc who verb d args ver outcome st = (Inl e, st1) \<Longrightarrow>
      ms_world st1 = ms_world st \<Longrightarrow> blocks wrap ctx st"
  shows "blocks wrap ctx st \<or> passes wrap ctx st"
proof -
  obtain r st1 where a: "audit orc who verb d args ver outcome st = (r, st1)" by fastforce
  with audit_world have "ms_world st1 = ms_world st" by blast
  with a assms show ?thesis by (cases r) auto
qed

lemma check_approval_world:
  assumes "check_approval m orc params tool who arguments st = (r, st')"
  shows "ms_world st' = ms_world st"
proof -
  have ask: "ms_world (snd (ask_for_approval m orc tool who items st)) = ms_world st" for items
  proof (cases "sorted_by fst items")
    case (Inr xs)
    obtain r1 st1 where a: "audit_approval m orc tool who ''pending'' ''awaiting human approval'' st = (r1, st1)"
      by fastforce
    with audit_world have "ms_world st1 = ms_world st"
      unfolding audit_approval_def by blast
    with a Inr show ?thesis by (cases r1) (simp_all add: ask_for_approval_def)
  qed (simp add: ask_for_approval_def)
  have app: "ms_world (snd (bindS (audit_approval m orc tool who out reason st) (\<lambda>_ st. (x, st)))) =
      ms_world st" for out reason and x :: "exn + response option"
  proof -
    obtain r1 st1 where a: "audit_approval m orc tool who out reason st = (r1, st1)" by fastforce
    with audit_world have "ms_world st1 = ms_world st" unfolding audit_approval_def by blast
    with a show ?thesis by (cases r1) simp_all
  qed
  have asks: "ms_world (snd (bindS (ask_for_approval m orc tool who items st)
      (\<lambda>gate st. (Inr (Some gate) :: exn + response option, st)))) = ms_world st" for items
    using ask [of items] by (cases "ask_for_approval m orc tool who items st"; cases "fst (ask_for_approval m orc tool who items st)") simp_all
  have "ms_world (snd (check_approval m orc params tool who arguments st)) = ms_world st"
    unfolding check_approval_def Let_def
    by (simp add: asks app split: sum.splits)
  with assms show ?thesis by simp
qed


lemma guard_tool_call_once:
  fixes st :: "'w mstate"
  shows "blocks (guard_tool_call m orc token) ctx st \<or> passes (guard_tool_call m orc token) ctx st"
proof (rule audit_blocks_or [where orc = orc and who = "describe_principal token"
      and verb = "''tools/call''" and d = "call_decision m token ctx"
      and args = "as_mapping (dict_get (params_of ctx) ''arguments'')"
      and ver = "c_protocol_version ctx" and outcome = None and st = st])
  fix e and st1 :: "'w mstate"
  assume "audit orc (describe_principal token) ''tools/call'' (call_decision m token ctx)
      (as_mapping (dict_get (params_of ctx) ''arguments'')) (c_protocol_version ctx) None st = (Inl e, st1)"
    and "ms_world st1 = ms_world st"
  then show "blocks (guard_tool_call m orc token) ctx st"
    by (intro blocksI [of st1 st _ _ "Inl e"])
      (simp_all add: guard_tool_call_def call_decision_def [symmetric] Let_def)
next
  fix st1 :: "'w mstate"
  let ?d = "call_decision m token ctx" and ?p = "params_of ctx" and ?chk = "check_call m orc token ctx st1"
  assume a: "audit orc (describe_principal token) ''tools/call'' ?d
      (as_mapping (dict_get ?p ''arguments'')) (c_protocol_version ctx) None st = (Inr (), st1)"
    and w: "ms_world st1 = ms_world st"
  note run = guard_after_audit [OF a]
  show "blocks (guard_tool_call m orc token) ctx st \<or> passes (guard_tool_call m orc token) ctx st"
  proof (cases "raise_if_denied m ?d")
    case (Inl e)
    with run w show ?thesis by (intro disjI1 blocksI [of st1]) simp_all
  next
    case ok: (Inr u)
    show ?thesis
    proof (cases "d_requires_approval ?d \<and> mw_enforce m")
      case False
      with run ok w show ?thesis by (intro disjI2 passes_run_next [of st1]) simp_all
    next
      case True
      obtain r st2 where c: "?chk = (r, st2)" by fastforce
      with w check_approval_world have w2: "ms_world st2 = ms_world st" by metis
      consider e where "r = Inl e" | g where "r = Inr (Some g)" | "r = Inr None"
        by (metis old.sum.exhaust option.exhaust)
      then show ?thesis
      proof cases
        case 3
        with run ok True c w2 show ?thesis by (intro disjI2 passes_run_next [of st2]) simp_all
      qed (use run ok True c w2 in \<open>intro disjI1 blocksI [of st2], simp_all\<close>)+
    qed
  qed
qed

lemma guard_resource_read_once:
  fixes st :: "'w mstate"
  shows "blocks (guard_resource_read m orc token) ctx st \<or> passes (guard_resource_read m orc token) ctx st"
proof (rule audit_blocks_or [where orc = orc and who = "describe_principal token"
      and verb = "''resources/read''" and d = "read_decision m token ctx"
      and args = None and ver = "c_protocol_version ctx" and outcome = None and st = st])
  fix e and st1 :: "'w mstate"
  assume "audit orc (describe_principal token) ''resources/read'' (read_decision m token ctx) None
      (c_protocol_version ctx) None st = (Inl e, st1)" and "ms_world st1 = ms_world st"
  then show "blocks (guard_resource_read m orc token) ctx st"
    by (intro blocksI [of st1 st _ _ "Inl e"])
      (simp_all add: guard_resource_read_def read_decision_def Let_def)
next
  fix st1 :: "'w mstate"
  assume a: "audit orc (describe_principal token) ''resources/read'' (read_decision m token ctx) None
      (c_protocol_version ctx) None st = (Inr (), st1)"
    and w: "ms_world st1 = ms_world st"
  show "blocks (guard_resource_read m orc token) ctx st \<or> passes (guard_resource_read m orc token) ctx st"
  proof (cases "raise_if_denied m (read_decision m token ctx)")
    case (Inl e)
    with a w show ?thesis
      by (intro disjI1 blocksI [of st1]) (simp_all add: guard_resource_read_def read_decision_def Let_def)
  next
    case (Inr u)
    with a w show ?thesis
      by (intro disjI2 passes_run_next [of st1])
        (simp_all add: guard_resource_read_def read_decision_def Let_def)
  qed
qed

lemma filter_tool_list_eq:
  "filter_tool_list m token ctx f st =
     (case fst (f ctx (ms_world st)) of
        Inl e \<Rightarrow> Inl e
      | Inr result \<Rightarrow> Inr (if mw_enforce m
          then filter_response (visible_tools (mw_policy m) (roles_from_token token)) result
          else result),
      st\<lparr>ms_world := snd (f ctx (ms_world st))\<rparr>)"
  by (simp add: filter_tool_list_def run_next_eq split: sum.splits)

lemma filter_tool_list_once: "passes (filter_tool_list m token) ctx st"
  by (rule passesI [of _ _ _ "\<lambda>r. case r of Inl e \<Rightarrow> Inl e
      | Inr result \<Rightarrow> Inr (if mw_enforce m
          then filter_response (visible_tools (mw_policy m) (roles_from_token token)) result
          else result)"]) (rule filter_tool_list_eq)

lemma wrapper_cong:
  assumes "\<And>f. wrap ctx f st = wrap' ctx f st"
  shows "blocks wrap ctx st = blocks wrap' ctx st" and "passes wrap ctx st = passes wrap' ctx st"
  using assms by (simp_all add: blocks_def passes_def)

interpretation mw: server_middleware "handle m orc token" for m orc token
proof unfold_locales
  fix ctx :: ctx and st :: "'b mstate"
  consider "c_method ctx = Some ''tools/call''" | "c_method ctx = Some ''resources/read''"
    | "c_method ctx = Some ''tools/list''"
    | "c_method ctx \<notin> {Some ''tools/call'', Some ''resources/read'', Some ''tools/list''}"
    by blast
  then show "blocks (handle m orc token) ctx st \<or> passes (handle m orc token) ctx st"
  proof cases
    case 1
    then have "\<And>f. handle m orc token ctx f st = guard_tool_call m orc token ctx f st"
      by (simp add: handle_def)
    from wrapper_cong [where wrap = "handle m orc token" and wrap' = "guard_tool_call m orc token", OF this]
      guard_tool_call_once show ?thesis by simp
  next
    case 2
    then have "\<And>f. handle m orc token ctx f st = guard_resource_read m orc token ctx f st"
      by (simp add: handle_def)
    from wrapper_cong [where wrap = "handle m orc token" and wrap' = "guard_resource_read m orc token", OF this]
      guard_resource_read_once show ?thesis by simp
  next
    case 3
    then have "\<And>f. handle m orc token ctx f st = filter_tool_list m token ctx f st"
      by (simp add: handle_def)
    from wrapper_cong [where wrap = "handle m orc token" and wrap' = "filter_tool_list m token", OF this]
      show ?thesis by (simp add: filter_tool_list_once)
  next
    case 4
    then have "\<And>f. handle m orc token ctx f st = run_next f ctx st"
      by (simp add: handle_def)
    then show ?thesis by (intro disjI2 passes_run_next [of st]) simp_all
  qed
qed


section \<open>Refusals\<close>

lemma audit_then_blocks:
  assumes "\<And>st1. ms_world st1 = ms_world st \<Longrightarrow> \<exists>e st'. ms_world st' = ms_world st \<and>
      (\<forall>f. k f st1 = (Inl e :: exn + response, st'))"
  shows "\<exists>e st'. ms_world st' = ms_world st \<and>
    (\<forall>f. bindS (audit orc who verb d args ver outcome st) (\<lambda>_ st. k f st) = (Inl e, st'))"
proof -
  obtain r st1 where a: "audit orc who verb d args ver outcome st = (r, st1)" by fastforce
  with audit_world have w: "ms_world st1 = ms_world st" by blast
  from assms [OF w] a w show ?thesis by (cases r) auto
qed

lemma refused_tool_call:
  assumes "mw_enforce m" and "\<not> d_allowed (call_decision m token ctx)"
  shows "\<exists>e st'. ms_world st' = ms_world st \<and>
    (\<forall>f. guard_tool_call m orc token ctx f st = (Inl e, st'))"
proof -
  obtain e where "raise_if_denied m (call_decision m token ctx) = Inl e"
    using raise_if_denied_denial [OF assms] by blast
  then show ?thesis
    unfolding guard_tool_call_def Let_def call_decision_def [symmetric]
    by (intro audit_then_blocks) auto
qed

lemma refused_resource_read:
  assumes "mw_enforce m" and "\<not> d_allowed (read_decision m token ctx)"
  shows "\<exists>e st'. ms_world st' = ms_world st \<and>
    (\<forall>f. guard_resource_read m orc token ctx f st = (Inl e, st'))"
proof -
  obtain e where "raise_if_denied m (read_decision m token ctx) = Inl e"
    using raise_if_denied_denial [OF assms] by blast
  then show ?thesis
    unfolding guard_resource_read_def Let_def read_decision_def [symmetric]
    by (intro audit_then_blocks) auto
qed

text \<open>A call that needs an approval it does not carry never reaches the handler.\<close>

lemma check_ok_truthy: "check state answers = Inr () \<Longrightarrow> truthy answers"
  by (auto simp: check_ok)

lemma unapproved_not_accepted:
  assumes "check (state_of params) (answers_of params) \<noteq> Inr ()"
  shows "fst (check_approval m orc params tool who arguments st) \<noteq> Inr None"
proof -
  obtain msg where msg: "check (state_of params) (answers_of params) = Inl (ApprovalError msg)"
    using assms check_cases by blast
  have "fst (bindS (ask_for_approval m orc tool who items st)
      (\<lambda>gate st. (Inr (Some gate) :: exn + response option, st))) \<noteq> Inr None" for items
    by (cases "ask_for_approval m orc tool who items st"; cases "fst (ask_for_approval m orc tool who items st)")
      simp_all
  moreover have "fst (bindS (audit_approval m orc tool who out reason st)
      (\<lambda>_ st. (Inl e :: exn + response option, st))) \<noteq> Inr None" for e out reason
    by (cases "audit_approval m orc tool who out reason st"; cases "fst (audit_approval m orc tool who out reason st)")
      simp_all
  ultimately show ?thesis by (simp add: check_approval_def Let_def msg)
qed

lemma unapproved_tool_call:
  fixes st :: "'w mstate"
  assumes "mw_enforce m" and "d_requires_approval (call_decision m token ctx)"
    and "check (state_of (params_of ctx)) (answers_of (params_of ctx)) \<noteq> Inr ()"
  shows "blocks (guard_tool_call m orc token) ctx st"
proof -
  let ?d = "call_decision m token ctx" and ?p = "params_of ctx"
  obtain r st1 where a: "audit orc (describe_principal token) ''tools/call'' ?d
      (as_mapping (dict_get ?p ''arguments'')) (c_protocol_version ctx) None st = (r, st1)"
    by fastforce
  with audit_world have w: "ms_world st1 = ms_world st" by blast
  obtain c st2 where c: "check_approval m orc ?p (py_str (dict_get_or ?p ''name'' (PStr [])))
      (describe_principal token) (dict_get ?p ''arguments'') st1 = (c, st2)"
    by fastforce
  have w2: "ms_world st2 = ms_world st" using check_approval_world [OF c] w by simp
  have "c \<noteq> Inr None" using unapproved_not_accepted [OF assms(3)] c by (metis fst_conv)
  then consider e where "c = Inl e" | g where "c = Inr (Some g)"
    by (metis old.sum.exhaust option.exhaust)
  note cases = this
  note defs = guard_tool_call_def call_decision_def [symmetric] Let_def
  show ?thesis
  proof (cases r)
    case (Inl e)
    with a w show ?thesis by (intro blocksI [of st1]) (simp_all add: defs)
  next
    case ok: (Inr u)
    show ?thesis
    proof (cases "raise_if_denied m ?d")
      case (Inl e)
      with a ok w show ?thesis by (intro blocksI [of st1]) (simp_all add: defs)
    next
      case (Inr v)
      from cases show ?thesis
        by cases (use a ok Inr c w2 assms(1,2) in \<open>intro blocksI [of st2], simp_all add: defs\<close>)+
    qed
  qed
qed

section \<open>The list of tools\<close>

lemma filter_all_id: "length (filter P xs) = length xs \<Longrightarrow> filter P xs = xs"
  by (metis filter_id_conv length_filter_less less_irrefl)

lemma filter_response_model:
  "filter_response vis (ToolsResult tools rest) = ToolsResult (filter (model_tool_visible vis) tools) rest"
  by (auto simp: filter_response_def Let_def dest: filter_all_id)

lemma dict_get_dict_set:
  "dict_get (dict_set (PStr k) v d) k' = (if k' = k then v else dict_get d k')"
  by (simp add: dict_get_def dict_get_or_def dict_simps)

lemma dict_set_same: "map_of d k = Some v \<Longrightarrow> dict_set k v d = d"
  by (induction d) (auto split: if_splits)

lemma filter_response_wire:
  assumes "dict_get d ''tools'' = PList tools"
  shows "filter_response vis (Wire (PDict d)) =
    Wire (PDict (dict_set (PStr ''tools'') (PList (filter (\<lambda>t. tool_name t \<in> vis) tools)) d))"
proof -
  have "map_of d (PStr ''tools'') = Some (PList tools)"
    using assms by (auto simp: dict_get_def dict_get_or_def split: option.splits)
  then have same: "dict_set (PStr ''tools'') (PList tools) d = d" by (rule dict_set_same)
  show ?thesis
    using filter_all_id [of "\<lambda>t. tool_name t \<in> vis" tools] same
    by (auto simp: filter_response_def Let_def assms)
qed

section \<open>The question\<close>

lemma sublist_join: "x \<in> set xs \<Longrightarrow> sublist x (join sep xs)"
  by (induction sep xs rule: join.induct) (auto simp: sublist_append)

lemma sublist_mid: "sublist x y \<Longrightarrow> sublist x (p @ y @ q)"
  by (auto simp: sublist_append)

lemma argument_detail_shows:
  assumes "(k, v) \<in> set items"
  shows "sublist (py_str k @ ''='' @ py_str v) (argument_detail items)"
proof -
  let ?parts = "map (\<lambda>(k, v). py_str k @ ''='' @ py_str v) items"
  have "py_str k @ ''='' @ py_str v \<in> set ?parts" using assms by force
  then have "sublist (py_str k @ ''='' @ py_str v) (join '', '' ?parts)" by (rule sublist_join)
  moreover from this have "join '', '' ?parts \<noteq> []" by auto
  ultimately show ?thesis by (simp add: argument_detail_def Let_def)
qed


lemma ask_for_approval_shows:
  assumes "ask_for_approval m orc tool who arguments st = (Inr g, st')"
  obtains msg state where "g = InputRequired APPROVAL_KEY msg (approval_schema tool) state"
    and "\<And>k v. (k, v) \<in> set arguments \<Longrightarrow> sublist (py_str k @ ''='' @ py_str v) msg"
    and "prefix (approval_prompt_for m tool) msg"
proof -
  obtain items where items: "sorted_by fst arguments = Inr items"
    using assms by (cases "sorted_by fst arguments") (auto simp: ask_for_approval_def)
  let ?msg = "approval_prompt_for m tool @ [CHR 0x0A, CHR 0x0A] @ tool @ ''('' @
    argument_detail items @ '')''"
  have shown: "sublist (py_str k @ ''='' @ py_str v) ?msg" if "(k, v) \<in> set arguments" for k v
  proof -
    have "(k, v) \<in> set items" using that sorted_by_set [OF items] by simp
    from sublist_mid [OF argument_detail_shows [OF this],
        of "approval_prompt_for m tool @ [CHR 0x0A, CHR 0x0A] @ tool @ ''(''" "'')''"]
    show ?thesis by simp
  qed
  obtain r st1 where
    "audit_approval m orc tool who ''pending'' ''awaiting human approval'' st = (r, st1)" by fastforce
  with assms items have "g = InputRequired APPROVAL_KEY ?msg (approval_schema tool)
      (new_pending_state (nonce orc (ms_nonce_reads st1)) tool)"
    by (cases r) (simp_all add: ask_for_approval_def)
  from that [OF this] shown show ?thesis by (simp only: prefixI)
qed

section \<open>An example gate\<close>

definition gate_doc :: pydict where
  "gate_doc =
     [(PStr ''version'', PInt 1),
      (PStr ''roles'', PDict [(PStr ''reader'', PDict []), (PStr ''operator'', PDict [])]),
      (PStr ''tools'', PDict
        [(PStr ''look'', example_entry ''internal'' [''reader'', ''operator'']),
         (PStr ''raise'', PDict
           [(PStr ''classification'', PStr ''restricted''),
            (PStr ''allow_roles'', PList [PStr ''operator'']),
            (PStr ''requires_approval'', PBool True)])]),
      (PStr ''resources'', PDict [(PStr ''shipment://*'', example_entry ''internal'' [''reader''])])]"

definition gate_mw :: "bool \<Rightarrow> middleware" where
  "gate_mw enforce = \<lparr>mw_policy = projr (from_mapping (PDict gate_doc) ''<test>''), mw_enforce = enforce\<rparr>"

definition gate_env :: env_inputs where
  "gate_env = \<lparr>clock = (\<lambda>n. ''t'' @ nat_str n), nonce = (\<lambda>n. ''n'' @ nat_str n)\<rparr>"

definition gate_token :: "string \<Rightarrow> string access_token option" where
  "gate_token role = Some \<lparr>at_token = ''tok'', at_client_id = ''c'', at_scopes = [], at_expires_at = None,
     at_resource = ''r'', at_subject = Some ''s'',
     at_claims = [(PStr ''roles'', PList [PStr role])]\<rparr>"

definition gate_call :: "string \<Rightarrow> pydict \<Rightarrow> ctx" where
  "gate_call tool extra = \<lparr>c_method = Some ''tools/call'',
     c_params = PDict ((PStr ''name'', PStr tool) #
       (PStr ''arguments'', PDict [(PStr ''urgency'', PStr ''1'')]) # extra),
     c_protocol_version = Some ''2026-07-28''\<rparr>"

definition gate_read :: "string \<Rightarrow> ctx" where
  "gate_read uri = \<lparr>c_method = Some ''resources/read'', c_params = PDict [(PStr ''uri'', PStr uri)],
     c_protocol_version = None\<rparr>"

definition gate_answers :: pydict where
  "gate_answers =
     [(PStr ''inputResponses'', PDict [(PStr ''approval'', PDict
         [(PStr ''action'', PStr ''accept''), (PStr ''content'', PDict [(PStr ''approve'', PBool True)])])]),
      (PStr ''requestState'', PStr ''awaiting-approval:raise:n0'')]"

text \<open>A world that counts the runs of the handler.\<close>

definition count_handler :: "nat handler" where
  "count_handler ctx w = (Inr (Wire (PStr ''done'')), Suc w)"

definition gate_state :: "nat mstate" where
  "gate_state = \<lparr>ms_sink = example_sink, ms_clock_reads = 0, ms_nonce_reads = 0, ms_world = 0\<rparr>"

lemma gate_policy_loads:
  "from_mapping (PDict gate_doc) ''<test>'' = Inr (mw_policy (gate_mw b))"
proof -
  have "is_ok (from_mapping (PDict gate_doc) ''<test>'')" by code_simp
  then show ?thesis by (auto simp: gate_mw_def is_ok_iff)
qed

lemma gate_policy_wf: "wf_policy (mw_policy (gate_mw b))"
  by (rule from_mapping_wf_policy [OF gate_policy_loads])

lemma gate_mw_enforce [simp]: "mw_enforce (gate_mw b) = b"
  by (simp add: gate_mw_def)

lemma gate_call_method [simp]: "c_method (gate_call t x) = Some ''tools/call''"
  by (simp add: gate_call_def)

lemma gate_logging: "logging ''stdout'' gate_state"
  by (simp add: logging_def gate_state_def example_sink_def configure_def)

section \<open>Properties\<close>

text \<open>C13: the gate on a tool call: with enforcement on, the answer to \<open>tools/call\<close> is fixed by
  the verdict, which reads only the policy, the caller's roles and the parameters: a denial or
  an unanswered or refused approval leaves the world alone, and \<open>Runs\<close> returns what the handler
  returns. The audit trail grows by exactly the records of that verdict.\<close>

theorem tool_call_follows_verdict:
  assumes "c_method ctx = Some ''tools/call''" and "mw_enforce m" and "wire_call ctx"
    and "logging h st"
  shows "gate_result m token ctx call_next st (handle m orc token ctx call_next st) \<and>
    trail (snd (handle m orc token ctx call_next st)) = trail st @ verdict_trail m token ctx"
  using guard_tool_call_gate [OF assms(2,3), of token call_next st orc h] assms(1,4)
  by (simp add: handle_def)

theorem tool_call_follows_verdict_witness:
  "trail (snd (handle (gate_mw True) gate_env (gate_token ''operator'') (gate_call ''raise'' gate_answers)
      count_handler gate_state)) = [INFO, INFO]"
proof -
  have "wire_call (gate_call ''raise'' gate_answers)" by code_simp
  moreover have "verdict_trail (gate_mw True) (gate_token ''operator'')
      (gate_call ''raise'' gate_answers) = [INFO, INFO]" by code_simp
  moreover have "trail gate_state = []" by code_simp
  ultimately show ?thesis
    using tool_call_follows_verdict [OF gate_call_method, of "gate_mw True" "''raise''" gate_answers
        "''stdout''" gate_state "gate_token ''operator''" count_handler gate_env] gate_logging
    by simp
qed


text \<open>C14: a caller the policy does not allow never reaches a handler: with enforcement on, a
  denied \<open>tools/call\<close> or \<open>resources/read\<close> raises the same error into the same state whatever
  the rest of the chain is, and the world is untouched; this holds for every shape of
  parameters, those the audit cannot serialize included.\<close>

theorem denied_never_reaches_handler:
  assumes "mw_enforce m"
    and "c_method ctx = Some ''tools/call'' \<and> \<not> d_allowed (call_decision m token ctx) \<or>
      c_method ctx = Some ''resources/read'' \<and> \<not> d_allowed (read_decision m token ctx)"
  shows "\<exists>e st'. ms_world st' = ms_world st \<and>
    (\<forall>call_next. handle m orc token ctx call_next st = (Inl e, st'))"
  using assms(2)
proof (elim disjE conjE)
  assume "c_method ctx = Some ''tools/call''" and "\<not> d_allowed (call_decision m token ctx)"
  with refused_tool_call [OF assms(1), of token ctx st orc] show ?thesis by (simp add: handle_def)
next
  assume "c_method ctx = Some ''resources/read''" and "\<not> d_allowed (read_decision m token ctx)"
  with refused_resource_read [OF assms(1), of token ctx st orc] show ?thesis by (simp add: handle_def)
qed

theorem denied_never_reaches_handler_witness:
  "ms_world (snd (handle (gate_mw True) gate_env (gate_token ''reader'') (gate_call ''raise'' gate_answers)
      count_handler gate_state)) = 0"
proof -
  have "\<not> d_allowed (call_decision (gate_mw True) (gate_token ''reader'') (gate_call ''raise'' gate_answers))"
    by code_simp
  moreover have "ms_world gate_state = 0" by code_simp
  ultimately show ?thesis
    using denied_never_reaches_handler [of "gate_mw True" "gate_call ''raise'' gate_answers"
        "gate_token ''reader''" gate_state gate_env] by fastforce
qed

text \<open>A tool marked \<open>requires_approval\<close> does not run without one: unless the parameters
  carry a state of this layer and a human's yes, the outcome of the call is the same whatever
  the handler is, and the world is untouched. Roles alone never suffice.\<close>

lemma unapproved_never_runs:
  assumes "c_method ctx = Some ''tools/call''" and "mw_enforce m"
    and "d_requires_approval (call_decision m token ctx)"
    and "check (state_of (params_of ctx)) (answers_of (params_of ctx)) \<noteq> Inr ()"
  shows "\<exists>r st'. ms_world st' = ms_world st \<and>
    (\<forall>call_next. handle m orc token ctx call_next st = (r, st'))"
  using unapproved_tool_call [OF assms(2-4), of orc st] assms(1)
  by (simp add: blocks_def handle_def)

text \<open>The middleware calls the rest of the chain at most once and on the request as it
  came, so an invariant that every handler keeps is kept by every governed request, whatever
  the method, the caller and the mode.\<close>

lemma world_invariant_kept:
  assumes "I (ms_world st)" and "\<And>w. I w \<Longrightarrow> I (snd (call_next ctx w))"
  shows "I (ms_world (snd (handle m orc token ctx call_next st))) \<and>
    ms_world (snd (handle m orc token ctx call_next st)) \<in>
      {ms_world st, snd (call_next ctx (ms_world st))}"
  using mw.world_invariant [where I = I and st = st and f = call_next and ctx = ctx] assms
    mw.world_result [where st = st and f = call_next and ctx = ctx and m = m and orc = orc and token = token]
  by auto

text \<open>C26: discovery: with enforcement on and a loaded policy, \<open>tools/list\<close> answers with
  exactly the tools the caller may call, in the order the handler listed them, and every other
  field of the result as the handler returned it, for a serialized result and for a model.\<close>

theorem tool_list_is_callable:
  assumes "c_method ctx = Some ''tools/list''" and "mw_enforce m" and "wf_policy (mw_policy m)"
  shows "fst (handle m orc token ctx call_next st) =
    (case fst (call_next ctx (ms_world st)) of
       Inl e \<Rightarrow> Inl e
     | Inr (ToolsResult tools rest) \<Rightarrow>
         Inr (ToolsResult (filter (\<lambda>t. \<exists>n. getattr_or t ''name'' PNone = PStr n \<and>
           d_allowed (decide_tool (mw_policy m) n (roles_from_token token))) tools) rest)
     | Inr (Wire (PDict d)) \<Rightarrow>
         (case dict_get d ''tools'' of
            PList tools \<Rightarrow> Inr (Wire (PDict (dict_set (PStr ''tools'') (PList (filter (\<lambda>t.
              d_allowed (decide_tool (mw_policy m) (tool_name t) (roles_from_token token))) tools)) d)))
          | _ \<Rightarrow> Inr (Wire (PDict d)))
     | Inr result \<Rightarrow> Inr result)"
proof -
  let ?vis = "visible_tools (mw_policy m) (roles_from_token token)"
  have model: "model_tool_visible ?vis =
      (\<lambda>t. \<exists>n. getattr_or t ''name'' PNone = PStr n \<and>
        d_allowed (decide_tool (mw_policy m) n (roles_from_token token)))"
    by (auto simp: model_tool_visible_def visible_tools_callable [OF assms(3)] split: pyval.splits)
  have wire: "(\<lambda>t. tool_name t \<in> ?vis) =
      (\<lambda>t. d_allowed (decide_tool (mw_policy m) (tool_name t) (roles_from_token token)))"
    by (simp add: visible_tools_callable [OF assms(3)])
  have run: "fst (handle m orc token ctx call_next st) =
      (case fst (call_next ctx (ms_world st)) of Inl e \<Rightarrow> Inl e
       | Inr result \<Rightarrow> Inr (filter_response ?vis result))"
    using assms(1,2) by (simp add: handle_def filter_tool_list_eq cong: sum.case_cong)
  have cases: "filter_response ?vis result =
      (case result of
         ToolsResult tools rest \<Rightarrow> ToolsResult (filter (model_tool_visible ?vis) tools) rest
       | Wire (PDict d) \<Rightarrow> (case dict_get d ''tools'' of
            PList tools \<Rightarrow> Wire (PDict (dict_set (PStr ''tools'')
              (PList (filter (\<lambda>t. tool_name t \<in> ?vis) tools)) d))
          | _ \<Rightarrow> Wire (PDict d))
       | r \<Rightarrow> r)" for result
    by (auto simp: filter_response_model filter_response_wire split: response.split pyval.split)
      (auto simp: filter_response_def)
  show ?thesis
    unfolding run cases model wire by (auto split: sum.split response.split pyval.split)
qed

definition list_handler :: "unit handler" where
  "list_handler ctx w = (Inr (Wire (PDict
     [(PStr ''tools'', PList [PDict [(PStr ''name'', PStr ''look'')], PDict [(PStr ''name'', PStr ''raise'')]]),
      (PStr ''nextCursor'', PStr ''c'')])), w)"

theorem tool_list_is_callable_witness:
  "fst (handle (gate_mw True) gate_env (gate_token ''reader'')
      \<lparr>c_method = Some ''tools/list'', c_params = PNone, c_protocol_version = None\<rparr> list_handler
      \<lparr>ms_sink = example_sink, ms_clock_reads = 0, ms_nonce_reads = 0, ms_world = ()\<rparr>) =
   Inr (Wire (PDict [(PStr ''tools'', PList [PDict [(PStr ''name'', PStr ''look'')]]),
     (PStr ''nextCursor'', PStr ''c'')]))"
proof -
  let ?ctx = "\<lparr>c_method = Some ''tools/list'', c_params = PNone, c_protocol_version = None\<rparr>"
    and ?st = "\<lparr>ms_sink = example_sink, ms_clock_reads = 0, ms_nonce_reads = 0, ms_world = ()\<rparr>"
  have allowed: "d_allowed (decide_tool (mw_policy (gate_mw True)) (tool_name (PDict [(PStr ''name'', PStr ''look'')]))
        (roles_from_token (gate_token ''reader'')))"
    and denied: "\<not> d_allowed (decide_tool (mw_policy (gate_mw True)) (tool_name (PDict [(PStr ''name'', PStr ''raise'')]))
        (roles_from_token (gate_token ''reader'')))"
    by code_simp+
  have "mw_enforce (gate_mw True)" by simp
  then have "fst (handle (gate_mw True) gate_env (gate_token ''reader'') ?ctx list_handler ?st) =
      Inr (Wire (PDict (dict_set (PStr ''tools'') (PList (filter (\<lambda>t.
        d_allowed (decide_tool (mw_policy (gate_mw True)) (tool_name t)
          (roles_from_token (gate_token ''reader''))))
        [PDict [(PStr ''name'', PStr ''look'')], PDict [(PStr ''name'', PStr ''raise'')]]))
        [(PStr ''tools'', PList [PDict [(PStr ''name'', PStr ''look'')], PDict [(PStr ''name'', PStr ''raise'')]]),
         (PStr ''nextCursor'', PStr ''c'')])))"
    by (subst tool_list_is_callable [OF _ _ gate_policy_wf])
      (simp_all add: list_handler_def dict_get_def dict_get_or_def)
  with allowed denied show ?thesis by simp
qed

text \<open>C27: the human sees what would run: when an enforced call needs an approval it does not
  carry, the answer is a question, under the key \<open>approval\<close>, that shows every argument of the call as \<open>name=value\<close>, opens
  with the policy's prompt for the tool, and carries a fresh pending state for that tool.\<close>

theorem question_shows_call:
  assumes "c_method ctx = Some ''tools/call''" and "mw_enforce m" and "wire_call ctx"
    and "gate_verdict m token ctx = NeedsApproval"
    and "dict_get (params_of ctx) ''name'' = PStr tool"
    and "dict_get (params_of ctx) ''arguments'' = PDict arguments"
  shows "\<exists>msg. fst (handle m orc token ctx call_next st) = Inr (InputRequired ''approval'' msg (approval_schema tool)
        (''awaiting-approval:'' @ tool @ '':'' @ nonce orc (ms_nonce_reads st))) \<and>
      prefix (approval_prompt_for m tool) msg \<and>
      (\<forall>(k, v)\<in>set arguments. sublist (py_str k @ ''='' @ py_str v) msg)"
proof -
  let ?d = "call_decision m token ctx" and ?who = "describe_principal token"
  have name: "py_str (dict_get_or (params_of ctx) ''name'' (PStr [])) = tool"
    using assms(5) by (auto simp: dict_get_def dict_get_or_def split: option.splits)
  have v: "d_allowed ?d" "d_requires_approval ?d" "\<not> truthy (answers_of (params_of ctx))"
    using assms(4) by (simp_all add: gate_verdict_iff)
  obtain st1 where audited: "audit orc ?who ''tools/call'' ?d (as_mapping (dict_get (params_of ctx) ''arguments''))
      (c_protocol_version ctx) None st = (Inr (), st1)" and n: "ms_nonce_reads st1 = ms_nonce_reads st"
    by (rule audit_wire [OF assms(3) [unfolded wire_call_def], where orc = orc and who = ?who
          and verb = "''tools/call''" and d = ?d and ver = "c_protocol_version ctx" and outcome = None
          and st = st])
  obtain msg st2 where ask: "ask_for_approval m orc tool ?who arguments st1 =
      (Inr (InputRequired APPROVAL_KEY msg (approval_schema tool) (new_pending_state (nonce orc (ms_nonce_reads st1)) tool)), st2)"
    by (rule ask_for_approval_wire [OF assms(3) [unfolded wire_call_def], where m = m and orc = orc
          and tool = tool and who = ?who and st = st1]) (auto simp: assms(6) mapping_or_empty_def)
  have "fst (handle m orc token ctx call_next st) = Inr (InputRequired ''approval'' msg (approval_schema tool)
      (''awaiting-approval:'' @ tool @ '':'' @ nonce orc (ms_nonce_reads st)))"
    unfolding handle_def guard_tool_call_def Let_def call_decision_def [symmetric]
    unfolding name audited
    using ask v assms(1,2,6) n
    by (simp add: raise_if_denied_ok check_approval_def mapping_or_empty_def new_pending_state_def
        pending_prefix_def APPROVAL_KEY_def)
  moreover have "prefix (approval_prompt_for m tool) msg"
    and "(k, v) \<in> set arguments \<Longrightarrow> sublist (py_str k @ ''='' @ py_str v) msg" for k v
    by (rule ask_for_approval_shows [OF ask]; simp)+
  ultimately show ?thesis by auto
qed

theorem question_shows_call_witness:
  "\<exists>msg. fst (handle (gate_mw True) gate_env (gate_token ''operator'') (gate_call ''raise'' [])
      count_handler gate_state) = Inr (InputRequired ''approval'' msg (approval_schema ''raise'')
        ''awaiting-approval:raise:n0'') \<and> sublist ''urgency=1'' msg"
proof -
  have "wire_call (gate_call ''raise'' [])"
    and "gate_verdict (gate_mw True) (gate_token ''operator'') (gate_call ''raise'' []) = NeedsApproval"
    and "dict_get (params_of (gate_call ''raise'' [])) ''name'' = PStr ''raise''"
    and "dict_get (params_of (gate_call ''raise'' [])) ''arguments'' = PDict [(PStr ''urgency'', PStr ''1'')]"
    by code_simp+
  note inst = question_shows_call [OF gate_call_method _ this, where orc = gate_env
      and call_next = count_handler and st = gate_state]
  have "nonce gate_env (ms_nonce_reads gate_state) = ''n0''" by code_simp
  with inst show ?thesis by auto
qed

text \<open>Callers without roles, the unauthenticated ones among them, get nothing: under a loaded
  policy every tool call and every resource read is denied to them and every tool is filtered
  from the list.\<close>

lemma no_roles_no_access:
  assumes "wf_policy (mw_policy m)" and "token = None \<or> roles_from_token token = []"
  shows "\<not> d_allowed (call_decision m token ctx) \<and> \<not> d_allowed (read_decision m token ctx) \<and>
    gate_verdict m token ctx = Denied \<and> visible_tools (mw_policy m) (roles_from_token token) = {}"
proof -
  have "roles_from_token token = []" using assms(2) by (auto simp: roles_from_token_def)
  with tool_auth.no_roles_denied [OF assms(1)] resource_auth.no_roles_denied [OF assms(1)]
  show ?thesis
    by (simp add: call_decision_def read_decision_def gate_verdict_iff visible_tools_def)
qed

end
