(* ===== verification/ServiceNow.thy ===== *)
theory ServiceNow
  imports PyValue
begin

text \<open>
  \<open>governance/servicenow.py\<close>: the record types, the projection of a Table API record, the
  in-process mock and the live backend. A backend is a record of its three operations over
  its own state. The HTTP client is a parameter of the live backend, a function from the
  request and the network's state to a response; the wall clock of the mock is a parameter
  read once per incident; the process environment is a map.
\<close>

section \<open>Data\<close>

record incident =
  inc_number :: string
  inc_sys_id :: string
  inc_short_description :: string
  inc_state :: string
  inc_urgency :: string
  inc_configuration_item :: string
  inc_opened_at :: string

record configuration_item =
  ci_name :: string
  ci_sys_id :: string
  ci_class :: string
  ci_operational_status :: string

text \<open>\<open>record.get(k, default)\<close>, and the value under a key that need not be there.\<close>

definition record_get :: "pyval \<Rightarrow> string \<Rightarrow> pyval \<Rightarrow> exn + pyval" where
  "record_get v k dflt =
     (case as_mapping v of
        None \<Rightarrow> Inl (Foreign ''AttributeError'' ''get'')
      | Some d \<Rightarrow> Inr (dict_get_or d k dflt))"

definition from_record :: "pyval \<Rightarrow> exn + incident" where
  "from_record record =
     (case as_mapping record of
        None \<Rightarrow> Inl (Foreign ''AttributeError'' ''get'')
      | Some d \<Rightarrow>
          let field = (\<lambda>k. py_str (dict_get_or d k (PStr [])));
              ci0 = dict_get d ''cmdb_ci'';
              ci = (case as_mapping ci0 of
                      Some c \<Rightarrow> py_or (dict_get c ''display_value'') (dict_get c ''value'')
                    | None \<Rightarrow> ci0)
          in Inr \<lparr>inc_number = field ''number'', inc_sys_id = field ''sys_id'',
                inc_short_description = field ''short_description'', inc_state = field ''state'',
                inc_urgency = field ''urgency'', inc_configuration_item = py_str (py_or ci (PStr [])),
                inc_opened_at = field ''opened_at''\<rparr>)"

text \<open>The protocol both backends satisfy.\<close>

record 's servicenow =
  sn_find :: "string \<Rightarrow> 's \<Rightarrow> (exn + configuration_item option) \<times> 's"
  sn_search :: "string option \<Rightarrow> bool \<Rightarrow> int \<Rightarrow> 's \<Rightarrow> (exn + incident list) \<times> 's"
  sn_create :: "string \<Rightarrow> string \<Rightarrow> string \<Rightarrow> string \<Rightarrow> 's \<Rightarrow> (exn + incident) \<times> 's"

section \<open>The live backend\<close>

definition ENV_INSTANCE :: string where "ENV_INSTANCE = ''SERVICENOW_INSTANCE''"
definition ENV_USER :: string where "ENV_USER = ''SERVICENOW_USER''"
definition ENV_PASSWORD :: string where "ENV_PASSWORD = ''SERVICENOW_PASSWORD''"

record live =
  lv_instance :: string
  lv_user :: string
  lv_password :: string
  lv_timeout_seconds :: rat

definition from_environment :: "(string \<Rightarrow> string option) \<Rightarrow> exn + live" where
  "from_environment env =
     (let unset = (\<lambda>k. case env k of None \<Rightarrow> True | Some v \<Rightarrow> v = []);
          missing = filter unset [ENV_INSTANCE, ENV_USER, ENV_PASSWORD]
      in if missing \<noteq> []
         then Inl (ServiceNowError (''ServiceNow credentials missing: '' @ join '', '' missing @
           ''. Set them, or run with the default mock backend.''))
         else Inr \<lparr>lv_instance = removesuffix (strip (the (env ENV_INSTANCE))) ''/'',
                lv_user = the (env ENV_USER), lv_password = the (env ENV_PASSWORD),
                lv_timeout_seconds = 15\<rparr>)"

definition base_url :: "live \<Rightarrow> string" where
  "base_url c =
     (if startswith (lv_instance c) ''http'' then lv_instance c @ ''/api/now/table''
      else ''https://'' @ lv_instance c @ ''.service-now.com/api/now/table'')"

text \<open>A request as the client sends it; a response by its status and what parsing its body gives.\<close>

record http_request =
  hr_method :: string
  hr_url :: string
  hr_auth :: "string \<times> string"
  hr_headers :: "(string \<times> string) list"
  hr_timeout :: rat
  hr_params :: "(string \<times> string) list option"
  hr_json :: "(string \<times> string) list option"

record http_response =
  hs_status :: int
  hs_json :: "exn + pyval"

text \<open>An \<open>HTTPError\<close> by its class name, or any other exception of the client.\<close>

datatype http_failure = HttpError string | OtherFailure exn

type_synonym 'n http_client = "http_request \<Rightarrow> 'n \<Rightarrow> (http_failure + http_response) \<times> 'n"

definition request_of ::
  "live \<Rightarrow> string \<Rightarrow> string \<Rightarrow> (string \<times> string) list option \<Rightarrow> (string \<times> string) list option \<Rightarrow> http_request"
where
  "request_of c method table params json =
     \<lparr>hr_method = method, hr_url = base_url c @ ''/'' @ table, hr_auth = (lv_user c, lv_password c),
      hr_headers = [(''Accept'', ''application/json''), (''Content-Type'', ''application/json'')],
      hr_timeout = lv_timeout_seconds c, hr_params = params, hr_json = json\<rparr>"

definition read_response :: "string \<Rightarrow> http_failure + http_response \<Rightarrow> exn + pyval" where
  "read_response table r =
     (case r of
        Inl (HttpError name) \<Rightarrow> Inl (ServiceNowError (''ServiceNow request failed: '' @ name))
      | Inl (OtherFailure e) \<Rightarrow> Inl e
      | Inr response \<Rightarrow>
          if hs_status response = 401
          then Inl (ServiceNowError ''ServiceNow rejected the credentials (401)'')
          else if 400 \<le> hs_status response
          then Inl (ServiceNowError (''ServiceNow returned '' @ int_str (hs_status response) @
            '' for '' @ table))
          else bindE (hs_json response) (\<lambda>v. record_get v ''result'' (PList [])))"

definition live_request ::
  "'n http_client \<Rightarrow> live \<Rightarrow> string \<Rightarrow> string \<Rightarrow> (string \<times> string) list option
    \<Rightarrow> (string \<times> string) list option \<Rightarrow> 'n \<Rightarrow> (exn + pyval) \<times> 'n"
where
  "live_request client c method table params json net =
     (let (r, net') = client (request_of c method table params json) net
      in (read_response table r, net'))"

text \<open>\<open>records[0]\<close> of a non-empty value.\<close>

definition first_item :: "pyval \<Rightarrow> exn + pyval" where
  "first_item v =
     (case v of
        PList (x # xs) \<Rightarrow> Inr x
      | PTuple (x # xs) \<Rightarrow> Inr x
      | PStr (c # cs) \<Rightarrow> Inr (PStr [c])
      | PDict d \<Rightarrow> (case map_of d (PInt 0) of Some x \<Rightarrow> Inr x | None \<Rightarrow> Inl KeyError)
      | _ \<Rightarrow> Inl TypeError)"

definition item_of_record :: "pyval \<Rightarrow> exn + configuration_item" where
  "item_of_record record =
     (case as_mapping record of
        None \<Rightarrow> Inl (Foreign ''AttributeError'' ''get'')
      | Some d \<Rightarrow>
          let field = (\<lambda>k. py_str (dict_get_or d k (PStr [])))
          in Inr \<lparr>ci_name = field ''name'', ci_sys_id = field ''sys_id'',
                ci_class = field ''sys_class_name'',
                ci_operational_status = field ''operational_status''\<rparr>)"

definition live_find :: "'n http_client \<Rightarrow> live \<Rightarrow> string \<Rightarrow> 'n \<Rightarrow> (exn + configuration_item option) \<times> 'n" where
  "live_find client c name net =
     bindS (live_request client c ''GET'' ''cmdb_ci''
         (Some [(''sysparm_query'', ''name='' @ name), (''sysparm_limit'', ''1'')]) None net)
       (\<lambda>records net.
         if \<not> truthy records then (Inr None, net)
         else (bindE (first_item records) (\<lambda>r. bindE (item_of_record r) (\<lambda>i. Inr (Some i))), net))"

definition search_clauses :: "string option \<Rightarrow> bool \<Rightarrow> string list" where
  "search_clauses ci active_only =
     (case ci of Some c \<Rightarrow> if c \<noteq> [] then [''cmdb_ci.name='' @ c] else [] | None \<Rightarrow> []) @
     (if active_only then [''active=true''] else [])"

definition search_query :: "string option \<Rightarrow> bool \<Rightarrow> string" where
  "search_query ci active_only =
     (let q = join ''^'' (search_clauses ci active_only)
      in if q \<noteq> [] then q else ''active=true'')"

fun map_results :: "('a \<Rightarrow> 'e + 'b) \<Rightarrow> 'a list \<Rightarrow> 'e + 'b list" where
  "map_results f [] = Inr []"
| "map_results f (x # xs) = bindE (f x) (\<lambda>y. bindE (map_results f xs) (\<lambda>ys. Inr (y # ys)))"

definition live_search ::
  "'n http_client \<Rightarrow> live \<Rightarrow> string option \<Rightarrow> bool \<Rightarrow> int \<Rightarrow> 'n \<Rightarrow> (exn + incident list) \<times> 'n"
where
  "live_search client c ci active_only limit net =
     bindS (live_request client c ''GET'' ''incident''
         (Some [(''sysparm_query'', search_query ci active_only),
                (''sysparm_limit'', int_str limit), (''sysparm_display_value'', ''true'')]) None net)
       (\<lambda>records net. (bindE (py_list records) (map_results from_record), net))"

definition live_create ::
  "'n http_client \<Rightarrow> live \<Rightarrow> string \<Rightarrow> string \<Rightarrow> string \<Rightarrow> string \<Rightarrow> 'n \<Rightarrow> (exn + incident) \<times> 'n"
where
  "live_create client c short_description ci urgency description net =
     bindS (live_request client c ''POST'' ''incident'' None
         (Some [(''short_description'', short_description), (''description'', description),
                (''cmdb_ci'', ci), (''urgency'', urgency), (''category'', ''inquiry'')]) net)
       (\<lambda>record net.
         (from_record (case record of PDict d \<Rightarrow> record | _ \<Rightarrow> PDict []), net))"

definition live_servicenow :: "'n http_client \<Rightarrow> live \<Rightarrow> 'n servicenow" where
  "live_servicenow client c =
     \<lparr>sn_find = live_find client c, sn_search = live_search client c, sn_create = live_create client c\<rparr>"

section \<open>The mock backend\<close>

record mock =
  mk_incidents :: "incident list"
  mk_items :: "(string \<times> configuration_item) list"
  mk_counter :: nat

definition seed_items :: "(string \<times> configuration_item) list" where
  "seed_items =
     [(''CI-WMS-01'', \<lparr>ci_name = ''CI-WMS-01'', ci_sys_id = ''a1b2c3d4'',
        ci_class = ''cmdb_ci_appl'', ci_operational_status = ''1''\<rparr>),
      (''CI-TMS-02'', \<lparr>ci_name = ''CI-TMS-02'', ci_sys_id = ''e5f6a7b8'',
        ci_class = ''cmdb_ci_appl'', ci_operational_status = ''1''\<rparr>)]"

definition seed_incident :: incident where
  "seed_incident =
     \<lparr>inc_number = ''INC0010001'', inc_sys_id = ''11111111'',
      inc_short_description = ''WMS batch job latency above threshold'', inc_state = ''2'',
      inc_urgency = ''2'', inc_configuration_item = ''CI-WMS-01'',
      inc_opened_at = ''2026-07-30 08:14:02''\<rparr>"

definition init_mock :: "incident list \<Rightarrow> (string \<times> configuration_item) list \<Rightarrow> mock" where
  "init_mock incidents items =
     \<lparr>mk_incidents = (if incidents = [] then [seed_incident] else incidents),
      mk_items = (if items = [] then seed_items else items), mk_counter = 0\<rparr>"

definition mock_find :: "string \<Rightarrow> mock \<Rightarrow> (exn + configuration_item option) \<times> mock" where
  "mock_find name s = (Inr (map_of (mk_items s) name), s)"

definition mock_matches :: "string option \<Rightarrow> bool \<Rightarrow> incident \<Rightarrow> bool" where
  "mock_matches ci active_only i \<longleftrightarrow>
     (ci = None \<or> Some (inc_configuration_item i) = ci) \<and>
     (\<not> active_only \<or> inc_state i \<notin> {''6'', ''7''})"

definition mock_search :: "string option \<Rightarrow> bool \<Rightarrow> int \<Rightarrow> mock \<Rightarrow> (exn + incident list) \<times> mock" where
  "mock_search ci active_only limit s =
     (Inr (py_take limit (filter (mock_matches ci active_only) (mk_incidents s))), s)"

definition mock_number :: "nat \<Rightarrow> string" where
  "mock_number n = ''INC00200'' @ nat_pad 2 n"

definition mock_create ::
  "(nat \<Rightarrow> string) \<Rightarrow> string \<Rightarrow> string \<Rightarrow> string \<Rightarrow> string \<Rightarrow> mock \<Rightarrow> (exn + incident) \<times> mock"
where
  "mock_create clock short_description ci urgency description s =
     (if map_of (mk_items s) ci = None
      then (Inl (ServiceNowError (''no configuration item named '' @ repr_str ci)), s)
      else
        (let n = Suc (mk_counter s);
             incident =
               \<lparr>inc_number = mock_number n, inc_sys_id = ''mock'' @ nat_pad 8 n,
                inc_short_description = short_description, inc_state = ''1'',
                inc_urgency = urgency, inc_configuration_item = ci, inc_opened_at = clock n\<rparr>
         in (Inr incident, s\<lparr>mk_incidents := mk_incidents s @ [incident], mk_counter := n\<rparr>)))"

definition mock_servicenow :: "(nat \<Rightarrow> string) \<Rightarrow> mock servicenow" where
  "mock_servicenow clock =
     \<lparr>sn_find = mock_find, sn_search = mock_search, sn_create = mock_create clock\<rparr>"

text \<open>\<open>build\<close>: which backend a server runs on, and the line it logs.\<close>

datatype backend_kind = MockBackend | LiveBackend

datatype built = BuiltMock mock | BuiltLive live

definition build_backend :: "backend_kind \<Rightarrow> (string \<Rightarrow> string option) \<Rightarrow> exn + built \<times> string" where
  "build_backend kind env =
     (case kind of
        LiveBackend \<Rightarrow>
          bindE (from_environment env) (\<lambda>c.
            Inr (BuiltLive c, ''ServiceNow connector: live instance '' @ lv_instance c))
      | MockBackend \<Rightarrow>
          Inr (BuiltMock (init_mock [] []),
            ''ServiceNow connector: in-process mock (no credentials in use)''))"


section \<open>What the tools rely on\<close>

text \<open>
  The contract of a backend that is a log of incidents over a fixed CMDB: looking up and
  searching read it and change nothing; creating appends one open incident for a known
  configuration item, and fails without a trace for an unknown one.
\<close>

locale incident_backend =
  fixes backend :: "'s servicenow"
    and journal :: "'s \<Rightarrow> incident list"
    and cmdb :: "'s \<Rightarrow> string \<Rightarrow> configuration_item option"
  assumes find: "sn_find backend name s = (Inr (cmdb s name), s)"
    and search: "sn_search backend wanted active_only limit s =
      (Inr (py_take limit (filter (mock_matches wanted active_only) (journal s))), s)"
    and create_known: "cmdb s ci \<noteq> None \<Longrightarrow>
      \<exists>i s'. sn_create backend sd ci urgency description s = (Inr i, s') \<and>
        journal s' = journal s @ [i] \<and> cmdb s' = cmdb s \<and> inc_configuration_item i = ci \<and>
        inc_short_description i = sd \<and> inc_urgency i = urgency \<and> inc_state i \<notin> {''6'', ''7''}"
    and create_unknown: "cmdb s ci = None \<Longrightarrow>
      \<exists>m. sn_create backend sd ci urgency description s = (Inl (ServiceNowError m), s)"
begin

lemma search_sound:
  "sn_search backend ci active_only limit s = (Inr found, s') \<Longrightarrow>
   s' = s \<and> set found \<subseteq> set (journal s) \<and> (\<forall>i\<in>set found. mock_matches ci active_only i)"
  using set_py_take [of limit "filter (mock_matches ci active_only) (journal s)"]
  by (auto simp: search)

lemma search_complete:
  "i \<in> set (journal s) \<Longrightarrow> mock_matches ci active_only i \<Longrightarrow>
   int (length (journal s)) \<le> limit \<Longrightarrow>
   \<exists>found. sn_search backend ci active_only limit s = (Inr found, s) \<and> i \<in> set found"
  using le_trans [OF length_filter_le [of "mock_matches ci active_only" "journal s"], of "nat limit"]
  by (simp add: search py_take_def nat_le_iff le_nat_iff)

lemma open_after_create:
  assumes "sn_create backend sd ci urgency description s = (Inr i, s')"
  shows "filter (mock_matches (Some ci) True) (journal s') =
      filter (mock_matches (Some ci) True) (journal s) @ [i]" and "cmdb s' = cmdb s"
proof -
  have known: "cmdb s ci \<noteq> None"
    using create_unknown [of s ci sd urgency description] assms by auto
  from create_known [OF this, of sd urgency description] assms
  have j: "journal s' = journal s @ [i]" and c: "cmdb s' = cmdb s"
    and "inc_configuration_item i = ci" and "inc_state i \<notin> {''6'', ''7''}"
    by auto
  then show "filter (mock_matches (Some ci) True) (journal s') =
      filter (mock_matches (Some ci) True) (journal s) @ [i]"
    by (simp add: mock_matches_def)
  show "cmdb s' = cmdb s" by (rule c)
qed

end

text \<open>
  Less is enough for the flow of an incident: the three calls the tools make, for names that a
  query can carry (\<open>plain\<close>), over the active incidents of a system as a multiset. A search
  returns some of them, at most ten, in an order of its own and in the form the backend shows
  them in; a creation answers with the number and the urgency of an incident that is then
  among them.
\<close>

locale incident_tracker =
  fixes backend :: "'s servicenow"
    and active :: "'s \<Rightarrow> string \<Rightarrow> incident multiset"
    and shown :: "incident \<Rightarrow> incident"
    and cmdb :: "'s \<Rightarrow> string \<Rightarrow> configuration_item option"
    and plain :: "string \<Rightarrow> bool"
  assumes shown_number: "inc_number (shown i) = inc_number i"
    and find_plain: "plain name \<Longrightarrow> sn_find backend name s = (Inr (cmdb s name), s)"
    and active_plain: "plain ci \<Longrightarrow>
      \<exists>found. sn_search backend (Some ci) True 10 s = (Inr (map shown found), s) \<and>
        mset found \<subseteq># active s ci \<and> length found = min 10 (size (active s ci)) \<and>
        list_all (\<lambda>i. inc_configuration_item (shown i) = ci) found"
    and create_plain: "plain ci \<Longrightarrow> cmdb s ci \<noteq> None \<Longrightarrow>
      \<exists>i j s'. sn_create backend sd ci urgency description s = (Inr i, s') \<and>
        j \<in># active s' ci \<and> cmdb s' = cmdb s \<and> inc_number i = inc_number j \<and> inc_urgency i = urgency"

sublocale incident_backend < tracker: incident_tracker backend
  "\<lambda>s ci. mset (filter (mock_matches (Some ci) True) (journal s))" "\<lambda>i. i" cmdb "\<lambda>_. True"
proof unfold_locales
  fix ci :: string and s :: 's
  let ?all = "filter (mock_matches (Some ci) True) (journal s)"
  have "mset (take 10 ?all) \<subseteq># mset ?all" by (rule mset_subset_eq_take)
  moreover have "list_all (\<lambda>i. inc_configuration_item i = ci) (take 10 ?all)"
    by (auto simp: list_all_iff mock_matches_def dest: in_set_takeD)
  ultimately show "\<exists>found. sn_search backend (Some ci) True 10 s = (Inr (map (\<lambda>i. i) found), s) \<and>
      mset found \<subseteq># mset ?all \<and> length found = min 10 (size (mset ?all)) \<and>
      list_all (\<lambda>i. inc_configuration_item i = ci) found"
    by (intro exI [of _ "take 10 ?all"]) (simp add: search py_take_def min.commute del: mset_filter)
next
  fix ci sd urgency description :: string and s :: 's
  assume "cmdb s ci \<noteq> None"
  from create_known [OF this, of sd urgency description] obtain i s' where
    "sn_create backend sd ci urgency description s = (Inr i, s')" and "journal s' = journal s @ [i]"
    and "cmdb s' = cmdb s" and "inc_configuration_item i = ci" and "inc_urgency i = urgency"
    and "inc_state i \<notin> {''6'', ''7''}" by blast
  then show "\<exists>i j s'. sn_create backend sd ci urgency description s = (Inr i, s') \<and>
      j \<in># mset (filter (mock_matches (Some ci) True) (journal s')) \<and> cmdb s' = cmdb s \<and>
      inc_number i = inc_number j \<and> inc_urgency i = urgency"
    by (intro exI [of _ i] exI [of _ s']) (simp add: mock_matches_def)
qed (simp_all add: find)

text \<open>Less is enough for looking: a backend whose two lookups leave its state alone.\<close>

locale backend_reader =
  fixes backend :: "'s servicenow"
  assumes find_keeps: "snd (sn_find backend name s) = s"
    and search_keeps: "snd (sn_search backend wanted active_only limit s) = s"

sublocale incident_backend < backend_reader
  by unfold_locales (simp_all add: find search)

interpretation mock: incident_backend "mock_servicenow clock" mk_incidents "\<lambda>s. map_of (mk_items s)"
  for clock
  by unfold_locales
    (simp_all add: mock_servicenow_def mock_find_def mock_search_def mock_create_def Let_def)

text \<open>The live backend reads as far as the instance does: when a GET changes nothing there.\<close>

definition safe_gets :: "'n http_client \<Rightarrow> bool" where
  "safe_gets client \<longleftrightarrow> (\<forall>req net. hr_method req = ''GET'' \<longrightarrow> snd (client req net) = net)"

lemma bindS_result: "snd (bindS x (\<lambda>a s. (f a, s))) = snd x"
  by (cases x; cases "fst x") auto

lemma live_request_get: "safe_gets client \<Longrightarrow> snd (live_request client c ''GET'' table params json net) = net"
  by (simp add: live_request_def safe_gets_def request_of_def split_beta)

lemma live_reader: "safe_gets client \<Longrightarrow> backend_reader (live_servicenow client c)"
proof
  assume safe: "safe_gets client"
  fix name :: string and wanted active_only limit and net :: 'a
  have find: "live_find client c name net =
      bindS (live_request client c ''GET'' ''cmdb_ci''
          (Some [(''sysparm_query'', ''name='' @ name), (''sysparm_limit'', ''1'')]) None net)
        (\<lambda>records net. (if \<not> truthy records then Inr None
           else bindE (first_item records) (\<lambda>r. bindE (item_of_record r) (\<lambda>i. Inr (Some i))), net))"
    unfolding live_find_def by (rule arg_cong [where f = "bindS _"]) (simp add: fun_eq_iff)
  show "snd (sn_find (live_servicenow client c) name net) = net"
    by (simp add: live_servicenow_def find bindS_result live_request_get [OF safe])
  show "snd (sn_search (live_servicenow client c) wanted active_only limit net) = net"
    by (simp add: live_servicenow_def live_search_def bindS_result live_request_get [OF safe])
qed

section \<open>The life of a mock\<close>

text \<open>The states of a mock built by \<open>build\<close>: each step creates an incident, or fails to.\<close>

inductive mock_reachable :: "(nat \<Rightarrow> string) \<Rightarrow> mock \<Rightarrow> bool" for clock where
  mock_init: "mock_reachable clock (init_mock [] [])"
| mock_step: "mock_reachable clock s \<Longrightarrow>
    mock_reachable clock (snd (mock_create clock sd ci urgency description s))"

definition mock_inv :: "mock \<Rightarrow> bool" where
  "mock_inv s \<longleftrightarrow>
     map inc_number (mk_incidents s) = ''INC0010001'' # map mock_number [1..<Suc (mk_counter s)] \<and>
     map inc_sys_id (mk_incidents s) =
       ''11111111'' # map (\<lambda>n. ''mock'' @ nat_pad 8 n) [1..<Suc (mk_counter s)] \<and>
     mk_items s = seed_items"

lemma mock_inv_init: "mock_inv (init_mock [] [])"
  by (simp add: mock_inv_def init_mock_def seed_incident_def)

lemma mock_inv_create: "mock_inv s \<Longrightarrow> mock_inv (snd (mock_create clock sd ci urgency description s))"
  by (simp add: mock_inv_def mock_create_def Let_def)

lemma mock_reachable_inv: "mock_reachable clock s \<Longrightarrow> mock_inv s"
  by (induction rule: mock_reachable.induct) (simp_all add: mock_inv_init mock_inv_create)

lemma mock_number_inj: "mock_number m = mock_number n \<longleftrightarrow> m = n"
  by (simp add: mock_number_def nat_pad_inj)

lemma mock_number_seed: "mock_number n \<noteq> ''INC0010001''"
  by (simp add: mock_number_def)

lemma mock_inv_distinct:
  assumes "mock_inv s"
  shows "distinct (map inc_number (mk_incidents s))" and "distinct (map inc_sys_id (mk_incidents s))"
proof -
  have "inj_on mock_number A" for A by (simp add: inj_on_def mock_number_inj)
  with assms mock_number_seed show "distinct (map inc_number (mk_incidents s))"
    by (simp add: mock_inv_def distinct_map del: upt_Suc) (metis imageE)
  have "inj_on (\<lambda>n. ''mock'' @ nat_pad 8 n) A" for A by (simp add: inj_on_def nat_pad_inj)
  with assms show "distinct (map inc_sys_id (mk_incidents s))"
    by (simp add: mock_inv_def distinct_map del: upt_Suc) auto
qed

section \<open>The live queries\<close>

lemma search_clauses_no_caret:
  "(\<And>c. ci = Some c \<Longrightarrow> CHR ''^'' \<notin> set c) \<Longrightarrow> p \<in> set (search_clauses ci a) \<Longrightarrow> CHR ''^'' \<notin> set p"
  by (auto simp: search_clauses_def split: option.splits if_splits)

lemma join_nonempty: "ps \<noteq> [] \<Longrightarrow> (\<And>p. p \<in> set ps \<Longrightarrow> p \<noteq> []) \<Longrightarrow> join sep ps \<noteq> []"
  by (cases "(sep, ps)" rule: join.cases) auto

lemma search_query_split:
  assumes "\<And>c. ci = Some c \<Longrightarrow> CHR ''^'' \<notin> set c"
  shows "split_on (CHR ''^'') (search_query ci a) =
    (if search_clauses ci a = [] then [''active=true''] else search_clauses ci a)"
proof (cases "search_clauses ci a = []")
  case True
  then show ?thesis by (simp add: search_query_def)
next
  case False
  moreover have "p \<noteq> []" if "p \<in> set (search_clauses ci a)" for p
    using that by (auto simp: search_clauses_def split: option.splits if_splits)
  ultimately have "join ''^'' (search_clauses ci a) \<noteq> []" by (rule join_nonempty)
  moreover have "split_on (CHR ''^'') (join ''^'' (search_clauses ci a)) = search_clauses ci a"
    by (rule split_on_join [OF False]) (rule search_clauses_no_caret [OF assms])
  ultimately show ?thesis by (simp add: search_query_def False)
qed

text \<open>
  A caret in the name ends the clause: the rest is a clause of its own. And without a
  configuration item the flag \<open>active_only\<close> makes no difference.
\<close>

lemma search_query_injection:
  "CHR ''^'' \<notin> set c \<Longrightarrow> CHR ''^'' \<notin> set extra \<Longrightarrow>
   split_on (CHR ''^'') (search_query (Some (c @ ''^'' @ extra)) True) =
     [''cmdb_ci.name='' @ c, extra, ''active=true'']"
  by (simp add: search_query_def search_clauses_def split_on_append split_on_no_sep)

lemma search_query_ignores_inactive: "search_query None False = search_query None True"
  by (simp add: search_query_def search_clauses_def)

section \<open>What a failure says\<close>

text \<open>Two outcomes of the HTTP client that are the same failure: bodies may differ.\<close>

definition same_failure :: "http_failure + http_response \<Rightarrow> http_failure + http_response \<Rightarrow> bool" where
  "same_failure a b \<longleftrightarrow>
     (case (a, b) of
        (Inl (HttpError m), Inl (HttpError n)) \<Rightarrow> m = n
      | (Inr r, Inr r') \<Rightarrow> 400 \<le> hs_status r \<and> hs_status r' = hs_status r
      | _ \<Rightarrow> False)"

lemma read_response_failure:
  "same_failure a b \<Longrightarrow> read_response table a = read_response table b \<and>
     (\<exists>m. read_response table a = Inl (ServiceNowError m))"
  by (auto simp: same_failure_def read_response_def split: sum.splits http_failure.splits)

lemma from_environment_ok:
  "is_ok (from_environment env) \<longleftrightarrow>
     env ENV_INSTANCE \<notin> {None, Some []} \<and> env ENV_USER \<notin> {None, Some []} \<and>
     env ENV_PASSWORD \<notin> {None, Some []}"
  by (auto simp: from_environment_def Let_def split: option.splits)

text \<open>The columns of a record that reach an incident.\<close>

definition exposed_columns :: "string list" where
  "exposed_columns = [''number'', ''sys_id'', ''short_description'', ''state'', ''urgency'',
     ''cmdb_ci'', ''opened_at'']"

lemma from_record_columns:
  assumes "\<And>k. k \<in> set exposed_columns \<Longrightarrow> map_of d (PStr k) = map_of d' (PStr k)"
  shows "from_record (PDict d) = from_record (PDict d')"
  using assms by (simp add: from_record_def dict_get_def dict_get_or_def exposed_columns_def)

section \<open>Properties\<close>

text \<open>C37: incident numbers and sys_ids of the mock are unique: in every state a mock can reach,
  however many incidents were created or refused, no two of its incidents share a number or a
  sys_id, also past the width of the number format.\<close>

theorem mock_identifiers_unique:
  assumes "mock_reachable clock s"
  shows "distinct (map inc_number (mk_incidents s)) \<and> distinct (map inc_sys_id (mk_incidents s))"
  using mock_inv_distinct [OF mock_reachable_inv [OF assms]] by simp

theorem mock_identifiers_unique_witness:
  "distinct (map inc_number (mk_incidents
     (snd (mock_create (\<lambda>n. ''now'') ''late'' ''CI-WMS-01'' ''1'' [] (init_mock [] [])))))"
  using mock_identifiers_unique [OF mock_step [OF mock_init [of "\<lambda>n. ''now''"],
        of "''late''" "''CI-WMS-01''" "''1''" "[]"]] by simp

text \<open>C38: a failed call to the live instance discloses nothing: two calls that fail the same
  way (the same class of HTTP error, or the same status of 400 or more) raise the same
  \<open>ServiceNowError\<close>, whatever the credentials, the request sent, the response body and the
  state of the network.\<close>

theorem live_failure_discloses_nothing:
  assumes "same_failure (fst (client (request_of c method table params json) net))
      (fst (client' (request_of c' method' table params' json') net'))"
  shows "\<exists>m. fst (live_request client c method table params json net) = Inl (ServiceNowError m) \<and>
    fst (live_request client' c' method' table params' json' net') = Inl (ServiceNowError m)"
  using read_response_failure [OF assms, of table]
  by (auto simp: live_request_def split: prod.splits)

definition example_live :: "string \<Rightarrow> live" where
  "example_live pw = \<lparr>lv_instance = ''dev1'', lv_user = ''u'', lv_password = pw, lv_timeout_seconds = 15\<rparr>"

definition echo_client :: "unit http_client" where
  "echo_client r net =
     (Inr \<lparr>hs_status = 403, hs_json = Inr (PDict [(PStr ''error'', PStr (snd (hr_auth r)))])\<rparr>, net)"

theorem live_failure_discloses_nothing_witness:
  "\<exists>m. fst (live_request echo_client (example_live ''one'') ''GET'' ''incident'' None None ()) =
      Inl (ServiceNowError m) \<and>
    fst (live_request echo_client (example_live ''two'') ''GET'' ''incident'' None None ()) =
      Inl (ServiceNowError m)"
  by (rule live_failure_discloses_nothing) (simp add: same_failure_def echo_client_def)

end
