(* ===== verification/DevIdp.thy ===== *)
theory DevIdp
  imports Verifier
begin

text \<open>
  \<open>governance/devidp.py\<close>: the development identity provider. RSA, PEM, PyJWT, the hash and
  the UUID function are code outside the repository: a record of functions on an abstract key
  type. The file that keeps the key is part of a small file system (contents and modes), the
  clock and the freshly generated key are arguments.
\<close>

section \<open>Constants and data\<close>

definition DEV_TENANT_ID :: string where
  "DEV_TENANT_ID = ''00000000-0000-0000-0000-000000000000''"

definition DEV_ISSUER :: string where
  "DEV_ISSUER = ''https://login.microsoftonline.local/'' @ DEV_TENANT_ID @ ''/v2.0''"

definition DEV_AUDIENCE :: string where
  "DEV_AUDIENCE = ''api://governed-mcp-server''"

definition DEV_CLIENT_ID :: string where
  "DEV_CLIENT_ID = ''11111111-1111-1111-1111-111111111111''"

definition DEV_KEY_PATH :: string where
  "DEV_KEY_PATH = ''.devidp-key.pem''"

record 'k devidp =
  di_issuer :: string
  di_audience :: string
  di_key_path :: "string option"
  di_key_id :: string
  di_private_key :: 'k

text \<open>
  \<open>load_pem\<close> gives \<open>None\<close> for a key that is not RSA and raises for anything unreadable;
  \<open>fingerprint\<close> is the hexadecimal SHA-256 of the public key's DER form; \<open>public_jwk\<close> is
  the parsed output of \<open>RSAAlgorithm.to_jwk\<close>; \<open>encode\<close> takes the claims, the key and the
  algorithm, both \<open>None\<close> for an unsigned token, and the extra headers.
\<close>

record ('k, 'b, 't) crypto =
  load_pem :: "'b \<Rightarrow> exn + 'k option"
  to_pem :: "'k \<Rightarrow> 'b"
  fingerprint :: "'k \<Rightarrow> string"
  public_jwk :: "'k \<Rightarrow> pydict"
  encode :: "pydict \<Rightarrow> 'k option \<Rightarrow> string option \<Rightarrow> pydict \<Rightarrow> 't"
  uuid5_hex :: "string \<Rightarrow> string"

record 'b files =
  fs_content :: "string \<Rightarrow> 'b option"
  fs_mode :: "string \<Rightarrow> nat"

section \<open>The key\<close>

definition load_or_generate ::
  "('k, 'b, 't) crypto \<Rightarrow> 'k \<Rightarrow> string option \<Rightarrow> 'b files \<Rightarrow> (exn + 'k) \<times> 'b files"
where
  "load_or_generate c fresh key_path fs =
     (case key_path of
        None \<Rightarrow> (Inr fresh, fs)
      | Some path \<Rightarrow>
          (case fs_content fs path of
             Some bytes \<Rightarrow>
               (bindE (load_pem c bytes) (\<lambda>k. case k of None \<Rightarrow> Inl TypeError | Some key \<Rightarrow> Inr key), fs)
           | None \<Rightarrow>
               (Inr fresh,
                fs\<lparr>fs_content := (fs_content fs)(path \<mapsto> to_pem c fresh),
                   fs_mode := (fs_mode fs)(path := 384)\<rparr>)))"

text \<open>\<open>0o600\<close> is 384. The dataclass constructor with \<open>__post_init__\<close>:\<close>

definition init_devidp ::
  "('k, 'b, 't) crypto \<Rightarrow> 'k \<Rightarrow> string \<Rightarrow> string \<Rightarrow> string option \<Rightarrow> string \<Rightarrow> 'b files
    \<Rightarrow> (exn + 'k devidp) \<times> 'b files"
where
  "init_devidp c fresh issuer audience key_path key_id fs =
     bindS (load_or_generate c fresh key_path fs) (\<lambda>key fs.
       (Inr \<lparr>di_issuer = issuer, di_audience = audience, di_key_path = key_path,
          di_key_id = (if key_id = [] then take 32 (fingerprint c key) else key_id),
          di_private_key = key\<rparr>, fs))"

definition published_jwk :: "('k, 'b, 't) crypto \<Rightarrow> string \<Rightarrow> 'k \<Rightarrow> pydict" where
  "published_jwk c kid key =
     dict_set (PStr ''alg'') (PStr ''RS256'') (dict_set (PStr ''use'') (PStr ''sig'')
       (dict_set (PStr ''kid'') (PStr kid) (public_jwk c key)))"

definition jwks :: "('k, 'b, 't) crypto \<Rightarrow> 'k devidp \<Rightarrow> pydict" where
  "jwks c idp =
     [(PStr ''keys'', PList [PDict (published_jwk c (di_key_id idp) (di_private_key idp))])]"

section \<open>Tokens\<close>

text \<open>The keyword arguments of \<open>issue\<close>, with their defaults in \<open>issue_defaults\<close>.\<close>

record 'k issue_args =
  ia_subject :: string
  ia_roles :: "string list option"
  ia_scopes :: string
  ia_audience :: "string option"
  ia_issuer :: "string option"
  ia_expires_in :: int
  ia_algorithm :: string
  ia_key :: "'k option"
  ia_omit :: "string list"

definition issue_defaults :: "'k issue_args" where
  "issue_defaults =
     \<lparr>ia_subject = ''user@example.com'', ia_roles = None, ia_scopes = ''mcp.invoke'',
      ia_audience = None, ia_issuer = None, ia_expires_in = 3600, ia_algorithm = ''RS256'',
      ia_key = None, ia_omit = []\<rparr>"

definition or_default :: "string option \<Rightarrow> string \<Rightarrow> string" where
  "or_default o1 dflt = (case o1 of Some s \<Rightarrow> if s \<noteq> [] then s else dflt | None \<Rightarrow> dflt)"

definition issue_claims :: "('k, 'b, 't) crypto \<Rightarrow> 'k devidp \<Rightarrow> int \<Rightarrow> 'k issue_args \<Rightarrow> pydict" where
  "issue_claims c idp now a =
     filter (\<lambda>(k, v). k \<notin> PStr ` set (ia_omit a))
       [(PStr ''iss'', PStr (or_default (ia_issuer a) (di_issuer idp))),
        (PStr ''aud'', PStr (or_default (ia_audience a) (di_audience idp))),
        (PStr ''sub'', PStr (ia_subject a)),
        (PStr ''oid'', PStr (uuid5_hex c (ia_subject a))),
        (PStr ''tid'', PStr DEV_TENANT_ID),
        (PStr ''azp'', PStr DEV_CLIENT_ID),
        (PStr ''preferred_username'', PStr (ia_subject a)),
        (PStr ''iat'', PInt now),
        (PStr ''nbf'', PInt now),
        (PStr ''exp'', PInt (now + ia_expires_in a)),
        (PStr ''roles'', PList (case ia_roles a of Some rs \<Rightarrow> map PStr rs | None \<Rightarrow> [])),
        (PStr ''scp'', PStr (ia_scopes a))]"

definition issue :: "('k, 'b, 't) crypto \<Rightarrow> 'k devidp \<Rightarrow> int \<Rightarrow> 'k issue_args \<Rightarrow> 't" where
  "issue c idp now a =
     (let claims = issue_claims c idp now a;
          headers = [(PStr ''kid'', PStr (di_key_id idp))];
          signing_key = (case ia_key a of Some k \<Rightarrow> k | None \<Rightarrow> di_private_key idp)
      in if ia_algorithm a = ''none'' then encode c claims None None headers
         else encode c claims (Some signing_key) (Some (ia_algorithm a)) headers)"

text \<open>\<open>expired\<close> sets the life time unless the caller did (\<open>given\<close>).\<close>

definition expired :: "('k, 'b, 't) crypto \<Rightarrow> 'k devidp \<Rightarrow> int \<Rightarrow> 'k issue_args \<Rightarrow> bool \<Rightarrow> 't" where
  "expired c idp now a given =
     issue c idp now (if given then a else a\<lparr>ia_expires_in := - 3600\<rparr>)"

section \<open>What PyJWT documents\<close>

text \<open>The claim checks of \<open>jwt.decode\<close> with every verification option on, at time \<open>now\<close>.\<close>

definition int_claim :: "pydict \<Rightarrow> string \<Rightarrow> int option" where
  "int_claim c k = (case map_of c (PStr k) of Some (PInt i) \<Rightarrow> Some i | _ \<Rightarrow> None)"

definition claims_accepted ::
  "int \<Rightarrow> pydict \<Rightarrow> string \<Rightarrow> string \<Rightarrow> int \<Rightarrow> string list \<Rightarrow> bool"
where
  "claims_accepted now c issuer audience leeway required \<longleftrightarrow>
     list_all (dict_has c) required \<and>
     map_of c (PStr ''iss'') = Some (PStr issuer) \<and>
     (case map_of c (PStr ''aud'') of
        Some (PStr a) \<Rightarrow> a = audience
      | Some (PList as) \<Rightarrow> PStr audience \<in> set as
      | _ \<Rightarrow> False) \<and>
     (case int_claim c ''exp'' of Some e \<Rightarrow> now - leeway < e | None \<Rightarrow> \<not> dict_has c ''exp'') \<and>
     (case int_claim c ''nbf'' of Some n \<Rightarrow> n \<le> now + leeway | None \<Rightarrow> \<not> dict_has c ''nbf'') \<and>
     (case int_claim c ''iat'' of Some n \<Rightarrow> n \<le> now + leeway | None \<Rightarrow> \<not> dict_has c ''iat'')"

text \<open>
  The claims the contract speaks of: a dict of JSON values with string keys, with the
  registered claims of their types (\<open>sub\<close> and \<open>iss\<close> strings, \<open>aud\<close> a string or a list of
  them, the times integers).
\<close>

primrec json_value :: "pyval \<Rightarrow> bool" where
  "json_value PNone = True"
| "json_value (PBool b) = True"
| "json_value (PInt i) = True"
| "json_value (PFloat q s) = False"
| "json_value (PStr s) = True"
| "json_value (PList xs) = list_all (\<lambda>b. b) (map json_value xs)"
| "json_value (PTuple xs) = False"
| "json_value (PDict kvs) = False"
| "json_value (PObj s as) = False"

definition registered_types :: "pydict \<Rightarrow> bool" where
  "registered_types cl \<longleftrightarrow>
     list_all (\<lambda>(k, v). is_text k \<and> json_value v) cl \<and> distinct (map fst cl) \<and>
     list_all (\<lambda>name. case map_of cl (PStr name) of None \<Rightarrow> True | Some v \<Rightarrow> is_text v) [''iss'', ''sub''] \<and>
     (case map_of cl (PStr ''aud'') of
        None \<Rightarrow> True | Some v \<Rightarrow> (case v of PStr _ \<Rightarrow> True | PList vs \<Rightarrow> list_all is_text vs | _ \<Rightarrow> False)) \<and>
     list_all (\<lambda>name. dict_has cl name \<longrightarrow> int_claim cl name \<noteq> None) [''exp'', ''nbf'', ''iat'']"

text \<open>
  The contract, for such claims and the one extra header the source sets: the header read
  back has the key id (beside whatever PyJWT adds to it); \<open>PyJWK\<close> of a published key is its
  public half; a signed token decodes, to its claims, exactly under the signer's public key,
  an allowed algorithm and acceptable claims; an unsigned token never decodes; and a failure
  is an \<open>InvalidTokenError\<close>.
\<close>

definition rejects :: "jwt_error + pydict \<Rightarrow> bool" where
  "rejects r \<longleftrightarrow> r \<in> {Inl InvalidAudience, Inl ExpiredSignature} \<union> range (\<lambda>m. Inl (InvalidToken m))"

definition pyjwt_contract ::
  "('k, 'b, 't) crypto \<Rightarrow> ('t \<Rightarrow> exn + pydict) \<Rightarrow> (pydict \<Rightarrow> exn + 'p) \<Rightarrow> ('k \<Rightarrow> 'p) \<Rightarrow> ('t, 'p) decoder
    \<Rightarrow> int \<Rightarrow> bool"
where
  "pyjwt_contract c header pyjwk public decode now \<longleftrightarrow>
     (\<forall>kid k. pyjwk (published_jwk c kid k) = Inr (public k)) \<and>
     (\<forall>cl kid. registered_types cl \<longrightarrow>
        (let extra = [(PStr ''kid'', PStr kid)]
         in (\<forall>k a. \<exists>h. header (encode c cl k a extra) = Inr h \<and> dict_get h ''kid'' = PStr kid) \<and>
            (\<forall>k a p algs iss aud leeway req.
               let r = decode (encode c cl (Some k) (Some a) extra) p algs iss aud leeway req verify_options
               in if p = public k \<and> a \<in> set algs \<and> claims_accepted now cl iss aud leeway req
                  then r = Inr cl else rejects r) \<and>
            (\<forall>p algs iss aud leeway req.
               rejects (decode (encode c cl None None extra) p algs iss aud leeway req verify_options))))"

section \<open>Claims of an issued token\<close>

lemma map_of_filter_keys:
  "map_of (filter (\<lambda>(k, v). k \<notin> A) xs) k = (if k \<in> A then None else map_of xs k)"
  by (induction xs) auto

lemma PStr_image: "PStr k \<in> PStr ` A \<longleftrightarrow> k \<in> A"
  by auto

text \<open>When a token issued at \<open>now\<close> is one the verifier should accept at \<open>later\<close>.\<close>

definition genuine :: "('k \<Rightarrow> 'p) \<Rightarrow> verifier \<Rightarrow> 'k devidp \<Rightarrow> int \<Rightarrow> int \<Rightarrow> 'k issue_args \<Rightarrow> bool" where
  "genuine public v idp now later a \<longleftrightarrow>
     ia_algorithm a \<in> set (v_algorithms v) \<and> ia_algorithm a \<noteq> ''none'' \<and>
     (case ia_key a of None \<Rightarrow> True | Some k \<Rightarrow> public k = public (di_private_key idp)) \<and>
     or_default (ia_issuer a) (di_issuer idp) = v_issuer v \<and>
     or_default (ia_audience a) (di_audience idp) = v_audience v \<and>
     set (ia_omit a) \<inter> set required_claims = {} \<and>
     later - v_leeway_seconds v < now + ia_expires_in a \<and> now \<le> later + v_leeway_seconds v"

lemma issued_lookups:
  "map_of (issue_claims c idp now a) (PStr ''iss'') =
    (if ''iss'' \<in> set (ia_omit a) then None else Some (PStr (or_default (ia_issuer a) (di_issuer idp))))"
  "map_of (issue_claims c idp now a) (PStr ''aud'') =
    (if ''aud'' \<in> set (ia_omit a) then None else Some (PStr (or_default (ia_audience a) (di_audience idp))))"
  "map_of (issue_claims c idp now a) (PStr ''sub'') =
    (if ''sub'' \<in> set (ia_omit a) then None else Some (PStr (ia_subject a)))"
  "map_of (issue_claims c idp now a) (PStr ''iat'') =
    (if ''iat'' \<in> set (ia_omit a) then None else Some (PInt now))"
  "map_of (issue_claims c idp now a) (PStr ''nbf'') =
    (if ''nbf'' \<in> set (ia_omit a) then None else Some (PInt now))"
  "map_of (issue_claims c idp now a) (PStr ''exp'') =
    (if ''exp'' \<in> set (ia_omit a) then None else Some (PInt (now + ia_expires_in a)))"
  "map_of (issue_claims c idp now a) (PStr ''roles'') =
    (if ''roles'' \<in> set (ia_omit a) then None
     else Some (PList (case ia_roles a of Some rs \<Rightarrow> map PStr rs | None \<Rightarrow> [])))"
  "map_of (issue_claims c idp now a) (PStr ''scp'') =
    (if ''scp'' \<in> set (ia_omit a) then None else Some (PStr (ia_scopes a)))"
  unfolding issue_claims_def map_of_filter_keys PStr_image by simp_all

lemma issued_required:
  "list_all (dict_has (issue_claims c idp now a)) required_claims \<longleftrightarrow>
     set (ia_omit a) \<inter> set required_claims = {}"
  by (simp add: required_claims_def dict_has_def issued_lookups)

lemma issued_types: "registered_types (issue_claims c idp now a)"
proof -
  have kept: "list_all (\<lambda>(k, v). is_text k \<and> json_value v) (filter P xs)"
    if "list_all (\<lambda>(k, v). is_text k \<and> json_value v) xs" for P xs
    using that by (auto simp: list_all_iff)
  have "json_value (PList (map PStr rs))" for rs
    by (induction rs) simp_all
  then have "json_value (PList (case ia_roles a of Some rs \<Rightarrow> map PStr rs | None \<Rightarrow> []))"
    by (cases "ia_roles a") simp_all
  then have "list_all (\<lambda>(k, v). is_text k \<and> json_value v) (issue_claims c idp now a)"
    unfolding issue_claims_def
    by (intro kept) (simp add: is_text_def del: json_value.simps(6))
  moreover have "distinct (map fst (issue_claims c idp now a))"
    unfolding issue_claims_def by (rule distinct_map_filter) simp
  moreover have "list_all (\<lambda>name. case map_of (issue_claims c idp now a) (PStr name) of
      None \<Rightarrow> True | Some v \<Rightarrow> is_text v) [''iss'', ''sub'']"
    by (simp add: issued_lookups is_text_def)
  moreover have "case map_of (issue_claims c idp now a) (PStr ''aud'') of None \<Rightarrow> True
      | Some v \<Rightarrow> (case v of PStr _ \<Rightarrow> True | PList vs \<Rightarrow> list_all is_text vs | _ \<Rightarrow> False)"
    by (simp add: issued_lookups)
  moreover have "list_all (\<lambda>name. dict_has (issue_claims c idp now a) name \<longrightarrow>
      int_claim (issue_claims c idp now a) name \<noteq> None) [''exp'', ''nbf'', ''iat'']"
    by (simp add: issued_lookups int_claim_def dict_has_def)
  ultimately show ?thesis unfolding registered_types_def by blast
qed

lemma claims_accepted_issued:
  "claims_accepted later (issue_claims c idp now a) issuer audience leeway required_claims \<longleftrightarrow>
     or_default (ia_issuer a) (di_issuer idp) = issuer \<and>
     or_default (ia_audience a) (di_audience idp) = audience \<and>
     set (ia_omit a) \<inter> set required_claims = {} \<and>
     later - leeway < now + ia_expires_in a \<and> now \<le> later + leeway"
proof (cases "set (ia_omit a) \<inter> set required_claims = {}")
  case True
  then have "''iss'' \<notin> set (ia_omit a)" "''aud'' \<notin> set (ia_omit a)" "''exp'' \<notin> set (ia_omit a)"
    "''iat'' \<notin> set (ia_omit a)"
    by (auto simp: required_claims_def)
  with True show ?thesis
    by (simp add: claims_accepted_def issued_required int_claim_def dict_has_def issued_lookups)
next
  case False
  then show ?thesis by (simp add: claims_accepted_def issued_required)
qed

lemma issued_projection:
  "\<exists>tok. to_access_token v t (issue_claims c idp now a) = Inr tok \<and>
     roles_from_token (Some tok) =
       (if ''roles'' \<in> set (ia_omit a) then [] else (case ia_roles a of Some rs \<Rightarrow> rs | None \<Rightarrow> []))"
proof -
  let ?cl = "issue_claims c idp now a"
  have get: "dict_get ?cl k = (case map_of ?cl (PStr k) of None \<Rightarrow> PNone | Some x \<Rightarrow> x)" for k
    by (simp add: dict_get_def dict_get_or_def)
  have "projectable ?cl"
    by (simp add: projectable_def issued_lookups)
  then obtain tok where tok: "to_access_token v t ?cl = Inr tok"
    using to_access_token_ok [of v t ?cl] by (auto simp: is_ok_iff)
  have "string_list (dict_get ?cl ''roles'') =
      (if ''roles'' \<in> set (ia_omit a) then [] else (case ia_roles a of Some rs \<Rightarrow> rs | None \<Rightarrow> []))"
    by (auto simp: get issued_lookups string_list_def map_idI split: option.splits)
  with tok to_access_token_fields(1) [OF tok] show ?thesis by auto
qed

lemma dev_key_found:
  assumes "pyjwt_contract c header pyjwk public decode later"
  shows "static_key_for header pyjwk (jwks c idp) (issue c idp now a) =
    (Inr (public (di_private_key idp)), jwks c idp)"
proof -
  have "\<exists>h. header (issue c idp now a) = Inr h \<and> dict_get h ''kid'' = PStr (di_key_id idp)"
    using assms issued_types [of c idp now a] by (auto simp: pyjwt_contract_def issue_def Let_def)
  moreover have key: "pyjwk (published_jwk c (di_key_id idp) (di_private_key idp)) = Inr (public (di_private_key idp))"
    using assms by (simp add: pyjwt_contract_def)
  moreover have "dict_get (published_jwk c (di_key_id idp) (di_private_key idp)) ''kid'' = PStr (di_key_id idp)"
    by (simp add: published_jwk_def dict_get_def dict_get_or_def dict_simps)
  moreover have "dict_get_or (jwks c idp) ''keys'' (PList []) =
      PList [PDict (published_jwk c (di_key_id idp) (di_private_key idp))]"
    by (simp add: jwks_def dict_get_or_def)
  ultimately show ?thesis by (auto simp: static_key_for_def)
qed

lemma decode_issued:
  assumes "pyjwt_contract c header pyjwk public decode later"
  shows "let r = decode (issue c idp now a) (public (di_private_key idp)) (v_algorithms v) (v_issuer v)
      (v_audience v) (v_leeway_seconds v) required_claims verify_options
    in if genuine public v idp now later a then r = Inr (issue_claims c idp now a) else rejects r"
proof (cases "ia_algorithm a = ''none''")
  case True
  with assms issued_types [of c idp now a] show ?thesis
    by (simp add: pyjwt_contract_def issue_def Let_def genuine_def)
next
  case False
  let ?k = "case ia_key a of Some k \<Rightarrow> k | None \<Rightarrow> di_private_key idp"
  have gen: "genuine public v idp now later a \<longleftrightarrow>
      public (di_private_key idp) = public ?k \<and> ia_algorithm a \<in> set (v_algorithms v) \<and>
      claims_accepted later (issue_claims c idp now a) (v_issuer v) (v_audience v)
        (v_leeway_seconds v) required_claims"
    using False by (auto simp: genuine_def claims_accepted_issued split: option.splits)
  from False have tok: "issue c idp now a = encode c (issue_claims c idp now a) (Some ?k)
      (Some (ia_algorithm a)) [(PStr ''kid'', PStr (di_key_id idp))]"
    by (simp add: issue_def Let_def)
  from assms issued_types [of c idp now a] show ?thesis
    unfolding tok gen pyjwt_contract_def Let_def by blast
qed

lemma verify_issued:
  assumes "pyjwt_contract c header pyjwk public decode later"
  shows "case fst (verify_token (static_key_for header pyjwk) decode show_exn v (issue c idp now a)
      (jwks c idp)) of
    Inl e \<Rightarrow> False
  | Inr None \<Rightarrow> \<not> genuine public v idp now later a
  | Inr (Some tok) \<Rightarrow> genuine public v idp now later a \<and>
      roles_from_token (Some tok) = (if ''roles'' \<in> set (ia_omit a) then []
        else (case ia_roles a of Some rs \<Rightarrow> rs | None \<Rightarrow> []))"
proof (cases "genuine public v idp now later a")
  case True
  obtain tok where "to_access_token v (issue c idp now a) (issue_claims c idp now a) = Inr tok"
    and "roles_from_token (Some tok) = (if ''roles'' \<in> set (ia_omit a) then []
        else (case ia_roles a of Some rs \<Rightarrow> rs | None \<Rightarrow> []))"
    using issued_projection [of v "issue c idp now a" c idp now a] by blast
  with True decode_issued [OF assms, where v = v and idp = idp and now = now and a = a] dev_key_found [OF assms, of idp now a]
  show ?thesis by (simp add: verify_token_def Let_def)
next
  case False
  with decode_issued [OF assms, where v = v and idp = idp and now = now and a = a] dev_key_found [OF assms, of idp now a]
  show ?thesis by (auto simp: verify_token_def rejects_def Let_def)
qed

lemma issued_token_roles:
  assumes "pyjwt_contract c header pyjwk public decode later"
    and "fst (verify_token (static_key_for header pyjwk) decode show_exn v (issue c idp now a)
      (jwks c idp)) = Inr (Some tok)"
  shows "roles_from_token (Some tok) = (if ''roles'' \<in> set (ia_omit a) then []
    else (case ia_roles a of Some rs \<Rightarrow> rs | None \<Rightarrow> []))"
  using verify_issued [OF assms(1), of v idp now a show_exn] unfolding assms(2) by simp

section \<open>Properties\<close>

text \<open>C23: the development identity provider and the verifier fit: under PyJWT's documented
  behaviour a token of \<open>issue\<close> verifies against the published JWKS exactly when it is
  genuine (an allowed algorithm, the provider's key, the expected issuer and audience, every
  required claim, not expired and not from the future beyond the leeway), and then carries
  the roles it was issued with; every other token is \<open>None\<close>, and nothing raises.\<close>

theorem dev_tokens_verify:
  assumes "pyjwt_contract c header pyjwk public decode later"
  shows "case fst (verify_token (static_key_for header pyjwk) decode show_exn v (issue c idp now a)
      (jwks c idp)) of
    Inl e \<Rightarrow> False
  | Inr None \<Rightarrow> \<not> genuine public v idp now later a
  | Inr (Some tok) \<Rightarrow> genuine public v idp now later a \<and>
      roles_from_token (Some tok) = (if ''roles'' \<in> set (ia_omit a) then []
        else (case ia_roles a of Some rs \<Rightarrow> rs | None \<Rightarrow> []))"
  by (rule verify_issued [OF assms])

text \<open>A PyJWT in the small: a token is what was encoded, and a key is its own public half.\<close>

definition toy_crypto :: "(nat, nat, pydict \<times> nat option \<times> string option \<times> pydict) crypto" where
  "toy_crypto = \<lparr>load_pem = (\<lambda>b. Inr (Some b)), to_pem = (\<lambda>k. k), fingerprint = nat_str,
     public_jwk = (\<lambda>k. [(PStr ''n'', PInt (int k))]),
     encode = (\<lambda>cl k a h. (cl, k, a, h)), uuid5_hex = (\<lambda>s. s)\<rparr>"

definition toy_header :: "pydict \<times> nat option \<times> string option \<times> pydict \<Rightarrow> exn + pydict" where
  "toy_header t = (case t of (cl, k, a, h) \<Rightarrow> Inr (h @ [(PStr ''typ'', PStr ''JWT'')]))"

definition toy_pyjwk :: "pydict \<Rightarrow> exn + nat" where
  "toy_pyjwk d = (case dict_get d ''n'' of PInt i \<Rightarrow> Inr (nat i) | _ \<Rightarrow> Inl TypeError)"

definition toy_decode :: "int \<Rightarrow> (pydict \<times> nat option \<times> string option \<times> pydict, nat) decoder" where
  "toy_decode now t p algs issuer audience leeway required on =
     (case t of
        (cl, Some k, Some a, h) \<Rightarrow>
          if k = p \<and> a \<in> set algs \<and> claims_accepted now cl issuer audience leeway required
          then Inr cl else Inl (InvalidToken ''bad'')
      | _ \<Rightarrow> Inl (InvalidToken ''unsigned''))"

lemma toy_contract: "pyjwt_contract toy_crypto toy_header toy_pyjwk (\<lambda>k. k) (toy_decode now) now"
  by (simp add: pyjwt_contract_def toy_crypto_def toy_header_def toy_pyjwk_def toy_decode_def
      published_jwk_def rejects_def dict_get_def dict_get_or_def dict_simps)

definition toy_idp :: "nat devidp" where
  "toy_idp = \<lparr>di_issuer = ''iss'', di_audience = ''api'', di_key_path = None, di_key_id = ''7'',
     di_private_key = 7\<rparr>"

theorem dev_tokens_verify_witness:
  "fst (verify_token (static_key_for toy_header toy_pyjwk) (toy_decode 1000) (\<lambda>_. []) example_verifier
      (issue toy_crypto toy_idp 1000 (issue_defaults\<lparr>ia_algorithm := ''none''\<rparr>)) (jwks toy_crypto toy_idp)) =
    Inr None \<and>
   (\<exists>tok. fst (verify_token (static_key_for toy_header toy_pyjwk) (toy_decode 1000) (\<lambda>_. [])
      example_verifier (issue toy_crypto toy_idp 1000 (issue_defaults\<lparr>ia_roles := Some [''tlo.reader'']\<rparr>))
      (jwks toy_crypto toy_idp)) = Inr (Some tok) \<and> roles_from_token (Some tok) = [''tlo.reader''])"
proof -
  have "\<not> genuine (\<lambda>k. k) example_verifier toy_idp 1000 1000 (issue_defaults\<lparr>ia_algorithm := ''none''\<rparr>)"
    and "genuine (\<lambda>k. k) example_verifier toy_idp 1000 1000 (issue_defaults\<lparr>ia_roles := Some [''tlo.reader'']\<rparr>)"
    by code_simp+
  moreover have "''roles'' \<notin> set (ia_omit (issue_defaults\<lparr>ia_roles := Some [''tlo.reader'']\<rparr> :: nat issue_args))"
    and "ia_roles (issue_defaults\<lparr>ia_roles := Some [''tlo.reader'']\<rparr> :: nat issue_args) = Some [''tlo.reader'']"
    by (simp_all add: issue_defaults_def)
  ultimately show ?thesis
    using dev_tokens_verify [OF toy_contract [of 1000], where v = example_verifier and idp = toy_idp and now = 1000
        and show_exn = "\<lambda>_. []" and a = "issue_defaults\<lparr>ia_algorithm := ''none''\<rparr>"]
      dev_tokens_verify [OF toy_contract [of 1000], where v = example_verifier and idp = toy_idp and now = 1000
        and show_exn = "\<lambda>_. []" and a = "issue_defaults\<lparr>ia_roles := Some [''tlo.reader'']\<rparr>"]
    by (auto split: sum.splits option.splits)
qed

text \<open>Two processes share the persisted key: after one provider has written its key, a
  second one made over the same path, with whatever fresh key it would have generated, loads
  the first one's key, advertises the same key id, and leaves the files alone; the file is
  readable by its owner only.\<close>

lemma persisted_key_is_shared:
  assumes "\<And>k. load_pem c (to_pem c k) = Inr (Some k)" and "fs_content fs path = None"
    and "init_devidp c fresh issuer audience (Some path) [] fs = (Inr idp, fs')"
  shows "\<exists>idp'. init_devidp c fresh' issuer' audience' (Some path) [] fs' = (Inr idp', fs') \<and>
    di_private_key idp' = di_private_key idp \<and> di_key_id idp' = di_key_id idp \<and> fs_mode fs' path = 384"
proof -
  have "load_or_generate c fresh (Some path) fs = (Inr fresh,
      fs\<lparr>fs_content := (fs_content fs)(path \<mapsto> to_pem c fresh), fs_mode := (fs_mode fs)(path := 384)\<rparr>)"
    using assms(2) by (simp add: load_or_generate_def)
  with assms(3) have idp: "di_private_key idp = fresh" "di_key_id idp = take 32 (fingerprint c fresh)"
    and fs': "fs_content fs' path = Some (to_pem c fresh)" "fs_mode fs' path = 384"
    by (auto simp: init_devidp_def)
  from fs'(1) have "load_or_generate c fresh' (Some path) fs' = (Inr fresh, fs')"
    by (simp add: load_or_generate_def assms(1))
  with idp fs'(2) show ?thesis by (simp add: init_devidp_def)
qed

end
