(* ===== verification/Floats.thy ===== *)
theory Floats
  imports Complex_Main "HOL-Library.Log_Nat"
begin

text \<open>
  The floats of the program: the value of a finite Python float is a rational, and each
  arithmetic operation is the exact one rounded to 53 significant bits, ties to even, as IEEE
  754 has it. Overflow and the subnormal range are far from any value the program computes and
  are not modelled. \<open>round(x, 1)\<close> is correctly rounded from the exact value of \<open>x\<close> and its
  result is the float nearest to that decimal.
\<close>

text \<open>The integer nearest to a rational, ties to the even one.\<close>

definition nearest :: "rat \<Rightarrow> int" where
  "nearest y =
     (let f = \<lfloor>y\<rfloor>; r = y - of_int f
      in if r < 1 / 2 \<or> r = 1 / 2 \<and> even f then f else f + 1)"

text \<open>\<open>2^e\<close>, and the \<open>e\<close> with \<open>2^e \<le> |x| < 2^(e+1)\<close>.\<close>

definition two_to :: "int \<Rightarrow> rat" where
  "two_to e = (if 0 \<le> e then 2 ^ nat e else 1 / 2 ^ nat (- e))"

definition binade :: "rat \<Rightarrow> int" where
  "binade x =
     (let (n, d) = quotient_of \<bar>x\<bar>; e = bitlen n - bitlen d
      in if two_to e \<le> \<bar>x\<bar> then e else e - 1)"

definition to_float :: "rat \<Rightarrow> rat" where
  "to_float x = (if x = 0 then 0 else (let q = two_to (binade x - 52) in of_int (nearest (x / q)) * q))"

definition round_tenth :: "rat \<Rightarrow> rat" where
  "round_tenth x = of_int (nearest (10 * x)) / 10"

definition py_round_1 :: "rat \<Rightarrow> rat" where
  "py_round_1 x = to_float (round_tenth x)"

section \<open>Errors\<close>

lemma nearest_error: "\<bar>of_int (nearest y) - y\<bar> \<le> 1 / 2"
proof -
  have "of_int \<lfloor>y\<rfloor> \<le> y" and "y < of_int \<lfloor>y\<rfloor> + 1" by linarith+
  then show ?thesis unfolding nearest_def Let_def by (auto simp: abs_le_iff)
qed

lemma two_to_pos [simp]: "0 < two_to e"
  by (simp add: two_to_def)

lemma two_to_neq [simp]: "two_to e \<noteq> 0"
  by (rule less_imp_neq [OF two_to_pos, symmetric])

lemma two_to_powr: "of_rat (two_to e) = (2 :: real) powr of_int e"
  by (simp add: two_to_def powr_realpow [symmetric] of_rat_divide of_rat_power powr_minus divide_simps)

lemma two_to_add: "two_to (a + b) = two_to a * two_to b"
proof -
  have "(of_rat (two_to (a + b)) :: real) = of_rat (two_to a * two_to b)"
    by (simp add: two_to_powr of_rat_mult powr_add)
  then show ?thesis by (simp only: of_rat_eq_iff)
qed

lemma two_to_0 [simp]: "two_to 0 = 1"
  by (simp add: two_to_def)

lemma two_to_minus: "two_to (- e) = 1 / two_to e"
  using two_to_add [of e "- e"] by (simp add: field_simps)

lemma bitlen_two_to:
  assumes "0 < (n :: int)"
  shows "two_to (bitlen n - 1) \<le> of_int n" and "of_int n < two_to (bitlen n)"
proof -
  have "1 \<le> bitlen n" using assms bitlen_eq_zero_iff [of n] bitlen_nonneg [of n] by linarith
  then have t: "two_to (bitlen n - 1) = of_int (2 ^ nat (bitlen n - 1))" "two_to (bitlen n) = of_int (2 ^ nat (bitlen n))"
    by (simp_all add: two_to_def)
  show "two_to (bitlen n - 1) \<le> of_int n" and "of_int n < two_to (bitlen n)"
    unfolding t of_int_le_iff of_int_less_iff using bitlen_bounds [OF assms] by simp_all
qed

lemma binade_bounds:
  assumes "x \<noteq> 0"
  shows "two_to (binade x) \<le> \<bar>x\<bar>" and "\<bar>x\<bar> < two_to (binade x + 1)"
proof -
  obtain n d where q: "quotient_of \<bar>x\<bar> = (n, d)" by fastforce
  have d: "0 < d" using quotient_of_denom_pos [OF q] .
  have x: "\<bar>x\<bar> = of_int n / of_int d" using quotient_of_div [OF q] .
  have "0 < (of_int n / of_int d :: rat)" using assms unfolding x [symmetric] by simp
  then have n: "0 < n" using d by (simp add: zero_less_divide_iff)
  let ?e = "bitlen n - bitlen d"
  have lo: "two_to (?e - 1) \<le> \<bar>x\<bar>"
  proof -
    have "two_to (?e - 1) = two_to (bitlen n - 1) / two_to (bitlen d)"
      using two_to_add [of "bitlen n - 1" "- bitlen d"] by (simp add: two_to_minus algebra_simps)
    also have "\<dots> \<le> of_int n / of_int d"
      by (rule frac_le) (use bitlen_two_to [OF n] bitlen_two_to [OF d] n d in simp_all)
    finally show ?thesis by (simp add: x)
  qed
  have hi: "\<bar>x\<bar> < two_to (?e + 1)"
  proof -
    have "of_int n / of_int d < two_to (bitlen n) / two_to (bitlen d - 1)"
      by (rule frac_less) (use bitlen_two_to [OF n] bitlen_two_to [OF d] n d in simp_all)
    also have "\<dots> = two_to (?e + 1)"
      using two_to_add [of "bitlen n" "- (bitlen d - 1)"] unfolding two_to_minus by (simp add: algebra_simps)
    finally show ?thesis by (simp add: x)
  qed
  have b: "binade x = (if two_to ?e \<le> \<bar>x\<bar> then ?e else ?e - 1)" by (simp add: binade_def q Let_def)
  show "two_to (binade x) \<le> \<bar>x\<bar>" and "\<bar>x\<bar> < two_to (binade x + 1)" using lo hi by (auto simp: b)
qed

text \<open>One rounding is off by at most \<open>2^-53\<close> of the value.\<close>

lemma to_float_error: "\<bar>to_float x - x\<bar> \<le> \<bar>x\<bar> / 2 ^ 53"
proof (cases "x = 0")
  case True
  then show ?thesis by (simp add: to_float_def)
next
  case False
  let ?q = "two_to (binade x - 52)"
  have q: "?q = two_to (binade x) / 2 ^ 52"
    using two_to_add [of "binade x" "- 52"] by (simp add: two_to_def)
  have "to_float x - x = (of_int (nearest (x / ?q)) - x / ?q) * ?q"
    using False by (simp add: to_float_def Let_def algebra_simps less_imp_neq [THEN not_sym])
  then have "\<bar>to_float x - x\<bar> = \<bar>of_int (nearest (x / ?q)) - x / ?q\<bar> * ?q"
    by (simp add: abs_mult abs_of_pos)
  also have "\<dots> \<le> 1 / 2 * ?q" by (rule mult_right_mono [OF nearest_error]) (simp add: less_imp_le)
  also have "\<dots> = two_to (binade x) / 2 ^ 53" by (simp add: q)
  also have "\<dots> \<le> \<bar>x\<bar> / 2 ^ 53" by (rule divide_right_mono [OF binade_bounds(1) [OF False]]) simp
  finally show ?thesis .
qed

lemma to_float_0 [simp]: "to_float 0 = 0"
  by (simp add: to_float_def)

lemma round_tenth_error: "\<bar>round_tenth x - x\<bar> \<le> 1 / 20"
proof -
  have "round_tenth x - x = (of_int (nearest (10 * x)) - 10 * x) / 10" by (simp add: round_tenth_def field_simps)
  then have "\<bar>round_tenth x - x\<bar> = \<bar>of_int (nearest (10 * x)) - 10 * x\<bar> / 10"
    by (simp only: abs_divide abs_numeral)
  also have "\<dots> \<le> (1 / 2) / 10" by (rule divide_right_mono [OF nearest_error]) simp
  finally show ?thesis by simp
qed

lemma to_float_within: "\<bar>x\<bar> \<le> b \<Longrightarrow> \<bar>to_float x - x\<bar> \<le> b / 2 ^ 53"
  using to_float_error [of x] divide_right_mono [of "\<bar>x\<bar>" b "2 ^ 53"] by simp

text \<open>Errors add up.\<close>

lemma near_trans: "\<bar>a - b\<bar> \<le> d \<Longrightarrow> \<bar>b - c\<bar> \<le> e \<Longrightarrow> d + e \<le> f \<Longrightarrow> \<bar>a - c\<bar> \<le> (f :: rat)"
  using abs_triangle_ineq [of "a - b" "b - c"] by simp

text \<open>Rounding keeps the sign.\<close>

lemma to_float_le_0: "x \<le> 0 \<Longrightarrow> to_float x \<le> 0"
  using to_float_error [of x] by (simp add: abs_if split: if_splits)

lemma to_float_ge_0: "0 \<le> x \<Longrightarrow> 0 \<le> to_float x"
  using to_float_error [of x] by (simp add: abs_if split: if_splits)

lemma round_tenth_ge_0: "0 \<le> x \<Longrightarrow> 0 \<le> round_tenth x"
  by (simp add: round_tenth_def nearest_def Let_def)

lemma py_round_1_ge_0: "0 \<le> x \<Longrightarrow> 0 \<le> py_round_1 x"
  by (simp add: py_round_1_def to_float_ge_0 round_tenth_ge_0)

lemma py_round_1_0 [simp]: "py_round_1 0 = 0"
  by (simp add: py_round_1_def round_tenth_def nearest_def Let_def)

lemma py_round_1_error:
  assumes "\<bar>x\<bar> \<le> 100000000"
  shows "\<bar>py_round_1 x - x\<bar> \<le> 1 / 20 + 1 / 10000000"
proof -
  have r: "\<bar>round_tenth x\<bar> \<le> 100000001" using round_tenth_error [of x] assms by linarith
  show ?thesis unfolding py_round_1_def
    by (rule near_trans [OF to_float_within round_tenth_error, of _ 100000001]) (use r in simp_all)
qed

end
