(* ===== verification/Server.thy ===== *)
theory Server
  imports Middleware RequestState ServiceNow DevIdp Floats
begin

text \<open>
  \<open>server.py\<close>: the sample shipments, the six tools and the resource over a ServiceNow
  backend, and the construction of a server with its failures. A date is the number of
  microseconds since 1970-01-01 UTC, and the clock is the argument \<open>now\<close>. The float
  \<open>hours_late\<close> is rounded at each operation as Python rounds it (theory Floats). The em dash of a message is written as its
  UTF-8 bytes.
\<close>

section \<open>Dates\<close>

abbreviation hours :: "int \<Rightarrow> int" where "hours n \<equiv> n * 3600000000"

text \<open>\<open>dt + timedelta(hours=h)\<close>: \<open>None\<close> is an \<open>OverflowError\<close> of either operation.\<close>

definition add_hours :: "int \<Rightarrow> int \<Rightarrow> int option" where
  "add_hours t h =
     (let s = t + hours h
      in if \<bar>h div 24\<bar> \<le> 999999999 \<and> - 62135596800000000 \<le> s \<and> s \<le> 253402300799999999
         then Some s else None)"

text \<open>The proleptic Gregorian date of a day number, and the format \<open>%Y-%m-%d %H:%M\<close>.\<close>

definition civil :: "int \<Rightarrow> int \<times> int \<times> int" where
  "civil days =
     (let z = days + 719468;
          era = z div 146097;
          doe = z mod 146097;
          yoe = (doe - doe div 1460 + doe div 36524 - doe div 146096) div 365;
          doy = doe - (365 * yoe + yoe div 4 - yoe div 100);
          mp = (5 * doy + 2) div 153;
          d = doy - (153 * mp + 2) div 5 + 1;
          m = (if mp < 10 then mp + 3 else mp - 9);
          y = yoe + era * 400 + (if m \<le> 2 then 1 else 0)
      in (y, m, d))"

definition strftime_minutes :: "int \<Rightarrow> string" where
  "strftime_minutes t =
     (let minutes = t div 60000000;
          (y, m, d) = civil (minutes div 1440)
      in int_str y @ ''-'' @ nat_pad 2 (nat m) @ ''-'' @ nat_pad 2 (nat d) @ '' '' @
         nat_pad 2 (nat (minutes mod 1440 div 60)) @ '':'' @ nat_pad 2 (nat (minutes mod 60)))"

section \<open>Shipments\<close>

record shipment =
  sh_id :: string
  sh_origin :: string
  sh_destination :: string
  sh_status :: string
  sh_eta :: int
  sh_ci :: string

record shipment_status =
  ss_id :: string
  ss_status :: string
  ss_origin :: string
  ss_destination :: string
  ss_eta :: int
  ss_configuration_item :: string

record delayed_shipment =
  ds_id :: string
  ds_destination :: string
  ds_eta :: int
  ds_configuration_item :: string

type_synonym shipments = "(string \<times> shipment) list"

definition fixture_rows :: "int \<Rightarrow> shipment list" where
  "fixture_rows now =
     [\<lparr>sh_id = ''SHP-1001'', sh_origin = ''Rotterdam'', sh_destination = ''Duisburg'',
        sh_status = ''in_transit'', sh_eta = now + hours 6, sh_ci = ''CI-WMS-01''\<rparr>,
      \<lparr>sh_id = ''SHP-1002'', sh_origin = ''Antwerp'', sh_destination = ''Venlo'',
        sh_status = ''delayed'', sh_eta = now + hours 31, sh_ci = ''CI-WMS-01''\<rparr>,
      \<lparr>sh_id = ''SHP-1003'', sh_origin = ''Rotterdam'', sh_destination = ''Lille'',
        sh_status = ''delivered'', sh_eta = now - hours 12, sh_ci = ''CI-TMS-02''\<rparr>,
      \<lparr>sh_id = ''SHP-1004'', sh_origin = ''Zeebrugge'', sh_destination = ''Koln'',
        sh_status = ''delayed'', sh_eta = now + hours 52, sh_ci = ''CI-TMS-02''\<rparr>]"

definition fixtures :: "int \<Rightarrow> shipments" where
  "fixtures now = foldl (\<lambda>d s. dict_set (sh_id s) s d) [] (fixture_rows now)"

definition unknown_shipment :: "string \<Rightarrow> exn" where
  "unknown_shipment shipment_id = ValueError (''unknown shipment: '' @ shipment_id)"

definition get_shipment_status :: "shipments \<Rightarrow> string \<Rightarrow> exn + shipment_status" where
  "get_shipment_status db shipment_id =
     (case map_of db shipment_id of
        None \<Rightarrow> Inl (unknown_shipment shipment_id)
      | Some s \<Rightarrow> Inr \<lparr>ss_id = sh_id s, ss_status = sh_status s, ss_origin = sh_origin s,
          ss_destination = sh_destination s, ss_eta = sh_eta s, ss_configuration_item = sh_ci s\<rparr>)"

definition list_delayed_shipments :: "shipments \<Rightarrow> int \<Rightarrow> int \<Rightarrow> exn + delayed_shipment list" where
  "list_delayed_shipments db now threshold_hours =
     (case add_hours now threshold_hours of
        None \<Rightarrow> Inl (Foreign ''OverflowError'' [])
      | Some cutoff \<Rightarrow>
          Inr (map (\<lambda>s. \<lparr>ds_id = sh_id s, ds_destination = sh_destination s, ds_eta = sh_eta s,
                     ds_configuration_item = sh_ci s\<rparr>)
            (filter (\<lambda>s. sh_status s \<noteq> ''delivered'' \<and> cutoff < sh_eta s) (map snd db))))"

section \<open>ServiceNow tools\<close>

record incident_summary =
  is_number :: string
  is_short_description :: string
  is_state :: string
  is_urgency :: string
  is_configuration_item :: string
  is_opened_at :: string

record delay_assessment =
  da_shipment_id :: string
  da_delayed :: bool
  da_hours_late :: rat
  da_configuration_item :: string
  da_configuration_item_found :: bool
  da_open_incidents :: "incident_summary list"
  da_recommendation :: string

definition summarise :: "incident \<Rightarrow> incident_summary" where
  "summarise i =
     \<lparr>is_number = inc_number i, is_short_description = inc_short_description i,
      is_state = inc_state i, is_urgency = inc_urgency i,
      is_configuration_item = inc_configuration_item i, is_opened_at = inc_opened_at i\<rparr>"

definition search_incidents ::
  "'s servicenow \<Rightarrow> string \<Rightarrow> int \<Rightarrow> 's \<Rightarrow> (exn + incident_summary list) \<times> 's"
where
  "search_incidents b ci limit s =
     bindS (sn_search b (if ci \<noteq> [] then Some ci else None) True limit s)
       (\<lambda>found s. (Inr (map summarise found), s))"

definition get_configuration_item ::
  "'s servicenow \<Rightarrow> string \<Rightarrow> 's \<Rightarrow> (exn + pyval) \<times> 's"
where
  "get_configuration_item b name s =
     bindS (sn_find b name s) (\<lambda>item s.
       (Inr (case item of
          None \<Rightarrow> PDict [(PStr ''found'', PBool False), (PStr ''name'', PStr name)]
        | Some i \<Rightarrow> PDict [(PStr ''found'', PBool True), (PStr ''name'', PStr (ci_name i)),
            (PStr ''class'', PStr (ci_class i)),
            (PStr ''operational_status'', PStr (ci_operational_status i))]), s))"

definition em_dash :: string where
  "em_dash = [CHR 0xE2, CHR 0x80, CHR 0x94]"

definition recommend :: "bool \<Rightarrow> string \<Rightarrow> configuration_item option \<Rightarrow> incident list \<Rightarrow> string" where
  "recommend delayed ci item open_incidents =
     (if \<not> delayed then ''No action: shipment is not flagged as delayed.''
      else if item = None
      then ''Escalate manually: '' @ ci @ '' is not in the CMDB, so an incident '' @
        ''raised against it would not route.''
      else (case open_incidents of
          i # _ \<Rightarrow> ''Enrich '' @ inc_number i @ '' rather than opening a duplicate '' @ em_dash @
            '' '' @ ci @ '' already has an open incident.''
        | [] \<Rightarrow> ''Raise a new incident against '' @ ci @ ''.''))"

definition hours_late :: "int \<Rightarrow> int \<Rightarrow> rat" where
  "hours_late eta now =
     (let total_seconds = to_float (of_int (eta - now) / 1000000)
      in max 0 (to_float (to_float (total_seconds / 3600) - 24)))"

definition assess_shipment_delay ::
  "'s servicenow \<Rightarrow> shipments \<Rightarrow> int \<Rightarrow> string \<Rightarrow> 's \<Rightarrow> (exn + delay_assessment) \<times> 's"
where
  "assess_shipment_delay b db now shipment_id s =
     (case map_of db shipment_id of
        None \<Rightarrow> (Inl (unknown_shipment shipment_id), s)
      | Some sh \<Rightarrow>
          bindS (sn_find b (sh_ci sh) s) (\<lambda>item s.
          bindS (sn_search b (Some (sh_ci sh)) True 10 s) (\<lambda>open_incidents s.
            (Inr \<lparr>da_shipment_id = sh_id sh, da_delayed = (sh_status sh = ''delayed''),
               da_hours_late = py_round_1 (hours_late (sh_eta sh) now),
               da_configuration_item = sh_ci sh, da_configuration_item_found = (item \<noteq> None),
               da_open_incidents = map summarise open_incidents,
               da_recommendation = recommend (sh_status sh = ''delayed'') (sh_ci sh) item open_incidents\<rparr>,
             s))))"

definition raise_shipment_incident ::
  "'s servicenow \<Rightarrow> shipments \<Rightarrow> string \<Rightarrow> string \<Rightarrow> 's \<Rightarrow> (exn + incident_summary) \<times> 's"
where
  "raise_shipment_incident b db shipment_id urgency s =
     (case map_of db shipment_id of
        None \<Rightarrow> (Inl (unknown_shipment shipment_id), s)
      | Some sh \<Rightarrow>
          if urgency \<notin> {''1'', ''2'', ''3''}
          then (Inl (ValueError (''urgency must be '' @ repr_str ''1'' @ '' (high), '' @ repr_str ''2'' @
            '' (medium) or '' @ repr_str ''3'' @ '' (low)'')), s)
          else
            bindS (sn_create b (''Shipment '' @ sh_id sh @ '' delayed to '' @ sh_destination sh) (sh_ci sh)
                urgency
                (''Shipment '' @ sh_id sh @ '' from '' @ sh_origin sh @ '' to '' @ sh_destination sh @
                 '' is flagged '' @ sh_status sh @ '' with an estimated arrival of '' @
                 strftime_minutes (sh_eta sh) @ '' UTC. Raised from the MCP layer.'') s)
              (\<lambda>incident s. (Inr (summarise incident), s)))"

text \<open>The resource \<open>shipment://{shipment_id}\<close>.\<close>

definition shipment_detail :: "shipments \<Rightarrow> string \<Rightarrow> string" where
  "shipment_detail db shipment_id =
     (case map_of db shipment_id of
        None \<Rightarrow> ''No shipment '' @ shipment_id @ ''.''
      | Some s \<Rightarrow>
          sh_id s @ '': '' @ sh_origin s @ '' -> '' @ sh_destination s @ '', status '' @ sh_status s @
          '', ETA '' @ strftime_minutes (sh_eta s) @ '' UTC, CI '' @ sh_ci s @ ''.'')"

section \<open>Construction\<close>

definition DEFAULT_AUDIENCE :: string where
  "DEFAULT_AUDIENCE = ''api://governed-mcp-server''"

definition DEFAULT_RESOURCE_URL :: string where
  "DEFAULT_RESOURCE_URL = ''http://127.0.0.1:8000/mcp''"

definition REQUIRED_SCOPES :: "string list" where
  "REQUIRED_SCOPES = [''mcp.invoke'']"

datatype auth_mode = AuthOff | AuthDev | AuthEntra

record auth_settings =
  au_issuer_url :: string
  au_resource_server_url :: string
  au_required_scopes :: "string list"

datatype key_src = StaticKeys pydict | Endpoint string

record server =
  sv_verifier :: "(verifier \<times> key_src) option"
  sv_auth :: "auth_settings option"
  sv_security :: security
  sv_tools :: "string list"
  sv_resources :: "string list"
  sv_middleware :: "middleware list"

record 'k launch =
  la_auth :: auth_mode
  la_policy_path :: "string option"
  la_dev_idp :: "'k devidp option"
  la_resource_url :: string
  la_audience :: string
  la_enforce :: bool
  la_backend :: backend_kind

text \<open>
  What the construction takes from outside: the file and YAML readers, the cryptography with a
  freshly generated key, the SDK's validation of the settings, and the environment.
\<close>

record ('k, 'b, 't) outside =
  o_read_text :: "string \<Rightarrow> exn + string"
  o_safe_load :: "string \<Rightarrow> exn + pyval"
  o_crypto :: "('k, 'b, 't) crypto"
  o_fresh :: 'k
  o_settings :: "auth_settings \<Rightarrow> exn + auth_settings"
  o_env :: "string \<Rightarrow> string option"

definition env_get :: "(string \<Rightarrow> string option) \<Rightarrow> string \<Rightarrow> string \<Rightarrow> string" where
  "env_get env k dflt = (case env k of Some v \<Rightarrow> v | None \<Rightarrow> dflt)"

text \<open>The verifier and the settings of each mode.\<close>

definition auth_setup ::
  "('k, 'b, 't) outside \<Rightarrow> 'k launch \<Rightarrow> exn + ((verifier \<times> key_src) option \<times> auth_settings option)"
where
  "auth_setup sys la =
     (case la_auth la of
        AuthOff \<Rightarrow> Inr (None, None)
      | AuthDev \<Rightarrow>
          bindE (case la_dev_idp la of
                   Some idp \<Rightarrow> Inr idp
                 | None \<Rightarrow> fst (init_devidp (o_crypto sys) (o_fresh sys) DEV_ISSUER (la_audience la) None []
                     \<lparr>fs_content = Map.empty, fs_mode = (\<lambda>_. 0)\<rparr>)) (\<lambda>idp.
          bindE (init_verifier (di_issuer idp) (di_audience idp) ALLOWED_ALGORITHMS 60) (\<lambda>v.
          bindE (o_settings sys \<lparr>au_issuer_url = di_issuer idp,
                   au_resource_server_url = la_resource_url la,
                   au_required_scopes = REQUIRED_SCOPES\<rparr>) (\<lambda>auth.
            Inr (Some (v, StaticKeys (jwks (o_crypto sys) idp)), Some auth))))
      | AuthEntra \<Rightarrow>
          (case o_env sys ''MCP_ENTRA_TENANT_ID'' of
             None \<Rightarrow> Inl (SystemExit ''auth mode 'entra' requires MCP_ENTRA_TENANT_ID to be set'')
           | Some tenant_id \<Rightarrow>
               if tenant_id = []
               then Inl (SystemExit ''auth mode 'entra' requires MCP_ENTRA_TENANT_ID to be set'')
               else
                 bindE (init_verifier (entra_issuer tenant_id)
                     (env_get (o_env sys) ''MCP_RESOURCE_AUDIENCE'' (la_audience la)) ALLOWED_ALGORITHMS 60) (\<lambda>v.
                 bindE (o_settings sys \<lparr>au_issuer_url = entra_issuer tenant_id,
                          au_resource_server_url = env_get (o_env sys) ''MCP_RESOURCE_URL'' (la_resource_url la),
                          au_required_scopes = REQUIRED_SCOPES\<rparr>) (\<lambda>auth.
                   Inr (Some (v, Endpoint (entra_jwks_uri tenant_id)), Some auth)))))"

text \<open>
  \<open>create_server\<close>; the state is the module's \<open>SERVICENOW\<close>, rebound before the policy loads.
\<close>

definition registered_tools :: "string list" where
  "registered_tools = [''get_shipment_status'', ''list_delayed_shipments'', ''search_incidents'',
     ''get_configuration_item'', ''assess_shipment_delay'', ''raise_shipment_incident'']"

definition create_server ::
  "('k, 'b, 't) outside \<Rightarrow> 'k launch \<Rightarrow> built \<Rightarrow> (exn + server) \<times> built"
where
  "create_server sys la SERVICENOW =
     bindS (liftS (auth_setup sys la) SERVICENOW) (\<lambda>(verifier, auth) SERVICENOW.
     bindS (liftS (build (o_env sys ENV_KEYS) None 600) SERVICENOW) (\<lambda>(security, _) SERVICENOW.
     bindS (liftS (build_backend (la_backend la) (o_env sys)) SERVICENOW) (\<lambda>(backend, _) _.
     bindS (liftS (if la_auth la \<noteq> AuthOff
                   then (case la_policy_path la of
                           None \<Rightarrow> Inr []
                         | Some path \<Rightarrow> bindE (load (o_read_text sys) (o_safe_load sys) path)
                             (\<lambda>p. Inr [\<lparr>mw_policy = p, mw_enforce = la_enforce la\<rparr>]))
                   else Inr []) backend) (\<lambda>middleware SERVICENOW.
       (Inr \<lparr>sv_verifier = verifier, sv_auth = auth, sv_security = security,
          sv_tools = registered_tools, sv_resources = [''shipment://{shipment_id}''],
          sv_middleware = middleware\<rparr>, SERVICENOW)))))"

text \<open>
  The start of the process around it: a misconfiguration becomes one line and an exit,
  anything else passes.
\<close>

definition startup :: "('k, 'b, 't) outside \<Rightarrow> 'k launch \<Rightarrow> built \<Rightarrow> (exn + server) \<times> built" where
  "startup sys la SERVICENOW =
     (case create_server sys la SERVICENOW of
        (Inl (ServiceNowError m), s) \<Rightarrow> (Inl (SystemExit (''startup failed: '' @ m)), s)
      | (Inl (PolicyError m), s) \<Rightarrow> (Inl (SystemExit (''startup failed: '' @ m)), s)
      | (Inl (RequestStateKeyError m), s) \<Rightarrow> (Inl (SystemExit (''startup failed: '' @ m)), s)
      | r \<Rightarrow> r)"

section \<open>The tools over a backend\<close>

text \<open>The write tool, past its checks, is one creation against the shipment's system.\<close>

lemma raise_creates:
  assumes "map_of db shipment_id = Some sh" and "urgency \<in> {''1'', ''2'', ''3''}"
  obtains sd d where "raise_shipment_incident backend db shipment_id urgency s =
    bindS (sn_create backend sd (sh_ci sh) urgency d s) (\<lambda>incident s. (Inr (summarise incident), s))"
proof
  show "raise_shipment_incident backend db shipment_id urgency s =
    bindS (sn_create backend (''Shipment '' @ sh_id sh @ '' delayed to '' @ sh_destination sh) (sh_ci sh)
        urgency
        (''Shipment '' @ sh_id sh @ '' from '' @ sh_origin sh @ '' to '' @ sh_destination sh @
         '' is flagged '' @ sh_status sh @ '' with an estimated arrival of '' @
         strftime_minutes (sh_eta sh) @ '' UTC. Raised from the MCP layer.'') s)
      (\<lambda>incident s. (Inr (summarise incident), s))"
    using assms by (simp add: raise_shipment_incident_def)
qed

context backend_reader
begin

lemma assess_keeps: "snd (assess_shipment_delay backend db now shipment_id s) = s"
proof (cases "map_of db shipment_id")
  case None
  then show ?thesis by (simp add: assess_shipment_delay_def)
next
  case (Some sh)
  obtain r1 where f: "sn_find backend (sh_ci sh) s = (r1, s)" using find_keeps by (metis prod.collapse)
  obtain r2 where g: "sn_search backend (Some (sh_ci sh)) True 10 s = (r2, s)" using search_keeps by (metis prod.collapse)
  from Some show ?thesis by (cases r1; cases r2) (simp_all add: assess_shipment_delay_def f g)
qed

lemma search_tool_keeps: "snd (search_incidents backend ci limit s) = s"
  by (simp add: search_incidents_def bindS_result search_keeps)

lemma get_item_keeps: "snd (get_configuration_item backend name s) = s"
  by (simp add: get_configuration_item_def bindS_result find_keeps)

end

text \<open>An assessment, from the incidents found and the CMDB alone.\<close>

definition assessment_of ::
  "shipment \<Rightarrow> int \<Rightarrow> configuration_item option \<Rightarrow> incident list \<Rightarrow> delay_assessment"
where
  "assessment_of sh now item found =
     \<lparr>da_shipment_id = sh_id sh, da_delayed = (sh_status sh = ''delayed''),
      da_hours_late = py_round_1 (hours_late (sh_eta sh) now), da_configuration_item = sh_ci sh,
      da_configuration_item_found = (item \<noteq> None), da_open_incidents = map summarise found,
      da_recommendation = recommend (sh_status sh = ''delayed'') (sh_ci sh) item found\<rparr>"

text \<open>The advice to enrich the first of the incidents an assessment lists.\<close>

definition advises_enriching :: "shipment \<Rightarrow> delay_assessment \<Rightarrow> bool" where
  "advises_enriching sh a \<longleftrightarrow>
     (case da_open_incidents a of
        [] \<Rightarrow> False
      | i # _ \<Rightarrow> da_recommendation a = ''Enrich '' @ is_number i @ '' rather than opening a duplicate '' @ em_dash @
          '' '' @ sh_ci sh @ '' already has an open incident.'')"

lemma assessment_advises:
  "sh_status sh = ''delayed'' \<Longrightarrow> item \<noteq> None \<Longrightarrow> found \<noteq> [] \<Longrightarrow> advises_enriching sh (assessment_of sh now item found)"
  by (cases found) (simp_all add: advises_enriching_def assessment_of_def recommend_def summarise_def)

context incident_tracker
begin

lemma assess_tracked:
  assumes "map_of db shipment_id = Some sh" and "plain (sh_ci sh)"
  shows "\<exists>found. assess_shipment_delay backend db now shipment_id s =
      (Inr (assessment_of sh now (cmdb s (sh_ci sh)) (map shown found)), s) \<and>
    mset found \<subseteq># active s (sh_ci sh) \<and> length found = min 10 (size (active s (sh_ci sh))) \<and>
    list_all (\<lambda>i. inc_configuration_item (shown i) = sh_ci sh) found"
proof -
  obtain found where "sn_search backend (Some (sh_ci sh)) True 10 s = (Inr (map shown found), s)"
    and "mset found \<subseteq># active s (sh_ci sh)" "length found = min 10 (size (active s (sh_ci sh)))"
      "list_all (\<lambda>i. inc_configuration_item (shown i) = sh_ci sh) found"
    using active_plain [OF assms(2)] by blast
  with assms show ?thesis
    by (intro exI [of _ found]) (simp add: assess_shipment_delay_def assessment_of_def find_plain)
qed

lemma raise_tracked:
  assumes "map_of db shipment_id = Some sh" and "plain (sh_ci sh)" and "urgency \<in> {''1'', ''2'', ''3''}"
    and "cmdb s (sh_ci sh) \<noteq> None"
  shows "\<exists>i j s'. raise_shipment_incident backend db shipment_id urgency s = (Inr (summarise i), s') \<and>
    j \<in># active s' (sh_ci sh) \<and> cmdb s' = cmdb s \<and> inc_number i = inc_number j \<and> inc_urgency i = urgency"
proof -
  obtain sd d where run: "raise_shipment_incident backend db shipment_id urgency s =
      bindS (sn_create backend sd (sh_ci sh) urgency d s) (\<lambda>incident s. (Inr (summarise incident), s))"
    using raise_creates [OF assms(1,3)] .
  obtain i j s' where "sn_create backend sd (sh_ci sh) urgency d s = (Inr i, s')"
    and "j \<in># active s' (sh_ci sh)" "cmdb s' = cmdb s" "inc_number i = inc_number j" "inc_urgency i = urgency"
    using create_plain [OF assms(2,4), of sd urgency d] by blast
  then show ?thesis by (intro exI [of _ i] exI [of _ j] exI [of _ s']) (simp add: run)
qed

text \<open>
  Raise, then assess: what is raised is active, what is listed are active incidents of the
  system, ten of them or all, and the advice is to enrich one. When all are listed, so is
  the one raised.
\<close>

lemma raise_then_assess_tracked:
  assumes "map_of db shipment_id = Some sh" and "plain (sh_ci sh)" and "urgency \<in> {''1'', ''2'', ''3''}"
    and "cmdb s (sh_ci sh) \<noteq> None" and "sh_status sh = ''delayed''"
  shows "\<exists>summary s' a. raise_shipment_incident backend db shipment_id urgency s = (Inr summary, s') \<and>
    assess_shipment_delay backend db (now s') shipment_id s' = (Inr a, s') \<and> is_urgency summary = urgency \<and>
    is_number summary \<in># image_mset inc_number (active s' (sh_ci sh)) \<and>
    length (da_open_incidents a) = min 10 (size (active s' (sh_ci sh))) \<and>
    mset (map is_number (da_open_incidents a)) \<subseteq># image_mset inc_number (active s' (sh_ci sh)) \<and>
    list_all (\<lambda>i. is_configuration_item i = sh_ci sh) (da_open_incidents a) \<and> advises_enriching sh a \<and>
    (size (active s' (sh_ci sh)) \<le> 10 \<longrightarrow> is_number summary \<in> is_number ` set (da_open_incidents a))"
proof -
  obtain i j s' where r: "raise_shipment_incident backend db shipment_id urgency s = (Inr (summarise i), s')"
    and j: "j \<in># active s' (sh_ci sh)" and c: "cmdb s' = cmdb s" and i: "inc_number i = inc_number j" "inc_urgency i = urgency"
    using raise_tracked [OF assms(1-4)] by blast
  obtain found where a: "assess_shipment_delay backend db (now s') shipment_id s' =
      (Inr (assessment_of sh (now s') (cmdb s' (sh_ci sh)) (map shown found)), s')"
    and sub: "mset found \<subseteq># active s' (sh_ci sh)" and len: "length found = min 10 (size (active s' (sh_ci sh)))"
    and ci: "list_all (\<lambda>i. inc_configuration_item (shown i) = sh_ci sh) found"
    using assess_tracked [OF assms(1,2)] by blast
  let ?a = "assessment_of sh (now s') (cmdb s' (sh_ci sh)) (map shown found)"
  have numbers: "map is_number (da_open_incidents ?a) = map inc_number found"
    by (simp add: assessment_of_def summarise_def shown_number)
  have "active s' (sh_ci sh) \<noteq> {#}" using j by auto
  with len have "found \<noteq> []" by (auto simp: min_def split: if_splits)
  then have "advises_enriching sh ?a"
    using assms(4,5) c by (intro assessment_advises) simp_all
  moreover have "is_number (summarise i) \<in> is_number ` set (da_open_incidents ?a)"
    if "size (active s' (sh_ci sh)) \<le> 10"
  proof -
    have "size (mset found) = size (active s' (sh_ci sh))" using len that by simp
    with sub have "mset found = active s' (sh_ci sh)"
      by (metis less_irrefl mset_subset_size subset_mset.le_neq_trans)
    then have "j \<in> set found" using j by (metis set_mset_mset)
    then have "inc_number j \<in> set (map is_number (da_open_incidents ?a))" unfolding numbers by simp
    with i show ?thesis by (simp add: summarise_def)
  qed
  moreover have "mset (map is_number (da_open_incidents ?a)) \<subseteq># image_mset inc_number (active s' (sh_ci sh))"
    unfolding numbers using image_mset_subseteq_mono [OF sub] by simp
  moreover have "length (da_open_incidents ?a) = min 10 (size (active s' (sh_ci sh)))"
    by (simp add: assessment_of_def len)
  moreover have "list_all (\<lambda>i. is_configuration_item i = sh_ci sh) (da_open_incidents ?a)"
    using ci by (auto simp: assessment_of_def summarise_def list_all_iff)
  ultimately show ?thesis
    using r a i j by (intro exI [of _ "summarise i"] exI [of _ s'] exI [of _ ?a]) (auto simp: summarise_def)
qed

end

context incident_backend
begin

lemma raise_cases:
  assumes "raise_shipment_incident backend db shipment_id urgency s = (r, s')"
  shows "case r of
      Inl e \<Rightarrow> s' = s
    | Inr summary \<Rightarrow> (\<exists>sh i. map_of db shipment_id = Some sh \<and> urgency \<in> {''1'', ''2'', ''3''} \<and>
        journal s' = journal s @ [i] \<and> summary = summarise i \<and> cmdb s (sh_ci sh) \<noteq> None \<and>
        inc_configuration_item i = sh_ci sh \<and> inc_urgency i = urgency \<and> cmdb s' = cmdb s)"
proof (cases "map_of db shipment_id")
  case None
  with assms show ?thesis by (auto simp: raise_shipment_incident_def)
next
  case (Some sh)
  show ?thesis
  proof (cases "urgency \<in> {''1'', ''2'', ''3''}")
    case False
    with Some assms show ?thesis by (auto simp: raise_shipment_incident_def)
  next
    case True
    obtain sd d where run: "raise_shipment_incident backend db shipment_id urgency s =
        bindS (sn_create backend sd (sh_ci sh) urgency d s) (\<lambda>incident s. (Inr (summarise incident), s))"
      using raise_creates [OF Some True] .
    let ?create = "sn_create backend sd (sh_ci sh) urgency d s"
    show ?thesis
    proof (cases "cmdb s (sh_ci sh) = None")
      case False
      then obtain i s1 where c: "?create = (Inr i, s1)" and j: "journal s1 = journal s @ [i]"
        "cmdb s1 = cmdb s" "inc_configuration_item i = sh_ci sh" "inc_urgency i = urgency"
        using create_known by blast
      from assms have "r = Inr (summarise i)" and "s' = s1" unfolding run c by simp_all
      with Some True False j show ?thesis by auto
    next
      case unknown: True
      then obtain m where c: "?create = (Inl (ServiceNowError m), s)"
        using create_unknown by blast
      from assms have "r = Inl (ServiceNowError m)" and "s' = s" unfolding run c by simp_all
      then show ?thesis by simp
    qed
  qed
qed

lemma raise_succeeds:
  assumes "map_of db shipment_id = Some sh" and "urgency \<in> {''1'', ''2'', ''3''}" and "cmdb s (sh_ci sh) \<noteq> None"
  shows "is_ok (fst (raise_shipment_incident backend db shipment_id urgency s))"
proof -
  obtain sd d where run: "raise_shipment_incident backend db shipment_id urgency s =
      bindS (sn_create backend sd (sh_ci sh) urgency d s) (\<lambda>incident s. (Inr (summarise incident), s))"
    using raise_creates [OF assms(1,2)] .
  obtain i s1 where "sn_create backend sd (sh_ci sh) urgency d s = (Inr i, s1)"
    using create_known [OF assms(3)] by blast
  then show ?thesis by (simp add: run is_ok_iff)
qed

lemma assess_exact:
  assumes "map_of db shipment_id = Some sh"
  shows "assess_shipment_delay backend db now shipment_id s =
    (Inr (assessment_of sh now (cmdb s (sh_ci sh))
      (take 10 (filter (mock_matches (Some (sh_ci sh)) True) (journal s)))), s)"
  using assms by (simp add: assess_shipment_delay_def assessment_of_def find search py_take_def)

text \<open>The same over a log, exactly: one incident more, and the first ten open ones listed.\<close>

lemma raise_then_assess:
  assumes "map_of db shipment_id = Some sh" and "urgency \<in> {''1'', ''2'', ''3''}" and "cmdb s (sh_ci sh) \<noteq> None"
    and "sh_status sh = ''delayed''"
  shows "\<exists>j s' a. raise_shipment_incident backend db shipment_id urgency s = (Inr (summarise j), s') \<and>
    assess_shipment_delay backend db (now s') shipment_id s' = (Inr a, s') \<and> journal s' = journal s @ [j] \<and>
    inc_configuration_item j = sh_ci sh \<and> inc_urgency j = urgency \<and> inc_state j \<notin> {''6'', ''7''} \<and>
    da_open_incidents a =
      map summarise (take 10 (filter (mock_matches (Some (sh_ci sh)) True) (journal s) @ [j])) \<and>
    advises_enriching sh a"
proof -
  obtain sd d where run: "raise_shipment_incident backend db shipment_id urgency s =
      bindS (sn_create backend sd (sh_ci sh) urgency d s) (\<lambda>incident s. (Inr (summarise incident), s))"
    using raise_creates [OF assms(1,2)] .
  obtain j s' where c: "sn_create backend sd (sh_ci sh) urgency d s = (Inr j, s')"
    and j: "journal s' = journal s @ [j]" "cmdb s' = cmdb s" "inc_configuration_item j = sh_ci sh"
      "inc_urgency j = urgency" "inc_state j \<notin> {''6'', ''7''}"
    using create_known [OF assms(3), of sd urgency d] by blast
  let ?found = "take 10 (filter (mock_matches (Some (sh_ci sh)) True) (journal s'))"
  have f: "filter (mock_matches (Some (sh_ci sh)) True) (journal s') =
      filter (mock_matches (Some (sh_ci sh)) True) (journal s) @ [j]"
    by (rule open_after_create(1) [OF c])
  have "assess_shipment_delay backend db (now s') shipment_id s' =
      (Inr (assessment_of sh (now s') (cmdb s' (sh_ci sh)) ?found), s')"
    by (rule assess_exact [OF assms(1)])
  moreover have "advises_enriching sh (assessment_of sh (now s') (cmdb s' (sh_ci sh)) ?found)"
    by (rule assessment_advises [OF assms(4)]) (use assms(3) j(2) in \<open>simp_all add: f\<close>)
  moreover have "da_open_incidents (assessment_of sh (now s') (cmdb s' (sh_ci sh)) ?found) =
      map summarise (take 10 (filter (mock_matches (Some (sh_ci sh)) True) (journal s) @ [j]))"
    by (simp only: assessment_of_def f delay_assessment.simps)
  moreover have "raise_shipment_incident backend db shipment_id urgency s = (Inr (summarise j), s')"
    by (simp add: run c)
  ultimately show ?thesis using j by blast
qed

end

lemmas mock_flow = mock.raise_then_assess

section \<open>Startup\<close>

lemma bindS_fst_Inr:
  "fst (bindS (liftS r s) f) = Inr b \<longleftrightarrow> (\<exists>a. r = Inr a \<and> fst (f a s) = Inr b)"
  by (cases r) simp_all

lemma is_ok_bindS: "is_ok (fst (bindS (liftS r s) f)) \<longleftrightarrow> (\<exists>a. r = Inr a \<and> is_ok (fst (f a s)))"
  by (cases r) simp_all

lemma startup_Inr: "fst (startup sys la g) = Inr srv \<longleftrightarrow> fst (create_server sys la g) = Inr srv"
  by (cases "create_server sys la g" rule: prod.exhaust)
    (auto simp: startup_def split: sum.splits exn.splits)

lemma startup_ok: "is_ok (fst (startup sys la g)) \<longleftrightarrow> is_ok (fst (create_server sys la g))"
  by (metis is_ok_iff startup_Inr)

lemma server_verifier: "\<exists>v. init_verifier issuer audience ALLOWED_ALGORITHMS leeway = Inr v \<and>
    v_issuer v = issuer \<and> v_audience v = audience \<and> v_algorithms v = ALLOWED_ALGORITHMS"
  by (simp add: init_verifier_def)

lemma auth_setup_verifier:
  assumes "auth_setup sys la = Inr (verifier, auth)" and "la_auth la \<noteq> AuthOff"
  shows "\<exists>v src. verifier = Some (v, src) \<and> v_algorithms v = ALLOWED_ALGORITHMS"
  using assms
  by (cases "la_auth la")
    (auto simp: auth_setup_def bindE_eq_Inr init_verifier_def split: option.splits if_splits)

lemma create_server_guarded:
  assumes "fst (create_server sys la g) = Inr srv" and "la_auth la \<noteq> AuthOff"
    and "la_policy_path la = Some path"
  shows "\<exists>p v src. load (o_read_text sys) (o_safe_load sys) path = Inr p \<and>
    sv_middleware srv = [\<lparr>mw_policy = p, mw_enforce = la_enforce la\<rparr>] \<and>
    sv_verifier srv = Some (v, src) \<and> v_algorithms v = ALLOWED_ALGORITHMS"
proof -
  obtain verifier auth where a: "auth_setup sys la = Inr (verifier, auth)"
    and v: "sv_verifier srv = verifier"
    and m: "\<exists>p. load (o_read_text sys) (o_safe_load sys) path = Inr p \<and>
      sv_middleware srv = [\<lparr>mw_policy = p, mw_enforce = la_enforce la\<rparr>]"
    using assms by (auto simp: create_server_def bindS_fst_Inr bindE_eq_Inr)
  from auth_setup_verifier [OF a assms(2)] v m show ?thesis by blast
qed

lemma load_wf_policy: "load read_text safe_load path = Inr p \<Longrightarrow> wf_policy p"
  by (auto simp: load_def split: sum.splits exn.splits if_splits intro: from_mapping_wf_policy)

text \<open>
  What has to be in place before a start, said of the environment, the files and the SDK's
  validation of the settings, without the functions of the construction.
\<close>

definition auth_ready :: "('k, 'b, 't) outside \<Rightarrow> 'k launch \<Rightarrow> bool" where
  "auth_ready sys la \<longleftrightarrow>
     (case la_auth la of
        AuthOff \<Rightarrow> True
      | AuthDev \<Rightarrow>
          is_ok (o_settings sys
            \<lparr>au_issuer_url = (case la_dev_idp la of Some idp \<Rightarrow> di_issuer idp | None \<Rightarrow> DEV_ISSUER),
             au_resource_server_url = la_resource_url la, au_required_scopes = [''mcp.invoke'']\<rparr>)
      | AuthEntra \<Rightarrow>
          (case o_env sys ''MCP_ENTRA_TENANT_ID'' of
             None \<Rightarrow> False
           | Some tenant \<Rightarrow> tenant \<noteq> [] \<and>
             is_ok (o_settings sys
               \<lparr>au_issuer_url = ''https://login.microsoftonline.com/'' @ tenant @ ''/v2.0'',
                au_resource_server_url = (case o_env sys ''MCP_RESOURCE_URL'' of
                  Some url \<Rightarrow> url | None \<Rightarrow> la_resource_url la),
                au_required_scopes = [''mcp.invoke'']\<rparr>)))"

definition keys_ready :: "string option \<Rightarrow> bool" where
  "keys_ready ring \<longleftrightarrow>
     (case ring of
        None \<Rightarrow> True
      | Some text \<Rightarrow> list_all (\<lambda>c. case b64decode c of None \<Rightarrow> False | Some key \<Rightarrow> 32 \<le> length key) (entries text))"

definition connector_ready :: "(string \<Rightarrow> string option) \<Rightarrow> backend_kind \<Rightarrow> bool" where
  "connector_ready env kind \<longleftrightarrow> kind = MockBackend \<or>
     list_all (\<lambda>name. env name \<notin> {None, Some []})
       [''SERVICENOW_INSTANCE'', ''SERVICENOW_USER'', ''SERVICENOW_PASSWORD'']"

definition policy_ready :: "(string \<Rightarrow> exn + string) \<Rightarrow> (string \<Rightarrow> exn + pyval) \<Rightarrow> string \<Rightarrow> bool" where
  "policy_ready read_text safe_load path \<longleftrightarrow>
     (case read_text path of
        Inl _ \<Rightarrow> False
      | Inr text \<Rightarrow> (case safe_load text of Inl _ \<Rightarrow> False | Inr raw \<Rightarrow> valid_doc raw))"

lemma auth_setup_ok: "is_ok (auth_setup sys la) \<longleftrightarrow> auth_ready sys la"
proof -
  have ok: "is_ok (bindE r (\<lambda>auth. Inr (f auth))) \<longleftrightarrow> is_ok r"
    for r :: "exn + auth_settings" and f :: "auth_settings \<Rightarrow> (verifier \<times> key_src) option \<times> auth_settings option"
    by (cases r) simp_all
  have idp: "\<exists>idp. (case la_dev_idp la of Some idp \<Rightarrow> Inr idp
      | None \<Rightarrow> fst (init_devidp (o_crypto sys) (o_fresh sys) DEV_ISSUER (la_audience la) None []
          \<lparr>fs_content = Map.empty, fs_mode = (\<lambda>_. 0)\<rparr>)) = Inr idp \<and>
      di_issuer idp = (case la_dev_idp la of Some idp \<Rightarrow> di_issuer idp | None \<Rightarrow> DEV_ISSUER)"
    by (cases "la_dev_idp la") (simp_all add: init_devidp_def load_or_generate_def)
  show ?thesis
  proof (cases "la_auth la")
    case AuthOff
    then show ?thesis by (simp add: auth_setup_def auth_ready_def)
  next
    case AuthDev
    with idp show ?thesis
      by (auto simp: auth_setup_def auth_ready_def init_verifier_def REQUIRED_SCOPES_def ok)
  next
    case AuthEntra
    then show ?thesis
      by (auto simp: auth_setup_def auth_ready_def init_verifier_def REQUIRED_SCOPES_def entra_issuer_def
          env_get_def ok split: option.splits)
  qed
qed

lemma load_keys_ok: "is_ok (load_keys environ None) \<longleftrightarrow> keys_ready environ"
proof (cases environ)
  case None
  then show ?thesis by (simp add: load_keys_def keys_ready_def strip_def)
next
  case (Some ring)
  have "is_ok (load_keys environ None) \<longleftrightarrow> list_all good_entry (entries ring)"
    unfolding Some load_keys_environ is_ok_iff load_keys_Inr by simp
  then show ?thesis
    unfolding Some keys_ready_def good_entry_def MINIMUM_KEY_BYTES_def by simp
qed

lemma build_ok: "is_ok (build environ audience ttl) \<longleftrightarrow> keys_ready environ"
proof -
  have "is_ok (build environ audience ttl) \<longleftrightarrow> is_ok (load_keys environ None)"
    by (cases "load_keys environ None") (simp_all add: build_def)
  then show ?thesis by (simp add: load_keys_ok)
qed

lemma build_backend_ok: "is_ok (build_backend kind env) \<longleftrightarrow> connector_ready env kind"
proof -
  have "is_ok (build_backend kind env) \<longleftrightarrow> kind = MockBackend \<or> is_ok (from_environment env)"
    by (cases kind; cases "from_environment env") (simp_all add: build_backend_def)
  then show ?thesis
    by (simp add: connector_ready_def from_environment_ok ENV_INSTANCE_def ENV_USER_def ENV_PASSWORD_def)
qed

lemma load_ok: "is_ok (load read_text safe_load path) \<longleftrightarrow> policy_ready read_text safe_load path"
proof (cases "bindE (read_text path) safe_load")
  case (Inl e)
  then have "\<not> policy_ready read_text safe_load path"
    by (auto simp: policy_ready_def split: sum.splits)
  with Inl show ?thesis by (cases e) (simp_all add: load_def)
next
  case (Inr raw)
  then have "policy_ready read_text safe_load path \<longleftrightarrow> valid_doc raw"
    by (auto simp: policy_ready_def bindE_eq_Inr split: sum.splits)
  with Inr show ?thesis by (simp add: load_def from_mapping_ok)
qed

lemma startup_ready:
  "is_ok (fst (startup sys la g)) \<longleftrightarrow>
    auth_ready sys la \<and> keys_ready (o_env sys ENV_KEYS) \<and> connector_ready (o_env sys) (la_backend la) \<and>
    (la_auth la = AuthOff \<or>
     (\<forall>path. la_policy_path la = Some path \<longrightarrow> policy_ready (o_read_text sys) (o_safe_load sys) path))"
proof -
  have ex: "(\<exists>a. r = Inr a \<and> Q) \<longleftrightarrow> is_ok r \<and> Q" for r :: "exn + 'x" and Q
    by (auto simp: is_ok_iff)
  have bind_ok: "is_ok (bindE r (\<lambda>x. Inr (h x))) \<longleftrightarrow> is_ok r" for r :: "exn + 'x" and h :: "'x \<Rightarrow> 'y"
    by (cases r) simp_all
  have "is_ok (fst (create_server sys la g)) \<longleftrightarrow>
      is_ok (auth_setup sys la) \<and> is_ok (build (o_env sys ENV_KEYS) None 600) \<and>
      is_ok (build_backend (la_backend la) (o_env sys)) \<and>
      is_ok (if la_auth la \<noteq> AuthOff
        then (case la_policy_path la of None \<Rightarrow> Inr []
          | Some path \<Rightarrow> bindE (load (o_read_text sys) (o_safe_load sys) path)
              (\<lambda>p. Inr [\<lparr>mw_policy = p, mw_enforce = la_enforce la\<rparr>]))
        else (Inr [] :: exn + middleware list))"
    unfolding create_server_def is_ok_bindS split_beta by (simp add: ex is_ok_bindS) (simp add: is_ok_iff)
  then show ?thesis
    by (auto simp: startup_ok auth_setup_ok build_ok build_backend_ok bind_ok load_ok split: option.splits)
qed

text \<open>The case the development server of the witnesses is in.\<close>

lemma startup_dev_ok:
  assumes "la_auth la = AuthDev" and "la_policy_path la = Some path" and "la_backend la = MockBackend"
    and "\<And>x. is_ok (o_settings sys x)"
  shows "is_ok (fst (startup sys la g)) \<longleftrightarrow>
    is_ok (load_keys (o_env sys ENV_KEYS) None) \<and> is_ok (load (o_read_text sys) (o_safe_load sys) path)"
  using assms by (simp add: startup_ready auth_ready_def connector_ready_def load_keys_ok load_ok)

section \<open>Properties\<close>

text \<open>The write tool: raising an incident over the mock either fails and changes nothing, or
  files exactly one incident, at the end of the log, against the configuration item of a known
  shipment, with one of the three urgencies, and returns its summary.\<close>

lemma raise_files_one_incident:
  "case raise_shipment_incident (mock_servicenow ticks) db shipment_id urgency s of
     (Inl e, s') \<Rightarrow> s' = s
   | (Inr summary, s') \<Rightarrow> (\<exists>sh i. map_of db shipment_id = Some sh \<and> urgency \<in> {''1'', ''2'', ''3''} \<and>
       mk_incidents s' = mk_incidents s @ [i] \<and> summary = summarise i \<and>
       map_of (mk_items s) (sh_ci sh) \<noteq> None \<and> inc_configuration_item i = sh_ci sh \<and>
       inc_urgency i = urgency)"
  using mock.raise_cases [of ticks db shipment_id urgency s]
  by (cases "raise_shipment_incident (mock_servicenow ticks) db shipment_id urgency s")
    (fastforce split: sum.splits)

text \<open>Looking does not touch production: over the mock the assessment, the incident search
  and the CMDB lookup leave the backend exactly as it was.\<close>

lemma read_tools_change_nothing:
  "snd (assess_shipment_delay (mock_servicenow ticks) db now shipment_id s) = s \<and>
   snd (search_incidents (mock_servicenow ticks) ci limit s) = s \<and>
   snd (get_configuration_item (mock_servicenow ticks) name s) = s"
  by (simp add: mock.assess_keeps mock.search_tool_keeps mock.get_item_keeps)

text \<open>A machine to start a server on.\<close>

definition example_sys :: "string \<Rightarrow> (nat, nat, pydict \<times> nat option \<times> string option \<times> pydict) outside" where
  "example_sys keys = \<lparr>o_read_text = (\<lambda>p. Inr p), o_safe_load = (\<lambda>t. Inr (PDict gate_doc)),
     o_crypto = toy_crypto, o_fresh = 7, o_settings = Inr,
     o_env = (\<lambda>k. if k = ENV_KEYS then Some keys else None)\<rparr>"

definition example_launch :: "nat launch" where
  "example_launch = \<lparr>la_auth = AuthDev, la_policy_path = Some ''policy.yaml'', la_dev_idp = Some toy_idp,
     la_resource_url = DEFAULT_RESOURCE_URL, la_audience = DEFAULT_AUDIENCE, la_enforce = True,
     la_backend = MockBackend\<rparr>"

definition example_global :: built where
  "example_global = BuiltMock (init_mock [] [])"

text \<open>C28: when a server starts, in every mode: exactly when the mode's settings are accepted (none
  when off; the provider's issuer, given or built, in \<open>dev\<close>; a tenant id that is set, and that
  tenant's issuer, in \<open>entra\<close>), every entry of the key ring is base64 of at least 32 bytes,
  the connector is the mock or has its three credentials, and, with authentication on and a
  policy path, the policy file can be read, is YAML and is a valid document. Nothing else is
  required, and nothing less is enough.\<close>

theorem startup_iff:
  "is_ok (fst (startup sys la g)) \<longleftrightarrow>
    auth_ready sys la \<and> keys_ready (o_env sys ''MCP_REQUEST_STATE_KEYS'') \<and>
    connector_ready (o_env sys) (la_backend la) \<and>
    (la_auth la = AuthOff \<or>
     (\<forall>path. la_policy_path la = Some path \<longrightarrow> policy_ready (o_read_text sys) (o_safe_load sys) path))"
  unfolding ENV_KEYS_def [symmetric] by (rule startup_ready)

text \<open>The development server starts; it does not on a ring entry that is no key, nor without its
  credentials on the live connector, nor on an invalid policy, which the mode \<open>off\<close> does not
  read; the Entra server does not without a tenant.\<close>

theorem startup_iff_witness:
  "let starts = (\<lambda>sys la. is_ok (fst (startup sys la example_global)));
       bad_policy = (example_sys [])\<lparr>o_safe_load := (\<lambda>t. Inr (PDict roles_as_list_doc))\<rparr>
   in starts (example_sys []) example_launch \<and> \<not> starts (example_sys ''changeme'') example_launch \<and>
      \<not> starts (example_sys []) (example_launch\<lparr>la_backend := LiveBackend\<rparr>) \<and>
      \<not> starts bad_policy example_launch \<and> starts bad_policy (example_launch\<lparr>la_auth := AuthOff\<rparr>) \<and>
      \<not> starts (example_sys []) (example_launch\<lparr>la_auth := AuthEntra\<rparr>)"
proof -
  have keys: "keys_ready (Some [])" "\<not> keys_ready (Some ''changeme'')"
    by code_simp+
  have docs: "valid_doc (PDict gate_doc)" "\<not> valid_doc (PDict roles_as_list_doc)" by code_simp+
  show ?thesis
    unfolding Let_def startup_iff
    by (simp add: keys docs auth_ready_def connector_ready_def policy_ready_def example_sys_def
        example_launch_def ENV_KEYS_def)
qed

text \<open>The write tool does not look at the status: a delivered shipment gets its incident.\<close>

lemma raise_for_delivered:
  "map_option sh_status (map_of (fixtures 0) ''SHP-1003'') = Some ''delivered''"
  "is_ok (fst (raise_shipment_incident (mock_servicenow (\<lambda>n. ''now'')) (fixtures 0) ''SHP-1003'' ''3''
     (init_mock [] [])))"
  by code_simp+

text \<open>C21: what an Entra server accepts: when the construction in \<open>entra\<close> mode succeeds, the tenant
  is configured and the server's key source is that tenant's endpoint; and every token
  accepted over an endpoint made for that URI, fresh or with the client it made for it, was
  decoded with a key published at the tenant's JWKS URI, the asymmetric algorithms, the
  tenant's issuer, this server's audience, a leeway of a minute, the five required claims and
  every verification on. A JWKS client is code outside: it serves the keys of the URI it was
  made for.\<close>

theorem entra_server_checks_tokens:
  assumes "auth_setup sys la = Inr (Some (v, src), auth)" and "la_auth la = AuthEntra"
    and "\<forall>u. uri_of (new_client u) = u"
    and "\<forall>c t r c'. get_key c t = (r, c') \<longrightarrow> uri_of c' = uri_of c"
    and "\<forall>c t k c'. get_key c t = (Inr k, c') \<longrightarrow> k \<in> published (uri_of c)"
    and "src = Endpoint (je_uri e)" and "own_client uri_of e"
    and "verify_token (endpoint_key_for new_client get_key) decode show_exn v token e = (Inr (Some tok), lines, e')"
  shows "\<exists>tenant k claims. o_env sys ''MCP_ENTRA_TENANT_ID'' = Some tenant \<and> tenant \<noteq> [] \<and>
    src = Endpoint (''https://login.microsoftonline.com/'' @ tenant @ ''/discovery/v2.0/keys'') \<and>
    k \<in> published (''https://login.microsoftonline.com/'' @ tenant @ ''/discovery/v2.0/keys'') \<and>
    decode token k ALLOWED_ALGORITHMS (entra_issuer tenant)
      (env_get (o_env sys) ''MCP_RESOURCE_AUDIENCE'' (la_audience la)) 60
      [''exp'', ''iat'', ''iss'', ''aud'', ''sub'']
      [''verify_signature'', ''verify_exp'', ''verify_nbf'', ''verify_iat'', ''verify_iss'', ''verify_aud''] = Inr claims \<and>
    roles_from_token (Some tok) = string_list (dict_get claims ''roles'') \<and>
    own_client uri_of e' \<and> je_uri e' = je_uri e"
proof -
  obtain tenant where t: "o_env sys ''MCP_ENTRA_TENANT_ID'' = Some tenant" "tenant \<noteq> []"
    and src: "src = Endpoint (entra_jwks_uri tenant)"
    and v: "init_verifier (entra_issuer tenant)
      (env_get (o_env sys) ''MCP_RESOURCE_AUDIENCE'' (la_audience la)) ALLOWED_ALGORITHMS 60 = Inr v"
    using assms(1,2) by (auto simp: auth_setup_def bindE_eq_Inr split: option.splits if_splits)
  have ks: "key_source (endpoint_key_for new_client get_key) (endpoint_trusted uri_of published)"
    by (rule endpoint_key_source) (use assms(3,4,5) in blast)+
  obtain k claims where "k \<in> endpoint_trusted uri_of published e"
    and dec: "decode token k (v_algorithms v) (v_issuer v) (v_audience v) (v_leeway_seconds v) required_claims
      verify_options = Inr claims"
    and tok: "to_access_token v token claims = Inr tok"
    using key_source.accepted [OF ks assms(8)] by blast
  then have k: "k \<in> published (entra_jwks_uri tenant)"
    using assms(6) src by (simp add: own_client_trusted [OF assms(7)])
  obtain r where r: "endpoint_key_for new_client get_key e token = (r, e')"
    using verify_token_source [OF assms(8)] by blast
  have kept: "own_client uri_of e' \<and> je_uri e' = je_uri e"
    by (rule own_client_kept [OF _ _ assms(7) r]) (use assms(3,4) in blast)+
  show ?thesis
    using t k src dec init_verifier_Inr [OF v] to_access_token_fields(1) [OF tok] kept
    by (auto simp: required_claims_def verify_options_def entra_jwks_uri_def)
qed

definition entra_sys :: "(nat, nat, pydict \<times> nat option \<times> string option \<times> pydict) outside" where
  "entra_sys = (example_sys [])\<lparr>o_env := (\<lambda>k. if k = ''MCP_ENTRA_TENANT_ID'' then Some ''t1'' else None)\<rparr>"

definition entra_launch :: "nat launch" where
  "entra_launch = example_launch\<lparr>la_auth := AuthEntra, la_audience := ''api''\<rparr>"

text \<open>A client that is its URI, with one key published at the tenant's.\<close>

definition entra_get_key :: "string \<Rightarrow> string \<Rightarrow> (exn + nat) \<times> string" where
  "entra_get_key c t =
     (if c = entra_jwks_uri ''t1'' then Inr 7 else Inl (Foreign ''PyJWKClientError'' []), c)"

definition entra_published :: "string \<Rightarrow> nat set" where
  "entra_published u = (if u = entra_jwks_uri ''t1'' then {7} else {})"

theorem entra_server_checks_tokens_witness:
  "\<exists>v auth tok lines e'.
     auth_setup entra_sys entra_launch = Inr (Some (v, Endpoint (entra_jwks_uri ''t1'')), auth) \<and>
     verify_token (endpoint_key_for (\<lambda>u. u) entra_get_key) (example_decode example_claims) (\<lambda>_. []) v ''tok''
       \<lparr>je_uri = entra_jwks_uri ''t1'', je_client = None\<rparr> = (Inr (Some tok), lines, e') \<and>
     roles_from_token (Some tok) = [''tlo.reader''] \<and> je_client e' = Some (entra_jwks_uri ''t1'')"
proof -
  obtain v where v: "init_verifier (entra_issuer ''t1'') ''api'' ALLOWED_ALGORITHMS 60 = Inr v"
    and "v_audience v = ''api''"
    using server_verifier by blast
  then obtain auth where su: "auth_setup entra_sys entra_launch =
      Inr (Some (v, Endpoint (entra_jwks_uri ''t1'')), auth)"
    by (auto simp: auth_setup_def entra_sys_def entra_launch_def example_sys_def env_get_def)
  obtain tok where tok: "to_access_token v ''tok'' example_claims = Inr tok"
  proof -
    have "projectable example_claims" by code_simp
    then show ?thesis using that to_access_token_ok [of v "''tok''" example_claims] by (auto simp: is_ok_iff)
  qed
  let ?e = "\<lparr>je_uri = entra_jwks_uri ''t1'', je_client = None\<rparr>"
  have run: "verify_token (endpoint_key_for (\<lambda>u. u) entra_get_key) (example_decode example_claims) (\<lambda>_. []) v ''tok'' ?e =
      (Inr (Some tok), [], ?e\<lparr>je_client := Some (entra_jwks_uri ''t1'')\<rparr>)"
  proof -
    have "endpoint_key_for (\<lambda>u. u) entra_get_key ?e ''tok'' =
        (Inr 7, ?e\<lparr>je_client := Some (entra_jwks_uri ''t1'')\<rparr>)"
      by (simp add: endpoint_key_for_def entra_get_key_def Let_def)
    then show ?thesis
      using tok \<open>v_audience v = ''api''\<close> by (simp add: verify_token_def example_decode_def)
  qed
  have entra: "la_auth entra_launch = AuthEntra" by (simp add: entra_launch_def)
  have client: "\<forall>u. (\<lambda>c. c) ((\<lambda>u. u) u) = (u :: string)"
    and kept: "\<forall>c t r c'. entra_get_key c t = (r, c') \<longrightarrow> (\<lambda>c. c) c' = (\<lambda>c. c) c"
    and keys: "\<forall>c t k c'. entra_get_key c t = (Inr k, c') \<longrightarrow> k \<in> entra_published ((\<lambda>c. c) c)"
    by (auto simp: entra_get_key_def entra_published_def split: if_splits)
  have e: "Endpoint (entra_jwks_uri ''t1'') = Endpoint (je_uri ?e)" "own_client (\<lambda>c. c) ?e"
    by (simp_all add: own_client_def)
  obtain k claims where dec: "example_decode example_claims ''tok'' k ALLOWED_ALGORITHMS (entra_issuer ''t1'')
      (env_get (o_env entra_sys) ''MCP_RESOURCE_AUDIENCE'' (la_audience entra_launch)) 60
      [''exp'', ''iat'', ''iss'', ''aud'', ''sub'']
      [''verify_signature'', ''verify_exp'', ''verify_nbf'', ''verify_iat'', ''verify_iss'', ''verify_aud''] = Inr claims"
    and r: "roles_from_token (Some tok) = string_list (dict_get claims ''roles'')"
    using entra_server_checks_tokens [OF su entra client kept keys e run]
    by (auto simp: entra_sys_def)
  from dec have "claims = example_claims" by (auto simp: example_decode_def split: if_splits)
  moreover have "string_list (dict_get example_claims ''roles'') = [''tlo.reader'']" by code_simp
  ultimately have "roles_from_token (Some tok) = [''tlo.reader'']" using r by simp
  with su run show ?thesis by fastforce
qed

section \<open>Lateness\<close>

text \<open>
  The delay is counted from a day after \<open>now\<close> to the arrival, so it shrinks as time passes: a
  flagged shipment that is past its arrival is reported nought hours late.
\<close>

lemma overdue_is_not_late:
  assumes "eta \<le> now"
  shows "hours_late eta now = 0" and "py_round_1 (hours_late eta now) = 0"
proof -
  let ?s = "to_float (of_int (eta - now) / 1000000)"
  have "?s \<le> 0" using assms by (intro to_float_le_0) simp
  then have "to_float (?s / 3600) \<le> 0" by (intro to_float_le_0) simp
  then have "to_float (to_float (?s / 3600) - 24) \<le> 0" by (intro to_float_le_0) simp
  then show "hours_late eta now = 0" by (simp add: hours_late_def Let_def)
  then show "py_round_1 (hours_late eta now) = 0" by simp
qed

lemma max_0_near: "\<bar>x - y\<bar> \<le> d \<Longrightarrow> \<bar>max 0 x - max 0 y\<bar> \<le> (d :: rat)"
  by (auto simp: max_def abs_le_iff)

lemma hours_late_near:
  assumes "\<bar>eta - now\<bar> \<le> 320000000000000000"
  shows "\<bar>hours_late eta now - max 0 (of_int (eta - now) / 3600000000 - 24)\<bar> \<le> 1 / 10000000"
    and "hours_late eta now \<le> 100000000"
proof -
  let ?q = "of_int (eta - now) / 1000000 :: rat"
  let ?s = "to_float ?q"
  have "\<bar>of_int (eta - now) :: rat\<bar> \<le> 320000000000000000"
    using assms by (metis of_int_abs of_int_le_iff of_int_numeral)
  then have q: "\<bar>?q\<bar> \<le> 320000000000" by simp
  from to_float_within [OF q] have s: "\<bar>?s - ?q\<bar> \<le> 1 / 10000" by simp
  with q have "\<bar>?s\<bar> \<le> 330000000000" by linarith
  then have h: "\<bar>?s / 3600\<bar> \<le> 92000000" by simp
  from to_float_within [OF h] have d: "\<bar>to_float (?s / 3600) - ?s / 3600\<bar> \<le> 2 / 100000000" by simp
  with h have "\<bar>to_float (?s / 3600) - 24\<bar> \<le> 93000000" by linarith
  from to_float_within [OF this]
  have c: "\<bar>to_float (to_float (?s / 3600) - 24) - (to_float (?s / 3600) - 24)\<bar> \<le> 2 / 100000000" by simp
  have e: "\<bar>to_float (to_float (?s / 3600) - 24) - (?q / 3600 - 24)\<bar> \<le> 1 / 10000000"
    using s d c by linarith
  then show "\<bar>hours_late eta now - max 0 (of_int (eta - now) / 3600000000 - 24)\<bar> \<le> 1 / 10000000"
    unfolding hours_late_def Let_def by (intro max_0_near) simp
  have "?q / 3600 \<le> 90000000" using q by (simp add: abs_le_iff)
  with e show "hours_late eta now \<le> 100000000" unfolding hours_late_def Let_def by linarith
qed

text \<open>C31: the lateness an assessment reports is what it says, to a tenth of an hour: for any two
  dates of the calendar, with every float operation rounded, the reported number is not
  negative and differs from the exact hours by which the arrival lies beyond a day from now,
  or from nought, by at most half a tenth plus two ten-millionths. The extra allowance is for
  the roundings of the floats: without it the bound is false, since an arrival in \<open>24.05\<close> hours is reported as
  the float \<open>0.1\<close>, which lies a little above a tenth.\<close>

theorem reported_lateness_accurate:
  assumes "assess_shipment_delay backend db now shipment_id s = (Inr a, s')"
    and "map_of db shipment_id = Some sh" and "\<bar>sh_eta sh - now\<bar> \<le> 320000000000000000"
  shows "0 \<le> da_hours_late a \<and>
    \<bar>da_hours_late a - max 0 (of_int (sh_eta sh - now) / 3600000000 - 24)\<bar> \<le> 1 / 20 + 2 / 10000000"
proof -
  have a: "da_hours_late a = py_round_1 (hours_late (sh_eta sh) now)"
  proof -
    obtain r1 s1 where find: "sn_find backend (sh_ci sh) s = (r1, s1)" by fastforce
    obtain r2 s2 where search: "sn_search backend (Some (sh_ci sh)) True 10 s1 = (r2, s2)" by fastforce
    show ?thesis
      using assms(1,2) by (cases r1; cases r2) (auto simp: assess_shipment_delay_def find search)
  qed
  have h: "0 \<le> hours_late (sh_eta sh) now" by (simp add: hours_late_def Let_def)
  have "\<bar>py_round_1 (hours_late (sh_eta sh) now) - max 0 (of_int (sh_eta sh - now) / 3600000000 - 24)\<bar>
      \<le> 1 / 20 + 2 / 10000000"
    by (rule near_trans [OF py_round_1_error hours_late_near(1) [OF assms(3)]])
      (use h hours_late_near(2) [OF assms(3)] in simp_all)
  with h show ?thesis by (simp add: a py_round_1_ge_0)
qed

theorem reported_lateness_accurate_witness:
  "\<exists>a. assess_shipment_delay (mock_servicenow (\<lambda>n. ''now'')) (fixtures 0) 60000000 ''SHP-1004'' (init_mock [] []) =
      (Inr a, init_mock [] []) \<and> 279 / 10 \<le> da_hours_late a \<and> da_hours_late a \<le> 281 / 10"
proof -
  let ?run = "assess_shipment_delay (mock_servicenow (\<lambda>n. ''now'')) (fixtures 0) 60000000 ''SHP-1004'' (init_mock [] [])"
  have "is_ok (fst ?run)" by code_simp
  then obtain a where r: "?run = (Inr a, init_mock [] [])"
    using mock.assess_keeps [of _ "fixtures 0" 60000000 "''SHP-1004''" "init_mock [] []"]
    by (metis is_ok_iff prod.collapse)
  have sh: "map_of (fixtures 0) ''SHP-1004'' = Some (fixture_rows 0 ! 3)" and "sh_eta (fixture_rows 0 ! 3) = 187200000000"
    by code_simp+
  with reported_lateness_accurate [OF r sh]
  have "\<bar>da_hours_late a - max 0 (of_int (187200000000 - 60000000) / 3600000000 - 24)\<bar> \<le> 1 / 20 + 2 / 10000000"
    by simp
  moreover have "max 0 (of_int (187200000000 - 60000000) / 3600000000 - 24 :: rat) = 1679 / 60" by simp
  ultimately have "279 / 10 \<le> da_hours_late a" and "da_hours_late a \<le> 281 / 10"
    unfolding abs_le_iff by linarith+
  with r show ?thesis by blast
qed

end
