(* ===== verification/ShippedPolicy.thy ===== *)
theory ShippedPolicy
  imports Server
begin

text \<open>
  \<open>policy.yaml\<close>, the policy the repository ships: the document that YAML reads from it, and
  the access it grants to the registered tools.
\<close>

definition yaml_rule :: "string \<Rightarrow> string option \<Rightarrow> string list \<Rightarrow> pydict \<Rightarrow> pyval" where
  "yaml_rule classification description roles extra = PDict
     ((PStr ''classification'', PStr classification) #
      (case description of Some d \<Rightarrow> [(PStr ''description'', PStr d)] | None \<Rightarrow> []) @
      (PStr ''allow_roles'', PList (map PStr roles)) # extra)"

definition yaml_role :: "string \<Rightarrow> pyval" where
  "yaml_role description = PDict [(PStr ''description'', PStr description)]"

definition all_roles :: "string list" where
  "all_roles = [''tlo.reader'', ''tlo.operator'', ''platform.admin'']"

definition shipped_tools :: pydict where
  "shipped_tools =
     [(PStr ''get_shipment_status'', yaml_rule ''internal'' (Some ''Point lookup of a single shipment.'')
        all_roles []),
      (PStr ''list_delayed_shipments'', yaml_rule ''internal'' (Some ''Bulk view of shipments at risk.'')
        all_roles []),
      (PStr ''search_incidents'', yaml_rule ''internal'' (Some ''Read open incidents from ServiceNow.'')
        all_roles []),
      (PStr ''get_configuration_item'', yaml_rule ''internal''
        (Some ''Look up a configuration item in the CMDB.'') all_roles []),
      (PStr ''assess_shipment_delay'', yaml_rule ''internal''
        (Some (''Lighthouse use case, read-only half. Correlates a delayed shipment to its '' @
          ''handling system and any incidents already open against it.'')) all_roles []),
      (PStr ''raise_shipment_incident'', yaml_rule ''confidential''
        (Some (''Lighthouse use case, write half. Opens an incident in ServiceNow, which '' @
          ''pages a rota and is visible to the customer-facing service desk '' @ em_dash @
          '' hence a higher classification than the read tools and a narrower grant.''))
        [''tlo.operator'', ''platform.admin'']
        [(PStr ''requires_approval'', PBool True),
         (PStr ''approval_prompt'', PStr (''This will open a ServiceNow incident against a production '' @
            ''configuration item and notify the on-call rota. Approve?''))])]"

definition shipped_doc :: pydict where
  "shipped_doc =
     [(PStr ''version'', PInt 1),
      (PStr ''default'', PStr ''deny''),
      (PStr ''roles'', PDict
        [(PStr ''tlo.reader'', yaml_role (''Read-only visibility into transport and logistics operations. '' @
            ''The default role for dashboards, reporting and support staff.'')),
         (PStr ''tlo.operator'', yaml_role (''Everything a reader may do, plus actions that change state in a '' @
            ''downstream system. Granted to the operations team.'')),
         (PStr ''platform.admin'', yaml_role (''Break-glass access for the platform team. Intended to be '' @
            ''assigned temporarily and reviewed on every access recertification.''))]),
      (PStr ''tools'', PDict shipped_tools),
      (PStr ''resources'', PDict [(PStr ''shipment://*'', yaml_rule ''internal'' None all_roles [])])]"

definition shipped_policy :: policy where
  "shipped_policy = projr (from_mapping (PDict shipped_doc) ''policy.yaml'')"

lemma shipped_loads: "from_mapping (PDict shipped_doc) ''policy.yaml'' = Inr shipped_policy"
proof -
  have "is_ok (from_mapping (PDict shipped_doc) ''policy.yaml'')" by code_simp
  then show ?thesis by (auto simp: shipped_policy_def is_ok_iff)
qed

lemma shipped_wf: "wf_policy shipped_policy"
  by (rule from_mapping_wf_policy [OF shipped_loads])

section \<open>The access it grants\<close>

text \<open>The rules of the loaded policy, as far as access goes.\<close>

lemma shipped_tool_rules:
  "map (\<lambda>(k, r). (k, r_allow_roles r, r_requires_approval r)) (p_tools shipped_policy) =
     map (\<lambda>t. (t, if t = ''raise_shipment_incident'' then {''tlo.operator'', ''platform.admin''}
                  else {''tlo.reader'', ''tlo.operator'', ''platform.admin''},
               t = ''raise_shipment_incident'')) registered_tools"
  by code_simp

lemma shipped_resource_rules:
  "map (\<lambda>(k, r). (k, r_allow_roles r)) (p_resources shipped_policy) =
     [(''shipment://*'', {''tlo.reader'', ''tlo.operator'', ''platform.admin''})]"
  by code_simp

lemma map_of_map_snd: "map_of (map (\<lambda>(k, v). (k, f v)) xs) k = map_option f (map_of xs k)"
  by (induction xs) auto

lemma shipped_lookup:
  "map_option (\<lambda>r. (r_allow_roles r, r_requires_approval r)) (map_of (p_tools shipped_policy) tool) =
     (if tool \<in> set registered_tools
      then Some (if tool = ''raise_shipment_incident'' then {''tlo.operator'', ''platform.admin''}
                 else {''tlo.reader'', ''tlo.operator'', ''platform.admin''},
             tool = ''raise_shipment_incident'')
      else None)"
proof -
  let ?g = "\<lambda>r. (r_allow_roles r, r_requires_approval r)"
  let ?f = "\<lambda>t. (if t = ''raise_shipment_incident'' then {''tlo.operator'', ''platform.admin''}
      else {''tlo.reader'', ''tlo.operator'', ''platform.admin''}, t = ''raise_shipment_incident'')"
  have keys: "map_of (map (\<lambda>t. (t, h t)) ts) tool = (if tool \<in> set ts then Some (h tool) else None)"
    for h :: "string \<Rightarrow> 'x" and ts by (induction ts) auto
  have "map_option ?g (map_of (p_tools shipped_policy) tool) =
      map_of (map (\<lambda>(k, r). (k, ?g r)) (p_tools shipped_policy)) tool"
    by (rule map_of_map_snd [symmetric])
  also have "\<dots> = map_of (map (\<lambda>t. (t, ?f t)) registered_tools) tool"
    by (simp only: shipped_tool_rules)
  also have "\<dots> = (if tool \<in> set registered_tools then Some (?f tool) else None)"
    by (rule keys)
  finally show ?thesis .
qed

lemma decide_tool_lookup:
  "d_allowed (decide_tool p tool roles) \<longleftrightarrow>
     (case map_option (\<lambda>r. (r_allow_roles r, r_requires_approval r)) (map_of (p_tools p) tool) of
        None \<Rightarrow> False | Some (rs, a) \<Rightarrow> set roles \<inter> rs \<noteq> {})"
  "d_requires_approval (decide_tool p tool roles) \<longleftrightarrow>
     (case map_option (\<lambda>r. (r_allow_roles r, r_requires_approval r)) (map_of (p_tools p) tool) of
        None \<Rightarrow> False | Some (rs, a) \<Rightarrow> a)"
  by (auto simp: decide_tool_def decision_defs split: option.splits)

lemma shipped_access:
  "d_allowed (decide_tool shipped_policy tool roles) \<longleftrightarrow>
     tool \<in> set registered_tools \<and>
     (''tlo.operator'' \<in> set roles \<or> ''platform.admin'' \<in> set roles \<or>
      ''tlo.reader'' \<in> set roles \<and> tool \<noteq> ''raise_shipment_incident'')"
  "d_requires_approval (decide_tool shipped_policy tool roles) \<longleftrightarrow> tool = ''raise_shipment_incident''"
  unfolding decide_tool_lookup shipped_lookup by (auto simp: registered_tools_def)

lemma shipped_resource_access:
  "d_allowed (decide_resource shipped_policy uri roles) \<longleftrightarrow>
     prefix ''shipment://'' uri \<and>
     (''tlo.operator'' \<in> set roles \<or> ''platform.admin'' \<in> set roles \<or> ''tlo.reader'' \<in> set roles)"
proof -
  obtain r where r: "p_resources shipped_policy = [(''shipment://*'', r)]"
    and "r_allow_roles r = {''tlo.reader'', ''tlo.operator'', ''platform.admin''}"
    using shipped_resource_rules by (auto simp: map_eq_Cons_conv)
  moreover have "fnmatchcase uri ''shipment://*'' \<longleftrightarrow> prefix ''shipment://'' uri"
    using fnmatch_prefix [of "''shipment://''" uri] by (simp add: plain_def)
  ultimately show ?thesis
    by (auto simp: decide_resource_def resource_rule_best decision_defs)
qed

section \<open>Properties\<close>

text \<open>C29: the shipped policy is the intended access matrix: it loads; a registered tool is open to
  readers, operators and administrators, except that raising an incident is closed to
  readers; a tool that is not registered is closed to everyone; raising an incident is the
  one tool that needs a human's approval; and the resources of the scheme \<open>shipment\<close>, no
  others, are open to the three roles.\<close>

theorem shipped_access_matrix:
  "is_ok (from_mapping (PDict shipped_doc) ''policy.yaml'') \<and>
   (d_allowed (decide_tool shipped_policy tool roles) \<longleftrightarrow>
     tool \<in> set registered_tools \<and>
     (''tlo.operator'' \<in> set roles \<or> ''platform.admin'' \<in> set roles \<or>
      ''tlo.reader'' \<in> set roles \<and> tool \<noteq> ''raise_shipment_incident'')) \<and>
   (d_requires_approval (decide_tool shipped_policy tool roles) \<longleftrightarrow> tool = ''raise_shipment_incident'') \<and>
   (d_allowed (decide_resource shipped_policy uri roles) \<longleftrightarrow>
     prefix ''shipment://'' uri \<and>
     (''tlo.operator'' \<in> set roles \<or> ''platform.admin'' \<in> set roles \<or> ''tlo.reader'' \<in> set roles))"
  by (simp add: shipped_loads shipped_access shipped_resource_access)

end
