(* ===== verification/Flow.thy ===== *)
theory Flow
  imports Middleware RequestState
begin

text \<open>
  The approval flow across requests and replicas: a question is put, its state is sealed on
  the way out, and a retry brings it back to any replica. Sealing is the SDK's
  \<open>RequestStateBoundary\<close>: \<open>seal\<close> and \<open>unseal\<close> are parameters, used under the guarantees that
  \<open>governance/approval.py\<close> states of it. The clients are a step relation: they may ask, wait,
  and present any text that was minted, for any request, as any principal.
\<close>

section \<open>The boundary\<close>

text \<open>What a state is bound to: the tool, its arguments and the (client, issuer, subject) triple.\<close>

record binding =
  bd_tool :: string
  bd_arguments :: pyval
  bd_principal :: "(string \<times> pyval \<times> string option) option"

definition call_tool_name :: "ctx \<Rightarrow> string" where
  "call_tool_name ctx = py_str (dict_get_or (params_of ctx) ''name'' (PStr []))"

definition binding_of :: "'t access_token option \<Rightarrow> ctx \<Rightarrow> binding" where
  "binding_of token ctx =
     \<lparr>bd_tool = call_tool_name ctx, bd_arguments = dict_get (params_of ctx) ''arguments'',
      bd_principal = map_option (\<lambda>t. (at_client_id t, dict_get (at_claims t) ''iss'', at_subject t)) token\<rparr>"

type_synonym key = "byte list"

type_synonym 'x sealer = "key \<Rightarrow> binding \<Rightarrow> int \<Rightarrow> string \<Rightarrow> 'x"
type_synonym 'x unsealer = "key list \<Rightarrow> binding \<Rightarrow> int \<Rightarrow> 'x \<Rightarrow> string option"

text \<open>
  A text sealed under a key for a binding at a time unseals to its state exactly with a ring
  that holds the key, for that binding, and within the time to live.
\<close>

definition boundary_contract :: "'x sealer \<Rightarrow> 'x unsealer \<Rightarrow> int \<Rightarrow> bool" where
  "boundary_contract seal unseal ttl \<longleftrightarrow>
     (\<forall>ring b now k b' t s s'. unseal ring b now (seal k b' t s) = Some s' \<longleftrightarrow>
        k \<in> set ring \<and> b' = b \<and> t \<le> now \<and> now \<le> t + ttl \<and> s' = s)"

text \<open>The request as the middleware sees it: the state in the clear.\<close>

definition deliver :: "ctx \<Rightarrow> string \<Rightarrow> ctx" where
  "deliver ctx s = ctx\<lparr>c_params := PDict (dict_set (PStr ''requestState'') (PStr s) (params_of ctx))\<rparr>"

lemma params_of_deliver: "params_of (deliver ctx s) = dict_set (PStr ''requestState'') (PStr s) (params_of ctx)"
  by (simp add: deliver_def params_of_def)

lemma deliver_method [simp]: "c_method (deliver ctx s) = c_method ctx"
  by (simp add: deliver_def)

lemma dict_get_or_dict_set:
  "dict_get_or (dict_set (PStr k) v d) k' dflt = (if k' = k then v else dict_get_or d k' dflt)"
  by (simp add: dict_get_or_def dict_simps)

lemma deliver_fields [simp]:
  "call_tool_name (deliver ctx s) = call_tool_name ctx"
  "dict_get (params_of (deliver ctx s)) ''arguments'' = dict_get (params_of ctx) ''arguments''"
  "answers_of (params_of (deliver ctx s)) = answers_of (params_of ctx)"
  by (simp_all add: call_tool_name_def params_of_deliver dict_get_or_dict_set dict_get_dict_set answers_of_def)

lemma state_of_deliver: "s \<noteq> [] \<Longrightarrow> state_of (params_of (deliver ctx s)) = PStr s"
  by (simp add: state_of_def params_of_deliver dict_get_dict_set py_or_def)

lemma call_decision_deliver [simp]: "call_decision m token (deliver ctx s) = call_decision m token ctx"
  using deliver_fields(1) [of ctx s] by (simp add: call_decision_def call_tool_name_def)

lemma wire_call_deliver [simp]: "wire_call (deliver ctx s) = wire_call ctx"
  by (simp add: wire_call_def)

section \<open>The steps\<close>

datatype event = Asked binding int | Effect binding int

record mint =
  mi_key :: key
  mi_binding :: binding
  mi_time :: int
  mi_state :: string

record 'w flow =
  fl_time :: int
  fl_mint :: "mint list"
  fl_st :: "'w mstate"
  fl_events :: "event list"

definition minted :: "key list \<Rightarrow> binding \<Rightarrow> int \<Rightarrow> exn + response \<Rightarrow> mint list" where
  "minted ring b now r =
     (case r of
        Inr (InputRequired k msg schema s) \<Rightarrow>
          [\<lparr>mi_key = hd ring, mi_binding = b, mi_time = now, mi_state = s\<rparr>]
      | _ \<Rightarrow> [])"

text \<open>A handled call, observed: the newest events first.\<close>

definition observe ::
  "key list \<Rightarrow> binding \<Rightarrow> (exn + response) \<times> 'w mstate \<Rightarrow> 'w flow \<Rightarrow> 'w flow"
where
  "observe ring b out f =
     f\<lparr>fl_mint := minted ring b (fl_time f) (fst out) @ fl_mint f,
       fl_st := snd out,
       fl_events :=
         map (\<lambda>e. Asked b (fl_time f)) (minted ring b (fl_time f) (fst out)) @
         (if ms_world (snd out) \<noteq> ms_world (fl_st f) then [Effect b (fl_time f)] else []) @ fl_events f\<rparr>"

text \<open>
  A request without a state reaches the middleware without one; a retry presents a minted
  text, and reaches the middleware only unsealed for the request it comes with.
\<close>

inductive flow_step ::
  "'x sealer \<Rightarrow> 'x unsealer \<Rightarrow> key list set \<Rightarrow> middleware \<Rightarrow> env_inputs \<Rightarrow> 'w handler
    \<Rightarrow> 'w flow \<Rightarrow> 'w flow \<Rightarrow> bool"
  for seal unseal rings m orc call_next
where
  wait: "0 \<le> d \<Longrightarrow> flow_step seal unseal rings m orc call_next f (f\<lparr>fl_time := fl_time f + d\<rparr>)"
| plain: "ring \<in> rings \<Longrightarrow> c_method (ctx :: ctx) = Some ''tools/call'' \<Longrightarrow> state_of (params_of ctx) = PNone \<Longrightarrow>
    flow_step seal unseal rings m orc call_next f
      (observe ring (binding_of token ctx) (handle m orc (token :: string access_token option) ctx call_next (fl_st f)) f)"
| retry: "ring \<in> rings \<Longrightarrow> c_method (ctx :: ctx) = Some ''tools/call'' \<Longrightarrow> e \<in> set (fl_mint f) \<Longrightarrow>
    unseal ring (binding_of token ctx) (fl_time f)
      (seal (mi_key e) (mi_binding e) (mi_time e) (mi_state e)) = Some s \<Longrightarrow>
    flow_step seal unseal rings m orc call_next f
      (observe ring (binding_of token ctx) (handle m orc (token :: string access_token option) (deliver ctx s) call_next (fl_st f)) f)"

inductive flow_reachable ::
  "'x sealer \<Rightarrow> 'x unsealer \<Rightarrow> key list set \<Rightarrow> middleware \<Rightarrow> env_inputs \<Rightarrow> 'w handler
    \<Rightarrow> 'w mstate \<Rightarrow> 'w flow \<Rightarrow> bool"
  for seal unseal rings m orc call_next st0
where
  flow_init: "flow_reachable seal unseal rings m orc call_next st0
    \<lparr>fl_time = 0, fl_mint = [], fl_st = st0, fl_events = []\<rparr>"
| flow_next: "flow_reachable seal unseal rings m orc call_next st0 f \<Longrightarrow>
    flow_step seal unseal rings m orc call_next f f' \<Longrightarrow>
    flow_reachable seal unseal rings m orc call_next st0 f'"

section \<open>Every effect was asked for\<close>

definition gated :: "middleware \<Rightarrow> binding \<Rightarrow> bool" where
  "gated m b \<longleftrightarrow>
     (case map_of (p_tools (mw_policy m)) (bd_tool b) of None \<Rightarrow> False | Some r \<Rightarrow> r_requires_approval r)"

definition justified :: "middleware \<Rightarrow> int \<Rightarrow> event list \<Rightarrow> bool" where
  "justified m ttl evs \<longleftrightarrow>
     (\<forall>xs b t ys. evs = xs @ Effect b t # ys \<longrightarrow> gated m b \<longrightarrow>
        (\<exists>t'. Asked b t' \<in> set ys \<and> t' \<le> t \<and> t \<le> t' + ttl))"

lemma gated_requires_approval:
  "gated m (binding_of token ctx) \<Longrightarrow> d_requires_approval (call_decision m token ctx)"
  by (auto simp: gated_def binding_of_def call_tool_name_def call_decision_def decide_tool_def
      decision_defs split: option.splits)

lemma justified_Nil [simp]: "justified m ttl []"
  by (simp add: justified_def)

lemma justified_Asked: "justified m ttl evs \<Longrightarrow> justified m ttl (Asked b t # evs)"
  by (auto simp: justified_def Cons_eq_append_conv)

lemma justified_Effect:
  "justified m ttl evs \<Longrightarrow>
   (gated m b \<Longrightarrow> \<exists>t'. Asked b t' \<in> set evs \<and> t' \<le> t \<and> t \<le> t' + ttl) \<Longrightarrow>
   justified m ttl (Effect b t # evs)"
  by (auto simp: justified_def Cons_eq_append_conv)

definition flow_inv :: "middleware \<Rightarrow> int \<Rightarrow> 'w flow \<Rightarrow> bool" where
  "flow_inv m ttl f \<longleftrightarrow>
     (\<forall>e\<in>set (fl_mint f). Asked (mi_binding e) (mi_time e) \<in> set (fl_events f)) \<and>
     justified m ttl (fl_events f)"

lemma minted_cases: "minted ring b now r = [] \<or>
    (\<exists>s. minted ring b now r = [\<lparr>mi_key = hd ring, mi_binding = b, mi_time = now, mi_state = s\<rparr>])"
  by (auto simp: minted_def split: sum.splits response.splits)

lemma observe_inv:
  assumes inv: "flow_inv m ttl f"
    and eff: "ms_world (snd out) \<noteq> ms_world (fl_st f) \<Longrightarrow> gated m b \<Longrightarrow>
      \<exists>t'. Asked b t' \<in> set (fl_events f) \<and> t' \<le> fl_time f \<and> fl_time f \<le> t' + ttl"
  shows "flow_inv m ttl (observe ring b out f)"
proof -
  let ?old = "(if ms_world (snd out) \<noteq> ms_world (fl_st f) then [Effect b (fl_time f)] else []) @ fl_events f"
  have j: "justified m ttl ?old"
    using inv eff by (auto simp: flow_inv_def intro: justified_Effect)
  consider "minted ring b (fl_time f) (fst out) = []"
    | x where "minted ring b (fl_time f) (fst out) =
        [\<lparr>mi_key = hd ring, mi_binding = b, mi_time = fl_time f, mi_state = x\<rparr>]"
    using minted_cases [of ring b "fl_time f" "fst out"] by blast
  then show ?thesis
  proof cases
    case 1
    with inv j show ?thesis by (simp add: observe_def flow_inv_def)
  next
    case 2
    with inv justified_Asked [OF j, of b "fl_time f"] show ?thesis
      by (simp add: observe_def flow_inv_def)
  qed
qed

text \<open>A gated call changes the world only with a state of this layer that was unsealed for it.\<close>

lemma gated_plain_no_effect:
  assumes "mw_enforce m" and "c_method ctx = Some ''tools/call''" and "state_of (params_of ctx) = PNone"
    and "gated m (binding_of token ctx)"
  shows "ms_world (snd (handle m orc token ctx call_next st)) = ms_world st"
proof -
  have "check (state_of (params_of ctx)) (answers_of (params_of ctx)) \<noteq> Inr ()"
    by (simp add: check_ok assms(3))
  from unapproved_tool_call [OF assms(1) gated_requires_approval [OF assms(4)] this, of orc st]
  obtain r st' where "ms_world st' = ms_world st" and "guard_tool_call m orc token ctx call_next st = (r, st')"
    unfolding blocks_def by blast
  with assms(2) show ?thesis by (simp add: handle_def)
qed

lemma flow_step_inv:
  assumes "flow_step seal unseal rings m orc call_next f f'" and "boundary_contract seal unseal ttl"
    and "mw_enforce m" and "flow_inv m ttl f"
  shows "flow_inv m ttl f'"
  using assms(1)
proof cases
  case (wait d)
  with assms(4) show ?thesis by (simp add: flow_inv_def)
next
  case (plain ring ctx token)
  show ?thesis
    unfolding plain(1)
    by (rule observe_inv [OF assms(4)])
      (use gated_plain_no_effect [OF assms(3) plain(3,4), where token = token and orc = orc
        and call_next = call_next and st = "fl_st f"] in simp)
next
  case (retry ring ctx e token s)
  have "mi_binding e = binding_of token ctx" "mi_time e \<le> fl_time f" "fl_time f \<le> mi_time e + ttl"
    using retry(5) assms(2) unfolding boundary_contract_def by blast+
  moreover have "Asked (mi_binding e) (mi_time e) \<in> set (fl_events f)"
    using assms(4) retry(4) by (simp add: flow_inv_def)
  ultimately show ?thesis
    unfolding retry(1) by (intro observe_inv [OF assms(4)]) metis
qed

lemma flow_reachable_inv:
  assumes "flow_reachable seal unseal rings m orc call_next st0 f"
    and "boundary_contract seal unseal ttl" and "mw_enforce m"
  shows "flow_inv m ttl f"
  using assms(1)
proof (induction rule: flow_reachable.induct)
  case flow_init
  then show ?case by (simp add: flow_inv_def)
next
  case (flow_next f f')
  from flow_step_inv [OF flow_next.hyps(2) assms(2,3) flow_next.IH] show ?case .
qed

section \<open>Rotation\<close>

text \<open>The rings of a rotation, phase by phase.\<close>

definition phase_ring :: "key \<Rightarrow> key \<Rightarrow> nat \<Rightarrow> key list" where
  "phase_ring old new i =
     (if i = 0 then [old] else if i = 1 then [old, new] else if i = 2 then [new, old] else [new])"

text \<open>A state sealed by a replica with the first ring is read by one with the second.\<close>

definition interoperate :: "'x sealer \<Rightarrow> 'x unsealer \<Rightarrow> key list \<Rightarrow> key list \<Rightarrow> bool" where
  "interoperate seal unseal r1 r2 \<longleftrightarrow> (\<forall>b t s. unseal r2 b t (seal (hd r1) b t s) = Some s)"

lemma interoperate_iff:
  "boundary_contract seal unseal ttl \<Longrightarrow> 0 \<le> ttl \<Longrightarrow>
   interoperate seal unseal r1 r2 \<longleftrightarrow> hd r1 \<in> set r2"
  by (simp add: interoperate_def boundary_contract_def)

lemma phase_hd:
  "old \<noteq> new \<Longrightarrow> hd (phase_ring old new i) \<in> set (phase_ring old new j) \<longleftrightarrow>
     (if i \<le> 1 then j \<le> 2 else 1 \<le> j)"
  by (auto simp: phase_ring_def)

lemma load_keys_env: "load_keys (Some text) None = load_keys environ (Some text)"
  by (simp add: load_keys_def)

section \<open>A flow in the small\<close>

type_synonym toy_sealed = "key \<times> binding \<times> int \<times> string"

definition toy_seal :: "toy_sealed sealer" where
  "toy_seal k b t s = (k, b, t, s)"

definition toy_unseal :: "toy_sealed unsealer" where
  "toy_unseal ring b now x =
     (case x of (k, b', t, s) \<Rightarrow>
        if k \<in> set ring \<and> b' = b \<and> t \<le> now \<and> now \<le> t + 600 then Some s else None)"

lemma toy_boundary: "boundary_contract toy_seal toy_unseal 600"
  by (auto simp: boundary_contract_def toy_seal_def toy_unseal_def)

definition flow_yes :: pydict where
  "flow_yes = [(PStr ''inputResponses'', PDict [(PStr ''approval'', PDict
     [(PStr ''action'', PStr ''accept''), (PStr ''content'', PDict [(PStr ''approve'', PBool True)])])])]"

definition flow_ask :: ctx where "flow_ask = gate_call ''raise'' []"
definition flow_retry :: ctx where "flow_retry = gate_call ''raise'' flow_yes"

lemma flow_bindings: "binding_of t flow_retry = binding_of t flow_ask"
  by (cases t) (simp_all add: binding_of_def call_tool_name_def flow_ask_def flow_retry_def gate_call_def
      params_of_def dict_get_def dict_get_or_def)

lemma flow_call_facts:
  "c_method flow_ask = Some ''tools/call''" "c_method flow_retry = Some ''tools/call''"
  "state_of (params_of flow_ask) = PNone"
  "answers_of (params_of flow_retry) = PDict [(PStr ''approval'', PDict
     [(PStr ''action'', PStr ''accept''), (PStr ''content'', PDict [(PStr ''approve'', PBool True)])])]"
  by code_simp+

definition flow_start :: "nat flow" where
  "flow_start = \<lparr>fl_time = 0, fl_mint = [], fl_st = gate_state, fl_events = []\<rparr>"

definition flow_asked :: "nat flow" where
  "flow_asked = observe [[1]] (binding_of (gate_token ''operator'') flow_ask)
     (handle (gate_mw True) gate_env (gate_token ''operator'') flow_ask count_handler gate_state) flow_start"

definition flow_done :: "nat flow" where
  "flow_done = observe [[2], [1]] (binding_of (gate_token ''operator'') flow_retry)
     (handle (gate_mw True) gate_env (gate_token ''operator'') (deliver flow_retry ''awaiting-approval:raise:n0'')
        count_handler (fl_st flow_asked)) flow_asked"

lemma flow_asked_mint: "fl_mint flow_asked =
    [\<lparr>mi_key = [1], mi_binding = binding_of (gate_token ''operator'') flow_ask, mi_time = 0,
      mi_state = ''awaiting-approval:raise:n0''\<rparr>]"
  by code_simp

lemma flow_done_events: "fl_events flow_done =
    [Effect (binding_of (gate_token ''operator'') flow_ask) 0, Asked (binding_of (gate_token ''operator'') flow_ask) 0]"
  by code_simp

abbreviation "toy_reachable \<equiv> flow_reachable toy_seal toy_unseal {[[1]], [[2], [1]]} (gate_mw True) gate_env
  count_handler gate_state"

lemma flow_done_reachable: "toy_reachable flow_done"
proof -
  have "toy_reachable flow_start" unfolding flow_start_def by (rule flow_init)
  moreover have "flow_step toy_seal toy_unseal {[[1]], [[2], [1]]} (gate_mw True) gate_env count_handler
      flow_start flow_asked"
  proof -
    have "fl_st flow_start = gate_state" by (simp add: flow_start_def)
    with plain [of "[[1]]" "{[[1]], [[2], [1]]}" flow_ask toy_seal toy_unseal "gate_mw True" gate_env
        count_handler flow_start "gate_token ''operator''"] flow_call_facts(1,3)
    show ?thesis by (simp add: flow_asked_def)
  qed
  ultimately have "toy_reachable flow_asked" by (rule flow_next)
  moreover have "flow_step toy_seal toy_unseal {[[1]], [[2], [1]]} (gate_mw True) gate_env count_handler
      flow_asked flow_done"
  proof -
    let ?e = "\<lparr>mi_key = [1], mi_binding = binding_of (gate_token ''operator'') flow_ask, mi_time = 0,
      mi_state = ''awaiting-approval:raise:n0''\<rparr>"
    have "fl_time flow_asked = 0" by (simp add: flow_asked_def observe_def flow_start_def)
    then have "toy_unseal [[2], [1]] (binding_of (gate_token ''operator'') flow_retry) (fl_time flow_asked)
        (toy_seal (mi_key ?e) (mi_binding ?e) (mi_time ?e) (mi_state ?e)) = Some ''awaiting-approval:raise:n0''"
      by (simp add: toy_unseal_def toy_seal_def flow_bindings)
    with retry [of "[[2], [1]]" "{[[1]], [[2], [1]]}" flow_retry ?e flow_asked toy_unseal "gate_token ''operator''"
        toy_seal "''awaiting-approval:raise:n0''" "gate_mw True" gate_env count_handler] flow_call_facts(2)
      flow_asked_mint
    show ?thesis by (simp add: flow_done_def)
  qed
  ultimately show ?thesis by (rule flow_next)
qed

section \<open>Runs of an approved call\<close>

lemma binding_call:
  "binding_of token ctx' = binding_of token ctx \<Longrightarrow>
   call_decision m token ctx' = call_decision m token ctx \<and> wire_call ctx' = wire_call ctx"
  by (simp add: binding_of_def call_decision_def call_tool_name_def wire_call_def)

lemma approved_verdict:
  assumes "d_allowed (call_decision m token ctx)" and "prefix pending_prefix s"
    and "check (PStr s) (answers_of (params_of ctx)) = Inr ()"
  shows "gate_verdict m token (deliver ctx s) = Runs"
proof -
  have "s \<noteq> []" using assms(2) by (auto simp: pending_prefix_def)
  with assms check_ok_truthy [OF assms(3)] show ?thesis
    by (simp add: gate_verdict_iff state_of_deliver)
qed

lemma approved_runs:
  assumes "mw_enforce m" and "c_method ctx = Some ''tools/call''" and "wire_call ctx"
    and "gate_verdict m token (deliver ctx s) = Runs"
  shows "fst (handle m orc token (deliver ctx s) call_next st) =
      fst (call_next (deliver ctx s) (ms_world st)) \<and>
    ms_world (snd (handle m orc token (deliver ctx s) call_next st)) =
      snd (call_next (deliver ctx s) (ms_world st))"
proof -
  have "handle m orc token (deliver ctx s) call_next st =
      guard_tool_call m orc token (deliver ctx s) call_next st"
    using assms(2) by (simp add: handle_def)
  moreover have "wire_call (deliver ctx s)" using assms(3) by simp
  ultimately show ?thesis
    using guard_tool_call_gate [OF assms(1), of "deliver ctx s" token call_next st orc] assms(4)
    by (simp add: gate_result_def prod_eq_iff)
qed

lemma says_yes_check:
  "prefix pending_prefix s \<Longrightarrow> answers = PDict d \<Longrightarrow> map_of d (PStr ''approval'') = Some answer \<Longrightarrow>
   says_yes answer \<Longrightarrow> check (PStr s) answers = Inr ()"
  by (auto simp: check_ok)

lemma question_state_prefix:
  "is_question tool (Inr (InputRequired k msg schema s)) \<Longrightarrow> prefix pending_prefix s"
  by (auto simp: is_question_def prefix_def)

section \<open>Properties\<close>

text \<open>C6: no effect without a question: in every run of a replicated deployment that enforces
  its policy, whatever the clients ask and replay, each change of the world by a call to a tool
  that needs approval comes after a question put for that very call (the same tool, the same
  arguments, the same principal) no longer ago than the time to live.\<close>

theorem effects_were_asked_for:
  assumes "flow_reachable seal unseal rings m orc call_next st0 f"
    and "boundary_contract seal unseal ttl" and "mw_enforce m"
    and "fl_events f = xs @ Effect b t # ys" and "gated m b"
  shows "\<exists>t'. Asked b t' \<in> set ys \<and> t' \<le> t \<and> t \<le> t' + ttl"
  using flow_reachable_inv [OF assms(1-3)] assms(4,5) unfolding flow_inv_def justified_def by blast

theorem effects_were_asked_for_witness:
  "\<exists>t'. Asked (binding_of (gate_token ''operator'') flow_ask) t' \<in>
     set [Asked (binding_of (gate_token ''operator'') flow_ask) 0] \<and> t' \<le> 0 \<and> 0 \<le> t' + 600"
proof (rule effects_were_asked_for [OF flow_done_reachable toy_boundary])
  show "mw_enforce (gate_mw True)" by simp
  show "fl_events flow_done = [] @ Effect (binding_of (gate_token ''operator'') flow_ask) 0 #
      [Asked (binding_of (gate_token ''operator'') flow_ask) 0]"
    by (simp add: flow_done_events)
  show "gated (gate_mw True) (binding_of (gate_token ''operator'') flow_ask)" by code_simp
qed

text \<open>An approval survives the replica that asked for it: when one replica answers a call
  with a question, sealed under its first key, any replica whose ring holds that key reads
  the state back for the same call within the time to live, and with the human's yes it
  returns what the handler returns.\<close>

lemma approval_crosses_replicas:
  assumes "boundary_contract seal unseal ttl" and "mw_enforce m" and "c_method ctx = Some ''tools/call''"
    and "wire_call ctx" and "gate_verdict m token ctx = NeedsApproval"
    and "fst (handle m orc token ctx call_next st) = Inr (InputRequired k msg schema s)"
    and "hd ring1 \<in> set ring2" and "t \<le> now" and "now \<le> t + ttl"
    and "c_method ctx' = Some ''tools/call''" and "binding_of token ctx' = binding_of token ctx"
    and "answers_of (params_of ctx') = PDict d" and "map_of d (PStr ''approval'') = Some answer"
    and "says_yes answer"
  shows "unseal ring2 (binding_of token ctx') now (seal (hd ring1) (binding_of token ctx) t s) = Some s \<and>
    fst (handle m orc token (deliver ctx' s) call_next st2) = fst (call_next (deliver ctx' s) (ms_world st2)) \<and>
    ms_world (snd (handle m orc token (deliver ctx' s) call_next st2)) =
      snd (call_next (deliver ctx' s) (ms_world st2))"
proof -
  have "gate_result m token ctx call_next st (handle m orc token ctx call_next st)"
    using guard_tool_call_gate [OF assms(2,4), of token call_next st orc] assms(3)
    by (simp add: handle_def)
  then have "is_question (py_str (dict_get_or (params_of ctx) ''name'' (PStr [])))
      (Inr (InputRequired k msg schema s))"
    using assms(5,6) by (simp add: gate_result_def)
  then have pre: "prefix pending_prefix s" by (rule question_state_prefix)
  have "d_allowed (call_decision m token ctx)"
    using assms(5) by (simp add: gate_verdict_iff)
  then have "gate_verdict m token (deliver ctx' s) = Runs"
    using binding_call [OF assms(11), of m] says_yes_check [OF pre assms(12-14)] assms(12) pre
    by (intro approved_verdict) simp_all
  moreover have "wire_call ctx'" using binding_call [OF assms(11), of m] assms(4) by simp
  ultimately show ?thesis
    using approved_runs [OF assms(2,10)] assms(1,7-9,11) by (simp add: boundary_contract_def)
qed

text \<open>The rotation of the runbook: the three phases load as the rings they spell, and two
  phases can serve side by side, each reading what the other seals, exactly when they are
  adjacent; skipping a phase, rolling back from the last phase to the first one included,
  breaks approvals in flight.\<close>

lemma rotation_phases:
  assumes "boundary_contract seal unseal ttl" and "0 \<le> ttl" and "old \<noteq> new"
    and "32 \<le> length old" and "32 \<le> length new" and "i < 4" and "j < 4"
  shows "load_keys (Some (join '','' (map b64encode (phase_ring old new i)))) None = Inr (phase_ring old new i) \<and>
    (interoperate seal unseal (phase_ring old new i) (phase_ring old new j) \<and>
     interoperate seal unseal (phase_ring old new j) (phase_ring old new i) \<longleftrightarrow> i \<le> Suc j \<and> j \<le> Suc i)"
proof -
  have "list_all (\<lambda>k. MINIMUM_KEY_BYTES \<le> length k) (phase_ring old new i)"
    using assms(4,5) by (simp add: phase_ring_def MINIMUM_KEY_BYTES_def)
  from load_ring_text [OF this] have "load_keys (Some (join '','' (map b64encode (phase_ring old new i)))) None =
      Inr (phase_ring old new i)"
    by (simp add: load_keys_env [of _ None] ring_text_def)
  moreover have "interoperate seal unseal (phase_ring old new i) (phase_ring old new j) \<and>
     interoperate seal unseal (phase_ring old new j) (phase_ring old new i) \<longleftrightarrow> i \<le> Suc j \<and> j \<le> Suc i"
    unfolding interoperate_iff [OF assms(1,2)] phase_hd [OF assms(3)] using assms(6,7) by auto
  ultimately show ?thesis by blast
qed

text \<open>An approval is not single use: within the time to live the same approved retry,
  handled twice, runs the handler twice on one answer of the human; nothing of the first run
  is remembered that could stop the second.\<close>

lemma approval_can_be_replayed:
  assumes "mw_enforce m" and "c_method ctx = Some ''tools/call''" and "wire_call ctx"
    and "gate_verdict m token (deliver ctx s) = Runs"
  shows "ms_world (snd (handle m orc token (deliver ctx s) call_next
      (snd (handle m orc token (deliver ctx s) call_next st)))) =
    snd (call_next (deliver ctx s) (snd (call_next (deliver ctx s) (ms_world st))))"
  using approved_runs [OF assms, of orc call_next st]
    approved_runs [OF assms, of orc call_next "snd (handle m orc token (deliver ctx s) call_next st)"]
  by simp

end
