(* ===== verification/Session.thy ===== *)
theory Session
  imports Middleware
begin

text \<open>
  Sequences of requests through one server: the middleware run over a list of requests, each
  with its caller, and the abstract run that reads only the policy. The two agree on the
  world and on the audit trail, request by request.
\<close>

section \<open>A run\<close>

type_synonym 't request = "'t access_token option \<times> ctx"

text \<open>The responses, oldest first, and the state after the last request.\<close>

fun run_session ::
  "middleware \<Rightarrow> env_inputs \<Rightarrow> 'w handler \<Rightarrow> 't request list \<Rightarrow> 'w mstate
    \<Rightarrow> (exn + response) list \<times> 'w mstate"
where
  "run_session m orc call_next [] st = ([], st)"
| "run_session m orc call_next ((token, ctx) # reqs) st =
     (let (r, st1) = handle m orc token ctx call_next st;
          (rs, st2) = run_session m orc call_next reqs st1
      in (r # rs, st2))"

lemma run_session_append:
  "run_session m orc call_next (reqs @ reqs') st =
     (let (rs, st1) = run_session m orc call_next reqs st;
          (rs', st2) = run_session m orc call_next reqs' st1
      in (rs @ rs', st2))"
  by (induction reqs arbitrary: st) (auto split: prod.splits)

section \<open>The abstract run\<close>

text \<open>Whether the handler runs, and the records written, from the policy and the request alone.\<close>

definition request_runs :: "middleware \<Rightarrow> 't request \<Rightarrow> bool" where
  "request_runs m req \<longleftrightarrow>
     (case req of (token, ctx) \<Rightarrow>
        \<not> mw_enforce m \<or>
        (if c_method ctx = Some ''tools/call'' then gate_verdict m token ctx = Runs
         else if c_method ctx = Some ''resources/read'' then d_allowed (read_decision m token ctx)
         else True))"

definition decision_level_of :: "decision \<Rightarrow> level" where
  "decision_level_of d = (if d_allowed d then INFO else WARNING)"

definition request_trail :: "middleware \<Rightarrow> 't request \<Rightarrow> level list" where
  "request_trail m req =
     (case req of (token, ctx) \<Rightarrow>
        if c_method ctx = Some ''tools/call''
        then (if mw_enforce m then verdict_trail m token ctx
              else [decision_level_of (call_decision m token ctx)])
        else if c_method ctx = Some ''resources/read'' then [decision_level_of (read_decision m token ctx)]
        else [])"

definition spec_world :: "middleware \<Rightarrow> 'w handler \<Rightarrow> 't request \<Rightarrow> 'w \<Rightarrow> 'w" where
  "spec_world m call_next req w = (if request_runs m req then snd (call_next (snd req) w) else w)"

definition wire_request :: "'t request \<Rightarrow> bool" where
  "wire_request req \<longleftrightarrow> (c_method (snd req) = Some ''tools/call'' \<longrightarrow> wire_call (snd req))"

section \<open>One request\<close>

text \<open>The audit stream stays configured as the middleware writes to it.\<close>

lemma audit_stays_logging:
  "logging h st \<Longrightarrow> audit orc who verb d args ver outcome st = (r, st') \<Longrightarrow> logging h st'"
  by (auto simp: audit_def audit_record_def logging_def emit_def split: sum.splits prod.splits if_splits)

lemma bindS_keeps:
  assumes "P (snd x)" and "\<And>a s. P s \<Longrightarrow> P (snd (f a s))"
  shows "P (snd (bindS x f))"
  using assms by (cases x; cases "fst x") auto

lemma audit_keeps_logging:
  "logging h st \<Longrightarrow> logging h (snd (audit orc who verb d args ver outcome st))"
  using audit_stays_logging [of h st] by (metis prod.collapse)

lemma run_next_keeps_logging: "logging h st \<Longrightarrow> logging h (snd (run_next f ctx st))"
  by (simp add: run_next_eq)

lemma ask_keeps_logging:
  "logging h st \<Longrightarrow> logging h (snd (ask_for_approval m orc tool who args st))"
  unfolding ask_for_approval_def
  by (intro bindS_keeps [of "logging h"]) (simp_all add: audit_approval_def audit_keeps_logging)

lemma check_keeps_logging:
  "logging h st \<Longrightarrow> logging h (snd (check_approval m orc params tool who arguments st))"
  unfolding check_approval_def Let_def
  by (auto split: sum.split
      intro!: bindS_keeps [of "logging h"] ask_keeps_logging simp: audit_approval_def audit_keeps_logging)

lemma handle_keeps_logging:
  assumes "logging h st"
  shows "logging h (snd (handle m orc token ctx call_next st))"
proof -
  have call: "logging h (snd (guard_tool_call m orc token ctx call_next st))"
    unfolding guard_tool_call_def Let_def
    by (intro bindS_keeps [of "logging h"])
      (auto simp: assms audit_keeps_logging run_next_keeps_logging
        intro!: bindS_keeps [of "logging h"] check_keeps_logging split: option.split)
  have read: "logging h (snd (guard_resource_read m orc token ctx call_next st))"
    unfolding guard_resource_read_def Let_def
    by (intro bindS_keeps [of "logging h"]) (auto simp: assms audit_keeps_logging run_next_keeps_logging
        intro!: bindS_keeps [of "logging h"])
  have tools: "logging h (snd (filter_tool_list m token ctx call_next st))"
    by (simp add: filter_tool_list_eq assms)
  show ?thesis by (simp add: handle_def call read tools assms run_next_keeps_logging)
qed

lemma handle_step:
  assumes "wire_request (token, ctx)" and "logging h st"
  shows "ms_world (snd (handle m orc token ctx call_next st)) =
      spec_world m call_next (token, ctx) (ms_world st)"
    and "trail (snd (handle m orc token ctx call_next st)) = trail st @ request_trail m (token, ctx)"
proof -
  let ?out = "handle m orc token ctx call_next st"
  have "ms_world (snd ?out) = spec_world m call_next (token, ctx) (ms_world st) \<and>
    trail (snd ?out) = trail st @ request_trail m (token, ctx)"
  proof (cases "c_method ctx = Some ''tools/call''")
    case True
    then have h: "?out = guard_tool_call m orc token ctx call_next st" by (simp add: handle_def)
    have wire: "wire_call ctx" using assms(1) True by (simp add: wire_request_def)
    show ?thesis
    proof (cases "mw_enforce m")
      case enf: True
      from guard_tool_call_gate [OF enf wire, of token call_next st orc h] assms(2) True enf
      show ?thesis
        unfolding h by (cases "gate_verdict m token ctx")
          (simp_all add: gate_result_def spec_world_def request_runs_def request_trail_def, metis snd_conv)
    next
      case False
      from guard_tool_call_shadow [OF False wire, where token = token and call_next = call_next
          and st = st and orc = orc and h = h] assms(2) True False
      show ?thesis
        unfolding h by (simp add: spec_world_def request_runs_def request_trail_def decision_level_of_def)
          (metis snd_conv)
    qed
  next
    case nocall: False
    show ?thesis
    proof (cases "c_method ctx = Some ''resources/read''")
      case True
      then have h: "?out = guard_resource_read m orc token ctx call_next st" by (simp add: handle_def)
      from guard_resource_read_gate [where m = m and token = token and ctx = ctx and orc = orc
          and call_next = call_next and st = st and h = h] assms(2) True
      show ?thesis
        unfolding h by (auto simp: spec_world_def request_runs_def request_trail_def decision_level_of_def
            split: if_splits) (metis snd_conv)+
    next
      case False
      with nocall show ?thesis
        by (auto simp: handle_def filter_tool_list_eq run_next_eq spec_world_def request_runs_def
            request_trail_def)
    qed
  qed
  then show "ms_world (snd ?out) = spec_world m call_next (token, ctx) (ms_world st)"
    and "trail (snd ?out) = trail st @ request_trail m (token, ctx)" by simp_all
qed

section \<open>The two runs agree\<close>

lemma run_session_spec:
  "logging h st \<Longrightarrow> list_all wire_request reqs \<Longrightarrow>
   logging h (snd (run_session m orc call_next reqs st)) \<and>
   ms_world (snd (run_session m orc call_next reqs st)) =
     foldl (\<lambda>w req. spec_world m call_next req w) (ms_world st) reqs \<and>
   trail (snd (run_session m orc call_next reqs st)) = trail st @ concat (map (request_trail m) reqs)"
proof (induction reqs arbitrary: st)
  case Nil
  then show ?case by simp
next
  case (Cons req reqs)
  obtain token ctx where req: "req = (token, ctx)" by (cases req)
  obtain r st1 where h: "handle m orc token ctx call_next st = (r, st1)" by fastforce
  obtain rs st2 where rest: "run_session m orc call_next reqs st1 = (rs, st2)" by fastforce
  have wire: "wire_request (token, ctx)" using Cons.prems(2) by (simp add: req)
  have "logging h st1" using handle_keeps_logging [OF Cons.prems(1), of m orc token ctx call_next]
    by (simp add: h)
  with Cons.IH [of st1] Cons.prems(2) rest handle_step [OF wire Cons.prems(1), of m orc call_next]
  show ?case by (simp add: req h)
qed

lemma run_session_length: "length (fst (run_session m orc call_next reqs st)) = length reqs"
  by (induction reqs arbitrary: st) (auto simp: split_beta Let_def)

lemma run_session_invariant:
  assumes "I (ms_world st)" and "\<And>ctx w. I w \<Longrightarrow> I (snd (call_next ctx w))"
  shows "I (ms_world (snd (run_session m orc call_next reqs st)))"
  using assms(1)
proof (induction reqs arbitrary: st)
  case Nil
  then show ?case by simp
next
  case (Cons req reqs)
  obtain token ctx where req: "req = (token, ctx)" by (cases req)
  have "I (ms_world (snd (handle m orc token ctx call_next st)))"
    using mw.world_invariant [where I = I and f = call_next and st = st and ctx = ctx] Cons.prems assms(2)
    by blast
  from Cons.IH [OF this] show ?case by (simp add: req split_beta Let_def)
qed

section \<open>Properties\<close>

text \<open>C7: a session implements its specification: over any list of requests by any callers, in
  either mode, the world is what the handlers of exactly the requests the policy lets run make
  of it, in order, and the audit trail is the concatenation of the records each request calls
  for; neither depends on the clock, the nonces or what was logged before.\<close>

theorem session_refines_policy:
  assumes "logging h st" and "list_all wire_request reqs"
  shows "length (fst (run_session m orc call_next reqs st)) = length reqs \<and>
    ms_world (snd (run_session m orc call_next reqs st)) =
      foldl (\<lambda>w req. spec_world m call_next req w) (ms_world st) reqs \<and>
    trail (snd (run_session m orc call_next reqs st)) = trail st @ concat (map (request_trail m) reqs)"
  using run_session_spec [OF assms, of m orc call_next]
  by (simp add: run_session_length)

text \<open>A reader is refused, an operator asks, an operator answers, a reader lists.\<close>

definition example_session :: "string request list" where
  "example_session =
     [(gate_token ''reader'', gate_call ''raise'' []),
      (gate_token ''operator'', gate_call ''raise'' []),
      (gate_token ''operator'', gate_call ''raise'' gate_answers),
      (gate_token ''reader'', gate_read ''shipment://A'')]"

theorem session_refines_policy_witness:
  "ms_world (snd (run_session (gate_mw True) gate_env count_handler example_session gate_state)) = 2 \<and>
   trail (snd (run_session (gate_mw True) gate_env count_handler example_session gate_state)) =
     [WARNING, INFO, INFO, INFO, INFO, INFO]"
proof -
  have "list_all wire_request example_session" by code_simp
  from session_refines_policy [OF gate_logging this, of "gate_mw True" gate_env count_handler]
  have "ms_world (snd (run_session (gate_mw True) gate_env count_handler example_session gate_state)) =
      foldl (\<lambda>w req. spec_world (gate_mw True) count_handler req w) (ms_world gate_state) example_session"
    and "trail (snd (run_session (gate_mw True) gate_env count_handler example_session gate_state)) =
      trail gate_state @ concat (map (request_trail (gate_mw True)) example_session)"
    by blast+
  moreover have "foldl (\<lambda>w req. spec_world (gate_mw True) count_handler req w) (ms_world gate_state)
      example_session = 2" by code_simp
  moreover have "trail gate_state @ concat (map (request_trail (gate_mw True)) example_session) =
      [WARNING, INFO, INFO, INFO, INFO, INFO]" by code_simp
  ultimately show ?thesis by simp
qed

end
