(* ===== verification/Main_Program.thy ===== *)
theory Main_Program
  imports Server
begin

text \<open>
  The module level of \<open>server.py\<close>: the program that \<open>python server.py\<close> runs, after the
  argument parser of the standard library made its namespace, and the deferred attribute
  \<open>mcp\<close>. The state is what outlives a step: the files, the audit logger and the rebound
  \<open>SERVICENOW\<close>. Serving is the outcome \<open>Serving\<close>, the application handed to uvicorn.
\<close>

section \<open>The program\<close>

record cli_args =
  ar_host :: string
  ar_port :: int
  ar_auth :: auth_mode
  ar_shadow :: bool
  ar_servicenow :: backend_kind
  ar_print_token :: "string list option"
  ar_print_state_key :: bool

definition default_args :: cli_args where
  "default_args = \<lparr>ar_host = ''127.0.0.1'', ar_port = 8000, ar_auth = AuthOff, ar_shadow = False,
     ar_servicenow = MockBackend, ar_print_token = None, ar_print_state_key = False\<rparr>"

text \<open>Printing and exiting with status 0, an exception that ends the program, or serving.\<close>

datatype 't outcome =
    PrintedKey string
  | PrintedToken 't
  | Failed exn
  | Serving server string int

record 'b process =
  pr_files :: "'b files"
  pr_audit :: sink
  pr_SERVICENOW :: built

definition launch_of :: "cli_args \<Rightarrow> 'k devidp option \<Rightarrow> 'k launch" where
  "launch_of args idp =
     \<lparr>la_auth = ar_auth args, la_policy_path = Some ''policy.yaml'', la_dev_idp = idp,
      la_resource_url = ''http://'' @ ar_host args @ '':'' @ int_str (ar_port args) @ ''/mcp'',
      la_audience = DEFAULT_AUDIENCE, la_enforce = (\<not> ar_shadow args),
      la_backend = ar_servicenow args\<rparr>"

text \<open>\<open>idp = DevIdentityProvider(...) if args.auth == "dev" else None\<close>.\<close>

definition main_idp ::
  "('k, 'b, 't) outside \<Rightarrow> cli_args \<Rightarrow> 'b process \<Rightarrow> (exn + 'k devidp option) \<times> 'b process"
where
  "main_idp sys args pr =
     (if ar_auth args = AuthDev
      then (let (r, fs) = init_devidp (o_crypto sys) (o_fresh sys) DEV_ISSUER DEFAULT_AUDIENCE
                  (Some DEV_KEY_PATH) [] (pr_files pr)
            in (bindE r (\<lambda>idp. Inr (Some idp)), pr\<lparr>pr_files := fs\<rparr>))
      else (Inr None, pr))"

definition main ::
  "('k, 'b, 't) outside \<Rightarrow> (nat \<Rightarrow> byte list) \<Rightarrow> int \<Rightarrow> cli_args \<Rightarrow> 'b process \<Rightarrow> 't outcome \<times> 'b process"
where
  "main sys urandom now args pr0 =
     (if ar_print_state_key args then (PrintedKey (generate_key urandom), pr0)
      else
        (let pr1 = pr0\<lparr>pr_audit := configure ''stdout'' (pr_audit pr0)\<rparr>
         in (case main_idp sys args pr1 of
               (Inl e, pr2) \<Rightarrow> (Failed e, pr2)
             | (Inr idp, pr2) \<Rightarrow>
                 (case ar_print_token args of
                    Some roles \<Rightarrow>
                      (case idp of
                         None \<Rightarrow> (Failed (SystemExit ''--print-token requires --auth dev''), pr2)
                       | Some provider \<Rightarrow>
                           (PrintedToken (issue (o_crypto sys) provider now
                              (issue_defaults\<lparr>ia_roles := Some roles\<rparr>)), pr2))
                  | None \<Rightarrow>
                      (let (r, g) = startup sys (launch_of args idp) (pr_SERVICENOW pr2)
                       in (case r of
                             Inl e \<Rightarrow> (Failed e, pr2\<lparr>pr_SERVICENOW := g\<rparr>)
                           | Inr srv \<Rightarrow>
                               (Serving srv (ar_host args) (ar_port args), pr2\<lparr>pr_SERVICENOW := g\<rparr>)))))))"

section \<open>The deferred attribute\<close>

text \<open>The module's globals, as far as \<open>__getattr__\<close> is concerned: \<open>mcp\<close>, and \<open>SERVICENOW\<close>.\<close>

record module =
  mo_mcp :: "server option"
  mo_SERVICENOW :: built

definition default_launch :: "'k launch" where
  "default_launch = \<lparr>la_auth = AuthOff, la_policy_path = Some ''policy.yaml'', la_dev_idp = None,
     la_resource_url = DEFAULT_RESOURCE_URL, la_audience = DEFAULT_AUDIENCE, la_enforce = True,
     la_backend = MockBackend\<rparr>"

text \<open>\<open>__getattr__\<close> builds and stores; looking up the attribute asks it only while \<open>mcp\<close> is unset.\<close>

definition module_getattr :: "('k, 'b, 't) outside \<Rightarrow> string \<Rightarrow> module \<Rightarrow> (exn + server) \<times> module" where
  "module_getattr sys name mo =
     (if name = ''mcp''
      then (let (r, g) = create_server sys default_launch (mo_SERVICENOW mo)
            in (case r of
                  Inl e \<Rightarrow> (Inl e, mo\<lparr>mo_SERVICENOW := g\<rparr>)
                | Inr instance \<Rightarrow> (Inr instance, mo\<lparr>mo_SERVICENOW := g, mo_mcp := Some instance\<rparr>)))
      else (Inl (Foreign ''AttributeError''
             (''module '' @ repr_str ''server'' @ '' has no attribute '' @ repr_str name)), mo))"

definition read_mcp :: "('k, 'b, 't) outside \<Rightarrow> module \<Rightarrow> (exn + server) \<times> module" where
  "read_mcp sys mo = (case mo_mcp mo of Some srv \<Rightarrow> (Inr srv, mo) | None \<Rightarrow> module_getattr sys ''mcp'' mo)"

section \<open>What a start leaves behind\<close>

lemma create_server_setup:
  "fst (create_server sys la g) = Inr srv \<Longrightarrow> \<exists>auth. auth_setup sys la = Inr (sv_verifier srv, auth)"
  by (auto simp: create_server_def bindS_fst_Inr)

lemma create_server_off:
  "fst (create_server sys la g) = Inr srv \<Longrightarrow> la_auth la = AuthOff \<Longrightarrow>
   sv_verifier srv = None \<and> sv_auth srv = None \<and> sv_middleware srv = []"
  by (auto simp: create_server_def bindS_fst_Inr auth_setup_def)

lemma auth_setup_dev:
  assumes "auth_setup sys la = Inr (verifier, auth)" and "la_auth la = AuthDev" and "la_dev_idp la = Some idp"
  obtains v where "verifier = Some (v, StaticKeys (jwks (o_crypto sys) idp))"
    and "init_verifier (di_issuer idp) (di_audience idp) ALLOWED_ALGORITHMS 60 = Inr v"
  using assms by (auto simp: auth_setup_def bindE_eq_Inr)

lemma launch_of_simps [simp]:
  "la_auth (launch_of args idp) = ar_auth args" "la_policy_path (launch_of args idp) = Some ''policy.yaml''"
  "la_dev_idp (launch_of args idp) = idp" "la_enforce (launch_of args idp) = (\<not> ar_shadow args)"
  by (simp_all add: launch_of_def)

text \<open>A program that serves, taken apart.\<close>

lemma main_Serving:
  assumes "main sys urandom now args pr = (Serving srv host port, pr')"
  obtains idp pr2 where "\<not> ar_print_state_key args" and "ar_print_token args = None"
    and "main_idp sys args (pr\<lparr>pr_audit := configure ''stdout'' (pr_audit pr)\<rparr>) = (Inr idp, pr2)"
    and "fst (startup sys (launch_of args idp) (pr_SERVICENOW pr2)) = Inr srv"
    and "pr_audit pr' = pr_audit pr2" and "pr_files pr' = pr_files pr2"
    and "host = ar_host args" and "port = ar_port args"
  using assms
  by (auto simp: main_def Let_def split: if_splits prod.splits sum.splits option.splits)

lemma main_idp_audit: "pr_audit (snd (main_idp sys args pr)) = pr_audit pr"
  by (simp add: main_idp_def split: prod.split)

text \<open>The provider of a process, when the key file holds a key, and when there is none yet.\<close>

definition provider_of :: "('k, 'b, 't) crypto \<Rightarrow> 'k \<Rightarrow> 'k devidp" where
  "provider_of c key = \<lparr>di_issuer = DEV_ISSUER, di_audience = DEFAULT_AUDIENCE, di_key_path = Some DEV_KEY_PATH,
     di_key_id = take 32 (fingerprint c key), di_private_key = key\<rparr>"

lemma main_idp_stored:
  assumes "ar_auth args = AuthDev" and "fs_content (pr_files pr) DEV_KEY_PATH = Some (to_pem (o_crypto sys) key)"
    and "\<And>k. load_pem (o_crypto sys) (to_pem (o_crypto sys) k) = Inr (Some k)"
  shows "main_idp sys args pr = (Inr (Some (provider_of (o_crypto sys) key)), pr)"
  using assms by (simp add: main_idp_def init_devidp_def load_or_generate_def provider_of_def)

lemma main_idp_fresh:
  assumes "ar_auth args = AuthDev" and "fs_content (pr_files pr) DEV_KEY_PATH = None"
  shows "\<exists>fs. main_idp sys args pr =
      (Inr (Some (provider_of (o_crypto sys) (o_fresh sys))), pr\<lparr>pr_files := fs\<rparr>) \<and>
    fs_content fs DEV_KEY_PATH = Some (to_pem (o_crypto sys) (o_fresh sys))"
  using assms
  by (intro exI [of _ "(pr_files pr)\<lparr>fs_content := (fs_content (pr_files pr))
      (DEV_KEY_PATH \<mapsto> to_pem (o_crypto sys) (o_fresh sys)),
      fs_mode := (fs_mode (pr_files pr))(DEV_KEY_PATH := 384)\<rparr>"])
    (simp add: main_idp_def init_devidp_def load_or_generate_def provider_of_def)

lemma main_serves:
  assumes "\<not> ar_print_state_key args" and "ar_print_token args = None"
    and "main_idp sys args (pr\<lparr>pr_audit := configure ''stdout'' (pr_audit pr)\<rparr>) = (Inr idp, pr2)"
    and "is_ok (fst (startup sys (launch_of args idp) (pr_SERVICENOW pr2)))"
  shows "\<exists>srv pr'. main sys urandom now args pr = (Serving srv (ar_host args) (ar_port args), pr')"
  using assms by (auto simp: main_def Let_def is_ok_iff split: prod.splits)

lemma default_token_genuine:
  assumes "init_verifier (di_issuer idp) (di_audience idp) ALLOWED_ALGORITHMS 60 = Inr v"
    and "issued \<le> later + 60" and "later < issued + 3660"
  shows "genuine public v idp issued later (issue_defaults\<lparr>ia_roles := roles\<rparr>)"
proof -
  have "v_issuer v = di_issuer idp" "v_audience v = di_audience idp" "v_algorithms v = ALLOWED_ALGORITHMS"
    "v_leeway_seconds v = 60" using init_verifier_Inr [OF assms(1)] by simp_all
  moreover have "''RS256'' \<in> set ALLOWED_ALGORITHMS" by (simp add: ALLOWED_ALGORITHMS_def)
  ultimately show ?thesis
    using assms(2,3) by (simp add: genuine_def issue_defaults_def or_default_def)
qed

section \<open>What a serving process accepts\<close>

text \<open>The keys a server with a static key set trusts, and the access token it makes of a bearer text.\<close>

definition published_keys :: "(pydict \<Rightarrow> exn + 'p) \<Rightarrow> server \<Rightarrow> 'p set" where
  "published_keys pyjwk srv =
     (case sv_verifier srv of Some (v, StaticKeys keys) \<Rightarrow> static_trusted pyjwk keys | _ \<Rightarrow> {})"

definition authenticated ::
  "('t \<Rightarrow> exn + pydict) \<Rightarrow> (pydict \<Rightarrow> exn + 'p) \<Rightarrow> ('t, 'p) decoder \<Rightarrow> (exn \<Rightarrow> string) \<Rightarrow> server
    \<Rightarrow> 't \<Rightarrow> 't access_token \<Rightarrow> bool"
where
  "authenticated header pyjwk decode show_exn srv bearer token \<longleftrightarrow>
     (\<exists>v keys. sv_verifier srv = Some (v, StaticKeys keys) \<and>
        fst (verify_token (static_key_for header pyjwk) decode show_exn v bearer keys) = Inr (Some token))"

lemma init_devidp_fields:
  "fst (init_devidp c fresh issuer audience path kid fs) = Inr idp \<Longrightarrow>
   di_issuer idp = issuer \<and> di_audience idp = audience"
  by (cases "load_or_generate c fresh path fs"; cases "fst (load_or_generate c fresh path fs)")
    (auto simp: init_devidp_def)

lemma main_idp_dev:
  assumes "fst (main_idp sys args pr) = Inr idp" and "ar_auth args = AuthDev"
  shows "\<exists>provider. idp = Some provider \<and> di_issuer provider = DEV_ISSUER \<and> di_audience provider = DEFAULT_AUDIENCE"
  using assms init_devidp_fields [of "o_crypto sys" "o_fresh sys" DEV_ISSUER DEFAULT_AUDIENCE]
  by (auto simp: main_idp_def bindE_eq_Inr split_beta)

text \<open>A development server that serves, taken apart.\<close>

lemma serving_dev:
  assumes "main sys urandom now args pr = (Serving srv host port, pr')" and "ar_auth args = AuthDev"
  obtains v keys p where "sv_verifier srv = Some (v, StaticKeys keys)"
    and "init_verifier DEV_ISSUER DEFAULT_AUDIENCE ALLOWED_ALGORITHMS 60 = Inr v"
    and "load (o_read_text sys) (o_safe_load sys) ''policy.yaml'' = Inr p"
    and "sv_middleware srv = [\<lparr>mw_policy = p, mw_enforce = (\<not> ar_shadow args)\<rparr>]"
proof -
  obtain idp pr2 where i: "main_idp sys args (pr\<lparr>pr_audit := configure ''stdout'' (pr_audit pr)\<rparr>) = (Inr idp, pr2)"
    and "fst (startup sys (launch_of args idp) (pr_SERVICENOW pr2)) = Inr srv"
    using assms(1) by (rule main_Serving)
  then have s: "fst (create_server sys (launch_of args idp) (pr_SERVICENOW pr2)) = Inr srv"
    by (simp add: startup_Inr)
  obtain provider where pv: "idp = Some provider" "di_issuer provider = DEV_ISSUER"
    "di_audience provider = DEFAULT_AUDIENCE"
    using main_idp_dev [of sys args "pr\<lparr>pr_audit := configure ''stdout'' (pr_audit pr)\<rparr>" idp] i assms(2) by auto
  obtain auth where su: "auth_setup sys (launch_of args idp) = Inr (sv_verifier srv, auth)"
    using create_server_setup [OF s] by blast
  obtain v where v: "sv_verifier srv = Some (v, StaticKeys (jwks (o_crypto sys) provider))"
    "init_verifier DEV_ISSUER DEFAULT_AUDIENCE ALLOWED_ALGORITHMS 60 = Inr v"
    using auth_setup_dev [OF su, of provider] pv assms(2) by (metis launch_of_simps(1,3))
  from create_server_guarded [OF s, of "''policy.yaml''"] assms(2) obtain p where
    "load (o_read_text sys) (o_safe_load sys) ''policy.yaml'' = Inr p"
    "sv_middleware srv = [\<lparr>mw_policy = p, mw_enforce = (\<not> ar_shadow args)\<rparr>]" by auto
  with v that show thesis by blast
qed

lemma authenticated_was_checked:
  assumes "main sys urandom now args pr = (Serving srv host port, pr')" and "ar_auth args = AuthDev"
    and "authenticated header pyjwk decode show_exn srv bearer token"
  shows "\<exists>k claims. k \<in> published_keys pyjwk srv \<and>
    decode bearer k ALLOWED_ALGORITHMS DEV_ISSUER DEFAULT_AUDIENCE 60 required_claims verify_options = Inr claims \<and>
    roles_from_token (Some token) = string_list (dict_get claims ''roles'')"
proof -
  obtain v keys where v: "sv_verifier srv = Some (v, StaticKeys keys)"
    and i: "init_verifier DEV_ISSUER DEFAULT_AUDIENCE ALLOWED_ALGORITHMS 60 = Inr v"
    using serving_dev [OF assms(1,2)] by metis
  obtain lines keys' where "verify_token (static_key_for header pyjwk) decode show_exn v bearer keys =
      (Inr (Some token), lines, keys')"
    using assms(3) v by (auto simp: authenticated_def prod_eq_iff)
  from static.accepted [OF this] init_verifier_Inr [OF i] v show ?thesis
    by (auto simp: published_keys_def to_access_token_fields)
qed

section \<open>Properties\<close>

text \<open>C19: a token printed in a second terminal is accepted by the running server: when the
  program serves in development mode from a directory without a key file, then the program run
  with \<open>--print-token\<close> in that directory prints a token that the verifier the first process
  started accepts, against the keys it published, with exactly the roles asked for, until an
  hour and the leeway have passed; whatever key the second process would have generated.\<close>

theorem printed_token_is_accepted:
  assumes "main sysA urandomA nowA argsA pr = (Serving srv host port, prA)"
    and "ar_auth argsA = AuthDev" and "fs_content (pr_files pr) DEV_KEY_PATH = None"
    and "o_crypto sysB = o_crypto sysA"
    and "\<And>k. load_pem (o_crypto sysA) (to_pem (o_crypto sysA) k) = Inr (Some k)"
    and "ar_auth argsB = AuthDev" and "\<not> ar_print_state_key argsB" and "ar_print_token argsB = Some roles"
    and "pr_files prB = pr_files prA"
    and "pyjwt_contract (o_crypto sysA) header pyjwk public decode later"
    and "issued \<le> later + 60" and "later < issued + 3660"
  shows "\<exists>tok v keys t. fst (main sysB urandomB issued argsB prB) = PrintedToken tok \<and>
    sv_verifier srv = Some (v, StaticKeys keys) \<and>
    fst (verify_token (static_key_for header pyjwk) decode show_exn v tok keys) = Inr (Some t) \<and>
    roles_from_token (Some t) = roles"
proof -
  let ?c = "o_crypto sysA"
  let ?idp = "provider_of ?c (o_fresh sysA)"
  obtain idp pr2 where i: "main_idp sysA argsA (pr\<lparr>pr_audit := configure ''stdout'' (pr_audit pr)\<rparr>) = (Inr idp, pr2)"
    and s: "fst (startup sysA (launch_of argsA idp) (pr_SERVICENOW pr2)) = Inr srv"
    and fsA: "pr_files prA = pr_files pr2"
    using assms(1) by (rule main_Serving)
  obtain fs where idp: "idp = Some ?idp" and fs: "pr_files pr2 = fs"
    and key: "fs_content fs DEV_KEY_PATH = Some (to_pem ?c (o_fresh sysA))"
    using main_idp_fresh [OF assms(2), of "pr\<lparr>pr_audit := configure ''stdout'' (pr_audit pr)\<rparr>" sysA] assms(3) i
    by auto
  obtain auth where su: "auth_setup sysA (launch_of argsA (Some ?idp)) = Inr (sv_verifier srv, auth)"
    using s create_server_setup unfolding startup_Inr idp by blast
  obtain v where ver: "sv_verifier srv = Some (v, StaticKeys (jwks ?c ?idp))"
    and v: "init_verifier (di_issuer ?idp) (di_audience ?idp) ALLOWED_ALGORITHMS 60 = Inr v"
    by (rule auth_setup_dev [OF su]) (simp_all add: assms(2))
  let ?pr = "prB\<lparr>pr_audit := configure ''stdout'' (pr_audit prB)\<rparr>" and ?a = "issue_defaults\<lparr>ia_roles := Some roles\<rparr>"
  have "main_idp sysB argsB ?pr = (Inr (Some ?idp), ?pr)"
    using main_idp_stored [OF assms(6), of ?pr sysB "o_fresh sysA"] assms(4,5,9) fsA fs key by simp
  then have tok: "fst (main sysB urandomB issued argsB prB) = PrintedToken (issue ?c ?idp issued ?a)"
    using assms(4,7,8) by (simp add: main_def Let_def)
  have "\<exists>t. fst (verify_token (static_key_for header pyjwk) decode show_exn v (issue ?c ?idp issued ?a)
      (jwks ?c ?idp)) = Inr (Some t) \<and> roles_from_token (Some t) = roles"
    using verify_issued [OF assms(10), of v ?idp issued ?a show_exn]
      default_token_genuine [OF v assms(11,12), of public "Some roles"]
    by (auto simp: issue_defaults_def split: sum.splits option.splits)
  with tok ver show ?thesis by blast
qed

definition example_args :: cli_args where
  "example_args = default_args\<lparr>ar_auth := AuthDev\<rparr>"

definition example_process :: "nat process" where
  "example_process = \<lparr>pr_files = \<lparr>fs_content = Map.empty, fs_mode = (\<lambda>_. 0)\<rparr>, pr_audit = example_sink,
     pr_SERVICENOW = example_global\<rparr>"

lemma example_serves_dev: "\<exists>srv host port pr'. main (example_sys []) (\<lambda>n. []) 0 example_args example_process =
    (Serving srv host port, pr')"
proof -
  let ?pr = "example_process\<lparr>pr_audit := configure ''stdout'' (pr_audit example_process)\<rparr>"
  have auth: "ar_auth example_args = AuthDev" by (simp add: example_args_def)
  have "fs_content (pr_files ?pr) DEV_KEY_PATH = None" by (simp add: example_process_def)
  from main_idp_fresh [OF auth this, of "example_sys []"] obtain fs where
    i: "main_idp (example_sys []) example_args ?pr = (Inr (Some (provider_of toy_crypto 7)), ?pr\<lparr>pr_files := fs\<rparr>)"
    by (auto simp: example_sys_def)
  have "is_ok (load_keys (o_env (example_sys []) ENV_KEYS) None)"
    and "is_ok (load (o_read_text (example_sys [])) (o_safe_load (example_sys [])) ''policy.yaml'')"
    by code_simp+
  moreover have "\<And>x. is_ok (o_settings (example_sys []) x)" by (simp add: example_sys_def)
  moreover have "la_backend (launch_of example_args (Some (provider_of toy_crypto 7))) = MockBackend"
    by (simp add: launch_of_def example_args_def default_args_def)
  ultimately have "is_ok (fst (startup (example_sys []) (launch_of example_args (Some (provider_of toy_crypto 7)))
      (pr_SERVICENOW (?pr\<lparr>pr_files := fs\<rparr>))))"
    by (subst startup_dev_ok) (simp_all add: auth)
  from main_serves [OF _ _ i this, where urandom = "\<lambda>n. []" and now = 0] show ?thesis
    by (auto simp: example_args_def default_args_def)
qed

theorem printed_token_is_accepted_witness:
  "\<exists>srv host port prA tok v keys t.
     main (example_sys []) (\<lambda>n. []) 0 example_args example_process = (Serving srv host port, prA) \<and>
     fst (main ((example_sys [])\<lparr>o_fresh := 99\<rparr>) (\<lambda>n. []) 1000
       (example_args\<lparr>ar_print_token := Some [''tlo.operator'']\<rparr>) (example_process\<lparr>pr_files := pr_files prA\<rparr>)) =
       PrintedToken tok \<and>
     sv_verifier srv = Some (v, StaticKeys keys) \<and>
     fst (verify_token (static_key_for toy_header toy_pyjwk) (toy_decode 2000) (\<lambda>_. []) v tok keys) = Inr (Some t) \<and>
     roles_from_token (Some t) = [''tlo.operator'']"
proof -
  obtain srv host port prA where a: "main (example_sys []) (\<lambda>n. []) 0 example_args example_process =
      (Serving srv host port, prA)"
    using example_serves_dev by blast
  have c: "o_crypto (example_sys []) = toy_crypto" by (simp add: example_sys_def)
  have pem: "load_pem (o_crypto (example_sys [])) (to_pem (o_crypto (example_sys [])) k) = Inr (Some k)" for k
    by (simp add: c toy_crypto_def)
  have jwt: "pyjwt_contract (o_crypto (example_sys [])) toy_header toy_pyjwk (\<lambda>k. k) (toy_decode 2000) 2000"
    unfolding c by (rule toy_contract)
  from printed_token_is_accepted [OF a _ _ _ pem _ _ _ _ jwt, of "(example_sys [])\<lparr>o_fresh := 99\<rparr>"
      "example_args\<lparr>ar_print_token := Some [''tlo.operator'']\<rparr>" "[''tlo.operator'']"
      "example_process\<lparr>pr_files := pr_files prA\<rparr>" 1000 "\<lambda>n. []" "\<lambda>_. []"] a
  show ?thesis
    by (auto simp: example_args_def default_args_def example_process_def)
qed

text \<open>C18: a serving process is audited and, in a mode with authentication, governed: the audit
  logger has its one handler on standard output at level INFO without propagation, and the
  server has exactly one middleware, over a well-formed policy and enforcing unless \<open>--shadow\<close>
  was given; without authentication it has neither verifier nor middleware.\<close>

theorem serving_is_governed_and_audited:
  assumes "main sys urandom now args pr = (Serving srv host port, pr')"
  shows "sk_level (pr_audit pr') = INFO \<and> sk_handlers (pr_audit pr') = [''stdout''] \<and>
    \<not> sk_propagate (pr_audit pr') \<and>
    (if ar_auth args = AuthOff then sv_verifier srv = None \<and> sv_middleware srv = []
     else (\<exists>p. wf_policy p \<and> sv_middleware srv = [\<lparr>mw_policy = p, mw_enforce = (\<not> ar_shadow args)\<rparr>]) \<and>
       (\<exists>v src. sv_verifier srv = Some (v, src) \<and> v_algorithms v = ALLOWED_ALGORITHMS))"
proof -
  obtain idp pr2 where i: "main_idp sys args (pr\<lparr>pr_audit := configure ''stdout'' (pr_audit pr)\<rparr>) = (Inr idp, pr2)"
    and s: "fst (startup sys (launch_of args idp) (pr_SERVICENOW pr2)) = Inr srv"
    and a: "pr_audit pr' = pr_audit pr2"
    using assms by (rule main_Serving)
  have "pr_audit pr2 = configure ''stdout'' (pr_audit pr)"
    using main_idp_audit [of sys args "pr\<lparr>pr_audit := configure ''stdout'' (pr_audit pr)\<rparr>"] i by simp
  with a have "sk_level (pr_audit pr') = INFO" "sk_handlers (pr_audit pr') = [''stdout'']"
    "\<not> sk_propagate (pr_audit pr')" by (simp_all add: configure_def)
  moreover have "if ar_auth args = AuthOff then sv_verifier srv = None \<and> sv_middleware srv = []
     else (\<exists>p. wf_policy p \<and> sv_middleware srv = [\<lparr>mw_policy = p, mw_enforce = (\<not> ar_shadow args)\<rparr>]) \<and>
       (\<exists>v src. sv_verifier srv = Some (v, src) \<and> v_algorithms v = ALLOWED_ALGORITHMS)"
    using s create_server_off [of sys "launch_of args idp" "pr_SERVICENOW pr2" srv]
      create_server_guarded [of sys "launch_of args idp" "pr_SERVICENOW pr2" srv "''policy.yaml''"] load_wf_policy
    by (auto simp: startup_Inr)
  ultimately show ?thesis by blast
qed

theorem serving_is_governed_and_audited_witness:
  "\<exists>srv host port pr'. main (example_sys []) (\<lambda>n. []) 0 example_args example_process = (Serving srv host port, pr') \<and>
    sk_handlers (pr_audit pr') = [''stdout''] \<and> length (sv_middleware srv) = 1"
proof -
  obtain srv host port pr' where a: "main (example_sys []) (\<lambda>n. []) 0 example_args example_process =
      (Serving srv host port, pr')"
    using example_serves_dev by blast
  have "ar_auth example_args = AuthDev" by (simp add: example_args_def)
  with serving_is_governed_and_audited [OF a] a show ?thesis by auto
qed

text \<open>The key the program prints is a key it accepts: \<open>--print-state-key\<close> touches nothing, and
  the printed text, put in the environment of any later start, loads as the ring of exactly the
  random bytes drawn, so the server seals with the shared key and not with an ephemeral one.\<close>

lemma printed_state_key_usable:
  assumes "\<And>n. length (urandom n) = n" and "ar_print_state_key args"
  shows "\<exists>text. main sys urandom now args pr = (PrintedKey text, pr) \<and>
    load_keys (Some text) None = Inr [urandom 32] \<and>
    (\<exists>line. build (Some text) None 600 = Inr (KeyRing [urandom 32] 600 None, line))"
proof -
  have k: "load_keys (Some (generate_key urandom)) None = Inr [urandom 32]"
    using generated_key_loads [OF assms(1)] by (simp add: load_keys_def)
  then show ?thesis using assms(2) by (simp add: main_def build_def)
qed

text \<open>
  The module's \<open>mcp\<close> is built on first access and kept; it carries no middleware and no
  verifier, being the transport-only demo. A failed build is not kept.
\<close>

lemma mcp_built_once:
  assumes "read_mcp sys mo = (Inr srv, mo')"
  shows "read_mcp sys' mo' = (Inr srv, mo') \<and>
    (mo_mcp mo = None \<longrightarrow> sv_verifier srv = None \<and> sv_middleware srv = [])"
proof (cases "mo_mcp mo")
  case None
  obtain r g where c: "create_server sys default_launch (mo_SERVICENOW mo) = (r, g)" by fastforce
  with assms None have "r = Inr srv" and "mo' = mo\<lparr>mo_SERVICENOW := g, mo_mcp := Some srv\<rparr>"
    by (auto simp: read_mcp_def module_getattr_def split: sum.splits)
  with create_server_off [of sys default_launch "mo_SERVICENOW mo" srv] c show ?thesis
    by (simp add: read_mcp_def default_launch_def)
next
  case (Some s)
  with assms show ?thesis by (auto simp: read_mcp_def)
qed

lemma mcp_failure_not_kept: "read_mcp sys mo = (Inl e, mo') \<Longrightarrow> mo_mcp mo' = None"
  by (auto simp: read_mcp_def module_getattr_def split: option.splits prod.splits sum.splits)

end
