(* ===== verification/Dispatch.thy ===== *)
theory Dispatch
  imports Server Flow
begin

text \<open>
  The rest of the chain behind the middleware: the tools and the resource that \<open>create_server\<close>
  registers, called on a request's arguments. What the SDK does around them is a parameter:
  reading an argument of a declared type with its default, matching a URI against the
  template, serializing a result, reporting an exception, and every other method.
\<close>

section \<open>The registered functions\<close>

datatype tool_result =
    StatusResult shipment_status
  | DelayedResult "delayed_shipment list"
  | IncidentsResult "incident_summary list"
  | ItemResult pyval
  | AssessmentResult delay_assessment
  | FiledResult incident_summary
  | DetailResult string

record sdk =
  sd_str :: "pydict \<Rightarrow> string \<Rightarrow> string option \<Rightarrow> exn + string"
  sd_int :: "pydict \<Rightarrow> string \<Rightarrow> int option \<Rightarrow> exn + int"
  sd_template :: "ctx \<Rightarrow> string option"
  sd_unknown :: "string \<Rightarrow> exn"
  sd_result :: "tool_result \<Rightarrow> response"
  sd_error :: "exn \<Rightarrow> exn + response"
  sd_other :: "ctx \<Rightarrow> exn + response"

text \<open>Each tool by its name, with the parameters and defaults of its signature.\<close>

definition run_tool ::
  "sdk \<Rightarrow> 's servicenow \<Rightarrow> shipments \<Rightarrow> int \<Rightarrow> string \<Rightarrow> pydict \<Rightarrow> 's \<Rightarrow> (exn + tool_result) \<times> 's"
where
  "run_tool sdk b db now tool args s =
     (let shipment_id = sd_str sdk args ''shipment_id'' None
      in if tool = ''get_shipment_status''
         then liftS (bindE shipment_id (\<lambda>i. bindE (get_shipment_status db i) (\<lambda>r. Inr (StatusResult r)))) s
         else if tool = ''list_delayed_shipments''
         then liftS (bindE (sd_int sdk args ''threshold_hours'' (Some 24)) (\<lambda>h.
                bindE (list_delayed_shipments db now h) (\<lambda>r. Inr (DelayedResult r)))) s
         else if tool = ''search_incidents''
         then bindS (liftS (sd_str sdk args ''configuration_item'' (Some [])) s) (\<lambda>ci s.
              bindS (liftS (sd_int sdk args ''limit'' (Some 10)) s) (\<lambda>limit s.
              bindS (search_incidents b ci limit s) (\<lambda>r s. (Inr (IncidentsResult r), s))))
         else if tool = ''get_configuration_item''
         then bindS (liftS (sd_str sdk args ''name'' None) s) (\<lambda>name s.
              bindS (get_configuration_item b name s) (\<lambda>r s. (Inr (ItemResult r), s)))
         else if tool = ''assess_shipment_delay''
         then bindS (liftS shipment_id s) (\<lambda>i s.
              bindS (assess_shipment_delay b db now i s) (\<lambda>r s. (Inr (AssessmentResult r), s)))
         else if tool = ''raise_shipment_incident''
         then bindS (liftS shipment_id s) (\<lambda>i s.
              bindS (liftS (sd_str sdk args ''urgency'' (Some ''3'')) s) (\<lambda>urgency s.
              bindS (raise_shipment_incident b db i urgency s) (\<lambda>r s. (Inr (FiledResult r), s))))
         else (Inl (sd_unknown sdk tool), s))"

definition arguments_of :: "ctx \<Rightarrow> pydict" where
  "arguments_of ctx = mapping_or_empty (dict_get (params_of ctx) ''arguments'')"

definition serve :: "sdk \<Rightarrow> 's servicenow \<Rightarrow> shipments \<Rightarrow> (ctx \<Rightarrow> 's \<Rightarrow> int) \<Rightarrow> 's handler" where
  "serve sdk b db now ctx s =
     (if c_method ctx = Some ''tools/call''
      then (let (r, s') = run_tool sdk b db (now ctx s) (call_tool_name ctx) (arguments_of ctx) s
            in (case r of Inl e \<Rightarrow> sd_error sdk e | Inr v \<Rightarrow> Inr (sd_result sdk v), s'))
      else if c_method ctx = Some ''resources/read''
      then (case sd_template sdk ctx of
              Some i \<Rightarrow> Inr (sd_result sdk (DetailResult (shipment_detail db i)))
            | None \<Rightarrow> sd_other sdk ctx, s)
      else (sd_other sdk ctx, s))"

section \<open>Only one tool writes\<close>

lemma liftS_snd: "snd (bindS (liftS r s) f) = (case r of Inl e \<Rightarrow> s | Inr a \<Rightarrow> snd (f a s))"
  by (cases r) simp_all

context backend_reader
begin

lemma run_tool_reads:
  assumes "tool \<noteq> ''raise_shipment_incident''"
  shows "snd (run_tool sdk backend db now tool args s) = s"
  using assms unfolding run_tool_def Let_def
  by (simp add: liftS_snd bindS_result [of _ "\<lambda>r. Inr (g r)" for g] assess_keeps search_tool_keeps get_item_keeps split: sum.split)

lemma run_tool_raises:
  "snd (run_tool sdk backend db now ''raise_shipment_incident'' args s) = s \<or>
   (\<exists>shipment_id urgency. snd (run_tool sdk backend db now ''raise_shipment_incident'' args s) =
      snd (raise_shipment_incident backend db shipment_id urgency s))"
  unfolding run_tool_def Let_def
  by (simp add: liftS_snd bindS_result [of _ "\<lambda>r. Inr (g r)" for g] split: sum.split) blast

end

lemma serve_call:
  "c_method ctx = Some ''tools/call'' \<Longrightarrow>
   serve sdk b db now ctx s =
     (case fst (run_tool sdk b db (now ctx s) (call_tool_name ctx) (arguments_of ctx) s) of
        Inl e \<Rightarrow> sd_error sdk e | Inr v \<Rightarrow> Inr (sd_result sdk v),
      snd (run_tool sdk b db (now ctx s) (call_tool_name ctx) (arguments_of ctx) s))"
  by (simp add: serve_def split_beta)

lemma serve_reads: "c_method ctx \<noteq> Some ''tools/call'' \<Longrightarrow> snd (serve sdk b db now ctx s) = s"
  by (simp add: serve_def)

end
