(* ===== verification/Governed.thy ===== *)
theory Governed
  imports Session ShippedPolicy Dispatch
begin

text \<open>
  The governed server over the ServiceNow mock: the middleware with the shipped policy in
  front of a dispatcher that serves the tools of \<open>server.py\<close>. What one request, and what a
  session of requests, can do to the incident log.
\<close>

section \<open>The governed server\<close>

text \<open>
  What the dispatcher of the SDK does with the registered tools, as far as the ServiceNow mock
  is concerned: only a call of \<open>raise_shipment_incident\<close> changes it, and then as that tool does.
\<close>

definition serves_tools :: "(nat \<Rightarrow> string) \<Rightarrow> shipments \<Rightarrow> mock handler \<Rightarrow> bool" where
  "serves_tools ticks db call_next \<longleftrightarrow>
     (\<forall>ctx w. snd (call_next ctx w) = w \<or>
        c_method ctx = Some ''tools/call'' \<and> call_tool_name ctx = ''raise_shipment_incident'' \<and>
        (\<exists>shipment_id urgency. snd (call_next ctx w) =
           snd (raise_shipment_incident (mock_servicenow ticks) db shipment_id urgency w)))"

lemma serve_serves_tools: "serves_tools ticks db (serve sdk (mock_servicenow ticks) db now)"
  unfolding serves_tools_def
proof (intro allI)
  fix ctx w
  let ?w = "snd (serve sdk (mock_servicenow ticks) db now ctx w)"
  show "?w = w \<or> c_method ctx = Some ''tools/call'' \<and> call_tool_name ctx = ''raise_shipment_incident'' \<and>
      (\<exists>shipment_id urgency. ?w = snd (raise_shipment_incident (mock_servicenow ticks) db shipment_id urgency w))"
  proof (cases "c_method ctx = Some ''tools/call'' \<and> call_tool_name ctx = ''raise_shipment_incident''")
    case True
    then show ?thesis
      using mock.run_tool_raises [of sdk ticks db "now ctx w" "arguments_of ctx" w] by (simp add: serve_call)
  next
    case False
    then have "?w = w"
      using mock.run_tool_reads [of "call_tool_name ctx" sdk ticks db "now ctx w" "arguments_of ctx" w]
      by (cases "c_method ctx = Some ''tools/call''") (simp_all add: serve_call serve_reads)
    then show ?thesis ..
  qed
qed

definition shipped_mw :: middleware where
  "shipped_mw = \<lparr>mw_policy = shipped_policy, mw_enforce = True\<rparr>"

lemma shipped_call_decision:
  "d_allowed (call_decision shipped_mw token ctx) \<longleftrightarrow>
     call_tool_name ctx \<in> set registered_tools \<and>
     (''tlo.operator'' \<in> set (roles_from_token token) \<or> ''platform.admin'' \<in> set (roles_from_token token) \<or>
      ''tlo.reader'' \<in> set (roles_from_token token) \<and> call_tool_name ctx \<noteq> ''raise_shipment_incident'')"
  "d_requires_approval (call_decision shipped_mw token ctx) \<longleftrightarrow>
     call_tool_name ctx = ''raise_shipment_incident''"
  by (simp_all add: call_decision_def shipped_mw_def call_tool_name_def shipped_access)

lemma granted_call:
  assumes "mw_enforce m" and "c_method ctx = Some ''tools/call''" and "wire_call ctx"
    and "gate_verdict m token ctx = Runs"
  shows "fst (handle m orc token ctx call_next st) = fst (call_next ctx (ms_world st))"
    and "ms_world (snd (handle m orc token ctx call_next st)) = snd (call_next ctx (ms_world st))"
proof -
  have "(fst (guard_tool_call m orc token ctx call_next st),
      ms_world (snd (guard_tool_call m orc token ctx call_next st))) = call_next ctx (ms_world st)"
    using guard_tool_call_gate [OF assms(1,3), of token call_next st orc] assms(4) by (simp add: gate_result_def)
  with assms(2) show "fst (handle m orc token ctx call_next st) = fst (call_next ctx (ms_world st))"
    and "ms_world (snd (handle m orc token ctx call_next st)) = snd (call_next ctx (ms_world st))"
    by (metis handle_def fst_conv, metis handle_def snd_conv)
qed

lemma blocked_world:
  "blocks (guard_tool_call m orc token) ctx st \<Longrightarrow>
   ms_world (snd (guard_tool_call m orc token ctx call_next st)) = ms_world st"
  unfolding blocks_def by (metis snd_conv)

lemma refused_world:
  "mw_enforce m \<Longrightarrow> \<not> d_allowed (call_decision m token ctx) \<Longrightarrow>
   ms_world (snd (guard_tool_call m orc token ctx call_next st)) = ms_world st"
  using refused_tool_call [of m token ctx st orc] by (metis snd_conv)

lemma raise_mock_appends:
  assumes "s' = snd (raise_shipment_incident (mock_servicenow ticks) db shipment_id urgency s)" and "s' \<noteq> s"
  shows "\<exists>sh i. map_of db shipment_id = Some sh \<and> mk_incidents s' = mk_incidents s @ [i] \<and>
    inc_configuration_item i = sh_ci sh"
proof -
  obtain r s1 where r: "raise_shipment_incident (mock_servicenow ticks) db shipment_id urgency s = (r, s1)"
    by fastforce
  from mock.raise_cases [OF r] assms r show ?thesis by (cases r) auto
qed

text \<open>The one kind of request that may file an incident.\<close>

definition may_raise :: "'t request \<Rightarrow> bool" where
  "may_raise req \<longleftrightarrow>
     (case req of (token, ctx) \<Rightarrow>
        c_method ctx = Some ''tools/call'' \<and> call_tool_name ctx = ''raise_shipment_incident'' \<and>
        (''tlo.operator'' \<in> set (roles_from_token token) \<or> ''platform.admin'' \<in> set (roles_from_token token)) \<and>
        check (state_of (params_of ctx)) (answers_of (params_of ctx)) = Inr ())"

lemma may_raise_runs: "may_raise (token, ctx) \<Longrightarrow> gate_verdict shipped_mw token ctx = Runs"
  by (auto simp: may_raise_def gate_verdict_def Let_def shipped_call_decision registered_tools_def
      dest: check_ok_truthy)

text \<open>Over any backend: a call that changes the world is allowed, and approved where it is gated.\<close>

lemma changing_call:
  assumes "c_method ctx = Some ''tools/call''"
    and "ms_world (snd (handle shipped_mw orc token ctx call_next st)) \<noteq> ms_world st"
  shows "d_allowed (call_decision shipped_mw token ctx)"
    and "call_tool_name ctx = ''raise_shipment_incident'' \<Longrightarrow> may_raise (token, ctx)"
proof -
  have h: "handle shipped_mw orc token ctx call_next st = guard_tool_call shipped_mw orc token ctx call_next st"
    using assms(1) by (simp add: handle_def)
  have e: "mw_enforce shipped_mw" by (simp add: shipped_mw_def)
  show allowed: "d_allowed (call_decision shipped_mw token ctx)"
    using refused_world [OF e] assms(2) h by metis
  assume t: "call_tool_name ctx = ''raise_shipment_incident''"
  have "check (state_of (params_of ctx)) (answers_of (params_of ctx)) = Inr ()"
    using blocked_world [OF unapproved_tool_call [OF e]] assms(2) h t shipped_call_decision(2) by metis
  with allowed assms(1) t show "may_raise (token, ctx)" by (simp add: may_raise_def shipped_call_decision)
qed

lemma incident_step:
  assumes "serves_tools ticks db call_next"
    and "ms_world (snd (handle shipped_mw orc token ctx call_next st)) \<noteq> ms_world st"
  shows "may_raise (token, ctx)"
    and "\<exists>shipment_id urgency. ms_world (snd (handle shipped_mw orc token ctx call_next st)) =
      snd (raise_shipment_incident (mock_servicenow ticks) db shipment_id urgency (ms_world st))"
proof -
  let ?w = "ms_world st" and ?w' = "ms_world (snd (handle shipped_mw orc token ctx call_next st))"
  have w': "?w' = snd (call_next ctx ?w)"
    using mw.world_result [of shipped_mw orc token ctx call_next st] assms(2) by metis
  with assms obtain shipment_id urgency where m: "c_method ctx = Some ''tools/call''"
    and t: "call_tool_name ctx = ''raise_shipment_incident''"
    and r: "?w' = snd (raise_shipment_incident (mock_servicenow ticks) db shipment_id urgency ?w)"
    unfolding serves_tools_def by metis
  show "may_raise (token, ctx)" by (rule changing_call(2) [OF m assms(2) t])
  from r show "\<exists>shipment_id urgency. ?w' =
      snd (raise_shipment_incident (mock_servicenow ticks) db shipment_id urgency ?w)" by blast
qed

text \<open>What a request does to the incident log, changed or not.\<close>

lemma raise_keeps_reachable:
  "mock_reachable ticks s \<Longrightarrow>
   mock_reachable ticks (snd (raise_shipment_incident (mock_servicenow ticks) db shipment_id urgency s))"
  by (auto simp: raise_shipment_incident_def mock_servicenow_def mock_step split: option.splits
      intro!: bindS_keeps [of "mock_reachable ticks"])

lemma request_step:
  assumes "serves_tools ticks db call_next" and "mock_reachable ticks (ms_world st)"
    and "w' = ms_world (snd (handle shipped_mw orc token ctx call_next st))"
  shows "mock_reachable ticks w' \<and>
    (\<exists>new. mk_incidents w' = mk_incidents (ms_world st) @ new \<and>
      length new \<le> of_bool (may_raise (token, ctx)) \<and>
      (\<forall>i\<in>set new. \<exists>shipment_id sh. map_of db shipment_id = Some sh \<and> inc_configuration_item i = sh_ci sh))"
proof (cases "w' = ms_world st")
  case True
  with assms(2) show ?thesis by (intro conjI exI [of _ "[]"]) simp_all
next
  case False
  then have ch: "ms_world (snd (handle shipped_mw orc token ctx call_next st)) \<noteq> ms_world st"
    by (simp add: assms(3))
  obtain shipment_id urgency where
    r: "w' = snd (raise_shipment_incident (mock_servicenow ticks) db shipment_id urgency (ms_world st))"
    using incident_step(2) [OF assms(1) ch] assms(3) by blast
  from raise_mock_appends [OF r False] obtain sh i where "map_of db shipment_id = Some sh"
    and "mk_incidents w' = mk_incidents (ms_world st) @ [i]" and "inc_configuration_item i = sh_ci sh"
    by blast
  with incident_step(1) [OF assms(1) ch] raise_keeps_reachable [OF assms(2)] show ?thesis
    unfolding r by (intro conjI exI [of _ "[i]"]) auto
qed

lemma session_step:
  assumes "serves_tools ticks db call_next" and "mock_reachable ticks (ms_world st)"
  shows "mock_reachable ticks (ms_world (snd (run_session shipped_mw orc call_next reqs st))) \<and>
    (\<exists>new. mk_incidents (ms_world (snd (run_session shipped_mw orc call_next reqs st))) =
        mk_incidents (ms_world st) @ new \<and> length new \<le> length (filter may_raise reqs) \<and>
      (\<forall>i\<in>set new. \<exists>shipment_id sh. map_of db shipment_id = Some sh \<and> inc_configuration_item i = sh_ci sh))"
  using assms(2)
proof (induction reqs arbitrary: st)
  case Nil
  then show ?case by simp
next
  case (Cons req reqs)
  obtain token ctx where req: "req = (token, ctx)" by (cases req)
  let ?st = "snd (handle shipped_mw orc token ctx call_next st)"
  from request_step [OF assms(1) Cons.prems refl, of orc token ctx] obtain new1 where
    r: "mock_reachable ticks (ms_world ?st)"
    and n1: "mk_incidents (ms_world ?st) = mk_incidents (ms_world st) @ new1"
      "length new1 \<le> of_bool (may_raise (token, ctx))"
      "\<forall>i\<in>set new1. \<exists>shipment_id sh. map_of db shipment_id = Some sh \<and> inc_configuration_item i = sh_ci sh"
    by blast
  have run: "snd (run_session shipped_mw orc call_next (req # reqs) st) =
      snd (run_session shipped_mw orc call_next reqs ?st)"
    by (simp add: req split_beta Let_def)
  from Cons.IH [OF r] obtain new2 where
    n2: "mk_incidents (ms_world (snd (run_session shipped_mw orc call_next reqs ?st))) =
        mk_incidents (ms_world ?st) @ new2" "length new2 \<le> length (filter may_raise reqs)"
      "\<forall>i\<in>set new2. \<exists>shipment_id sh. map_of db shipment_id = Some sh \<and> inc_configuration_item i = sh_ci sh"
    by blast
  with n1 Cons.IH [OF r] show ?case
    unfolding run by (intro conjI exI [of _ "new1 @ new2"]) (auto simp: req split: if_splits)
qed

section \<open>Raise, then assess\<close>

text \<open>
  The flow of the use case over any backend: an approved call that raises, then a reader's call
  that assesses, run the two tools one after the other, and the caller gets their answers.
\<close>

lemma governed_flow:
  assumes "may_raise (tok1, ctx1)" and "wire_call ctx1"
    and "sd_str sdk (arguments_of ctx1) ''shipment_id'' None = Inr shipment_id"
    and "sd_str sdk (arguments_of ctx1) ''urgency'' (Some ''3'') = Inr urgency"
    and "c_method ctx2 = Some ''tools/call''" and "call_tool_name ctx2 = ''assess_shipment_delay''"
    and "wire_call ctx2" and "''tlo.reader'' \<in> set (roles_from_token tok2)"
    and "sd_str sdk (arguments_of ctx2) ''shipment_id'' None = Inr shipment_id"
    and "raise_shipment_incident backend db shipment_id urgency (ms_world st) = (Inr summary, w)"
    and "assess_shipment_delay backend db (now ctx2 w) shipment_id w = (Inr a, w)"
  shows "\<exists>st'. run_session shipped_mw orc (serve sdk backend db now) [(tok1, ctx1), (tok2, ctx2)] st =
      ([Inr (sd_result sdk (FiledResult summary)), Inr (sd_result sdk (AssessmentResult a))], st') \<and>
    ms_world st' = w"
proof -
  have m: "c_method ctx1 = Some ''tools/call''" "call_tool_name ctx1 = ''raise_shipment_incident''"
    using assms(1) by (simp_all add: may_raise_def)
  have e: "mw_enforce shipped_mw" by (simp add: shipped_mw_def)
  obtain r1 st1 where h1: "handle shipped_mw orc tok1 ctx1 (serve sdk backend db now) st = (r1, st1)" by fastforce
  obtain r2 st2 where h2: "handle shipped_mw orc tok2 ctx2 (serve sdk backend db now) st1 = (r2, st2)" by fastforce
  have o1: "r1 = Inr (sd_result sdk (FiledResult summary)) \<and> ms_world st1 = w"
    using granted_call [OF e m(1) assms(2) may_raise_runs [OF assms(1)], of orc "serve sdk backend db now" st]
      m assms(3,4,10) by (simp add: h1 serve_call run_tool_def)
  have "gate_verdict shipped_mw tok2 ctx2 = Runs"
    using assms(6,8) by (simp add: gate_verdict_iff shipped_call_decision registered_tools_def)
  from granted_call [OF e assms(5,7) this, of orc "serve sdk backend db now" st1]
  have "r2 = Inr (sd_result sdk (AssessmentResult a)) \<and> ms_world st2 = w"
    using assms(5,6,9,11) o1 by (simp add: h2 serve_call run_tool_def)
  with o1 show ?thesis by (simp add: h1 h2)
qed

section \<open>An instance\<close>

text \<open>An SDK that takes string and integer arguments as they come, and the tools behind it.\<close>

definition example_sdk :: sdk where
  "example_sdk =
     \<lparr>sd_str = (\<lambda>args k dflt. case map_of args (PStr k) of
          Some (PStr v) \<Rightarrow> Inr v | Some _ \<Rightarrow> Inl TypeError
        | None \<Rightarrow> (case dflt of Some d \<Rightarrow> Inr d | None \<Rightarrow> Inl TypeError)),
      sd_int = (\<lambda>args k dflt. case map_of args (PStr k) of
          Some (PInt v) \<Rightarrow> Inr v | Some _ \<Rightarrow> Inl TypeError
        | None \<Rightarrow> (case dflt of Some d \<Rightarrow> Inr d | None \<Rightarrow> Inl TypeError)),
      sd_template = (\<lambda>ctx. None), sd_unknown = ValueError,
      sd_result = (\<lambda>v. Wire (PStr ''result'')), sd_error = (\<lambda>e. Inr (Wire (PStr ''error''))),
      sd_other = (\<lambda>ctx. Inr (Wire PNone))\<rparr>"

definition example_dispatch :: "mock handler" where
  "example_dispatch = serve example_sdk (mock_servicenow (\<lambda>n. ''now'')) (fixtures 0) (\<lambda>ctx w. 0)"

definition tool_request :: "string \<Rightarrow> pydict \<Rightarrow> pydict \<Rightarrow> ctx" where
  "tool_request tool args extra = \<lparr>c_method = Some ''tools/call'',
     c_params = PDict ((PStr ''name'', PStr tool) # (PStr ''arguments'', PDict args) # extra),
     c_protocol_version = Some ''2026-07-28''\<rparr>"

definition raise_request :: "pydict \<Rightarrow> ctx" where
  "raise_request extra =
     tool_request ''raise_shipment_incident'' [(PStr ''shipment_id'', PStr ''SHP-1002'')] extra"

definition example_mock_state :: "mock mstate" where
  "example_mock_state = \<lparr>ms_sink = example_sink, ms_clock_reads = 0, ms_nonce_reads = 0,
     ms_world = init_mock [] []\<rparr>"

lemma example_serves: "serves_tools (\<lambda>n. ''now'') (fixtures 0) example_dispatch"
  unfolding example_dispatch_def by (rule serve_serves_tools)

lemma example_dispatch_ok: "is_ok (fst (example_dispatch ctx w))"
  by (simp add: example_dispatch_def serve_def example_sdk_def is_ok_iff split: prod.split sum.split)

end
