(* ===== verification/Rotation.thy ===== *)
theory Rotation
  imports Flow
begin

text \<open>
  \<open>docs/runbooks/rotate-request-state-key.md\<close> and the docstring of
  \<open>governance/request_state.py\<close> as a state machine: a fleet of replicas, each in a phase of
  the rotation, serves the approval flow of theory Flow while the replicas are moved, one by
  one, to the next phase. The guards are the runbook's: a phase begins on a replica when the
  one before is rolled out on all of them, and the third when one time to live has passed
  since the second was complete.
\<close>

section \<open>The fleet\<close>

record 'w fleet =
  ft_flow :: "'w flow"
  ft_phases :: "nat list"
  ft_switched :: int

text \<open>The ring replica \<open>r\<close> started with: what it loads from the variable of its phase.\<close>

definition phase_text :: "key \<Rightarrow> key \<Rightarrow> nat \<Rightarrow> string" where
  "phase_text old new p = join '','' (map b64encode (phase_ring old new p))"

definition started_with :: "key \<Rightarrow> key \<Rightarrow> 'w fleet \<Rightarrow> nat \<Rightarrow> key list \<Rightarrow> bool" where
  "started_with old new g r ring \<longleftrightarrow>
     r < length (ft_phases g) \<and> load_keys (Some (phase_text old new (ft_phases g ! r))) None = Inr ring"

definition usable_keys :: "key \<Rightarrow> key \<Rightarrow> bool" where
  "usable_keys old new \<longleftrightarrow> 32 \<le> length old \<and> 32 \<le> length new"

lemma load_phase: "usable_keys old new \<Longrightarrow> load_keys (Some (phase_text old new p)) None = Inr (phase_ring old new p)"
proof -
  assume "usable_keys old new"
  then have "list_all (\<lambda>k. MINIMUM_KEY_BYTES \<le> length k) (phase_ring old new p)"
    by (simp add: usable_keys_def phase_ring_def MINIMUM_KEY_BYTES_def)
  from load_ring_text [OF this] show ?thesis
    by (simp add: load_keys_env [of _ None] ring_text_def phase_text_def)
qed

lemma started_with_iff:
  "usable_keys old new \<Longrightarrow>
   started_with old new g r ring \<longleftrightarrow> r < length (ft_phases g) \<and> ring = phase_ring old new (ft_phases g ! r)"
  by (auto simp: started_with_def load_phase)

text \<open>Replica \<open>r\<close> may be deployed with the next phase.\<close>

definition may_deploy :: "int \<Rightarrow> 'w fleet \<Rightarrow> nat \<Rightarrow> bool" where
  "may_deploy ttl g r \<longleftrightarrow>
     r < length (ft_phases g) \<and> ft_phases g ! r < 3 \<and>
     list_all (\<lambda>q. ft_phases g ! r \<le> q) (ft_phases g) \<and>
     (ft_phases g ! r = 2 \<longrightarrow> ft_switched g + ttl < fl_time (ft_flow g))"

text \<open>\<open>ft_switched\<close> is when the last replica so far was switched to seal with the new key.\<close>

definition deploy :: "'w fleet \<Rightarrow> nat \<Rightarrow> 'w fleet" where
  "deploy g r =
     g\<lparr>ft_phases := (ft_phases g)[r := Suc (ft_phases g ! r)],
       ft_switched := (if ft_phases g ! r = 1 then fl_time (ft_flow g) else ft_switched g)\<rparr>"

inductive fleet_step ::
  "'x sealer \<Rightarrow> 'x unsealer \<Rightarrow> key \<Rightarrow> key \<Rightarrow> int \<Rightarrow> middleware \<Rightarrow> env_inputs \<Rightarrow> 'w handler
    \<Rightarrow> 'w fleet \<Rightarrow> 'w fleet \<Rightarrow> bool"
  for seal unseal old new ttl m orc call_next
where
  serve_one: "started_with old new g r ring \<Longrightarrow>
    flow_step seal unseal {ring} m orc call_next (ft_flow g) f' \<Longrightarrow>
    fleet_step seal unseal old new ttl m orc call_next g (g\<lparr>ft_flow := f'\<rparr>)"
| deploy_one: "may_deploy ttl g r \<Longrightarrow>
    fleet_step seal unseal old new ttl m orc call_next g (deploy g r)"

inductive_cases fleet_stepE [elim]: "fleet_step seal unseal old new ttl m orc call_next g g'"

inductive fleet_run ::
  "'x sealer \<Rightarrow> 'x unsealer \<Rightarrow> key \<Rightarrow> key \<Rightarrow> int \<Rightarrow> middleware \<Rightarrow> env_inputs \<Rightarrow> 'w handler
    \<Rightarrow> 'w fleet \<Rightarrow> 'w fleet \<Rightarrow> bool"
  for seal unseal old new ttl m orc call_next g
where
  run_stay: "fleet_run seal unseal old new ttl m orc call_next g g"
| run_step: "fleet_run seal unseal old new ttl m orc call_next g g' \<Longrightarrow>
    fleet_step seal unseal old new ttl m orc call_next g' g'' \<Longrightarrow>
    fleet_run seal unseal old new ttl m orc call_next g g''"

text \<open>Before the rotation: \<open>n\<close> replicas with the old key alone.\<close>

definition fleet_start :: "'w mstate \<Rightarrow> nat \<Rightarrow> 'w fleet" where
  "fleet_start st n =
     \<lparr>ft_flow = \<lparr>fl_time = 0, fl_mint = [], fl_st = st, fl_events = []\<rparr>,
      ft_phases = replicate n 0, ft_switched = 0\<rparr>"

lemma fleet_run_trans:
  assumes "fleet_run seal unseal old new ttl m orc call_next g2 g3"
    and "fleet_run seal unseal old new ttl m orc call_next g1 g2"
  shows "fleet_run seal unseal old new ttl m orc call_next g1 g3"
  using assms by (induction rule: fleet_run.induct) (auto intro: run_step)

section \<open>A fleet's flow is a flow\<close>

lemma flow_step_mono:
  assumes "flow_step seal unseal rings m orc call_next f f'" and "rings \<subseteq> rings'"
  shows "flow_step seal unseal rings' m orc call_next f f'"
  using assms(1)
proof cases
  case (wait d)
  from wait(2) show ?thesis unfolding wait(1) by (rule flow_step.wait)
next
  case (plain ring ctx token)
  from plain(2) assms(2) have "ring \<in> rings'" by blast
  from flow_step.plain [OF this plain(3,4)] show ?thesis unfolding plain(1) .
next
  case (retry ring ctx e token s)
  from retry(2) assms(2) have "ring \<in> rings'" by blast
  from this retry(3-5) show ?thesis unfolding retry(1) by (rule flow_step.retry)
qed

text \<open>The flow of a fleet, whatever its phases, is one of theory Flow over the four rings.\<close>

lemma fleet_run_flow:
  assumes "fleet_run seal unseal old new ttl m orc call_next (fleet_start st n) g"
    and keys: "usable_keys old new"
  shows "flow_reachable seal unseal (range (phase_ring old new)) m orc call_next st (ft_flow g)"
  using assms(1)
proof (induction rule: fleet_run.induct)
  case run_stay
  show ?case unfolding fleet_start_def by (simp add: flow_init)
next
  case (run_step g' g'')
  from run_step.hyps(2) show ?case
  proof cases
    case (serve_one r ring f')
    from serve_one(3) have "flow_step seal unseal (range (phase_ring old new)) m orc call_next (ft_flow g') f'"
      by (rule flow_step_mono) (use serve_one(2) in \<open>simp add: started_with_iff [OF keys]\<close>)
    from flow_next [OF run_step.IH this] show ?thesis by (simp add: serve_one(1))
  next
    case (deploy_one r)
    with run_step.IH show ?thesis by (simp add: deploy_def)
  qed
qed

section \<open>What a rotation keeps\<close>

lemma flow_step_minted:
  assumes "flow_step seal unseal {ring} m orc call_next f f'"
  shows "fl_time f \<le> fl_time f' \<and>
    (\<forall>e\<in>set (fl_mint f'). e \<in> set (fl_mint f) \<or> mi_key e = hd ring \<and> mi_time e = fl_time f)"
proof -
  have obs: "fl_time (observe ring b out f) = fl_time f \<and>
      (\<forall>e\<in>set (fl_mint (observe ring b out f)). e \<in> set (fl_mint f) \<or> mi_key e = hd ring \<and> mi_time e = fl_time f)"
    for b and out :: "(exn + response) \<times> _"
    using minted_cases [of ring b "fl_time f" "fst out"] by (auto simp: observe_def)
  from assms show ?thesis
    by cases (use obs in auto)
qed

text \<open>Adjacent phases only, and the old key is dropped only when nothing sealed under it lives.\<close>

definition adjacent :: "nat list \<Rightarrow> bool" where
  "adjacent ps \<longleftrightarrow> (\<forall>p\<in>set ps. p \<le> 3 \<and> (\<forall>q\<in>set ps. p \<le> Suc q))"

lemma adjacentD:
  "adjacent ps \<Longrightarrow> p \<in> set ps \<Longrightarrow> p \<le> 3"
  "adjacent ps \<Longrightarrow> p \<in> set ps \<Longrightarrow> q \<in> set ps \<Longrightarrow> p \<le> Suc q"
  by (simp_all add: adjacent_def)

definition covered :: "key \<Rightarrow> key \<Rightarrow> 'w fleet \<Rightarrow> mint \<Rightarrow> bool" where
  "covered old new g e \<longleftrightarrow>
     mi_time e \<le> fl_time (ft_flow g) \<and>
     (mi_key e = new \<and> 0 \<notin> set (ft_phases g) \<or>
      mi_key e = old \<and> ((\<exists>p\<in>set (ft_phases g). p \<le> 1) \<or> mi_time e \<le> ft_switched g))"

definition fleet_inv :: "key \<Rightarrow> key \<Rightarrow> int \<Rightarrow> 'w fleet \<Rightarrow> bool" where
  "fleet_inv old new ttl g \<longleftrightarrow>
     adjacent (ft_phases g) \<and>
     (3 \<in> set (ft_phases g) \<longrightarrow> ft_switched g + ttl < fl_time (ft_flow g)) \<and>
     (\<forall>e\<in>set (fl_mint (ft_flow g)). covered old new g e)"

lemma fleet_invI [intro]:
  "adjacent (ft_phases g) \<Longrightarrow>
   (3 \<in> set (ft_phases g) \<Longrightarrow> ft_switched g + ttl < fl_time (ft_flow g)) \<Longrightarrow>
   (\<And>e. e \<in> set (fl_mint (ft_flow g)) \<Longrightarrow> covered old new g e) \<Longrightarrow> fleet_inv old new ttl g"
  by (simp add: fleet_inv_def)

lemma fleet_invD:
  assumes "fleet_inv old new ttl g"
  shows "adjacent (ft_phases g)"
    and "3 \<in> set (ft_phases g) \<Longrightarrow> ft_switched g + ttl < fl_time (ft_flow g)"
    and "e \<in> set (fl_mint (ft_flow g)) \<Longrightarrow> covered old new g e"
  using assms by (simp_all add: fleet_inv_def)

lemma adjacent_deploy:
  assumes "adjacent ps" and "r < length ps" and "ps ! r < 3" and "list_all (\<lambda>q. ps ! r \<le> q) ps"
  shows "adjacent (ps[r := Suc (ps ! r)])"
proof -
  have near: "p \<le> Suc (ps ! r) \<and> ps ! r \<le> p" if "p \<in> set ps" for p
    using adjacentD(2) [OF assms(1) that nth_mem [OF assms(2)]] assms(4) that
    by (simp add: list_all_iff)
  have mem: "p = Suc (ps ! r) \<or> p \<in> set ps" if "p \<in> set (ps[r := Suc (ps ! r)])" for p
    using subsetD [OF set_update_subset_insert that] by simp
  have "p \<le> 3 \<and> p \<le> Suc q"
    if "p \<in> set (ps[r := Suc (ps ! r)])" and "q \<in> set (ps[r := Suc (ps ! r)])" for p q
  proof -
    have "p \<le> 3" using mem [OF that(1)] adjacentD(1) [OF assms(1)] assms(3) by auto
    moreover have "p \<le> Suc q"
    proof (cases "p \<in> set ps \<and> q \<in> set ps")
      case True
      with adjacentD(2) [OF assms(1)] show ?thesis by blast
    next
      case False
      with mem [OF that(1)] mem [OF that(2)] near [of p] near [of q] show ?thesis by linarith
    qed
    ultimately show ?thesis ..
  qed
  then show ?thesis by (simp add: adjacent_def)
qed

lemma hd_phase_ring: "hd (phase_ring old new p) = (if p \<le> 1 then old else new)"
  by (simp add: phase_ring_def)

lemma sealed_key_covered:
  assumes "adjacent (ft_phases g)" and "r < length (ft_phases g)"
    and "mi_key e = hd (phase_ring old new (ft_phases g ! r))" and "mi_time e \<le> fl_time (ft_flow g)"
  shows "covered old new g e"
proof (cases "ft_phases g ! r \<le> 1")
  case True
  then have "\<exists>p\<in>set (ft_phases g). p \<le> 1" using nth_mem [OF assms(2)] by blast
  with True assms show ?thesis by (simp add: covered_def hd_phase_ring)
next
  case False
  moreover have "ft_phases g ! r \<le> Suc p" if "p \<in> set (ft_phases g)" for p
    using adjacentD(2) [OF assms(1) nth_mem [OF assms(2)] that] .
  ultimately have "0 \<notin> set (ft_phases g)" by fastforce
  with False assms show ?thesis by (simp add: covered_def hd_phase_ring)
qed

lemma serve_keeps_inv:
  assumes inv: "fleet_inv old new ttl g" and r: "r < length (ft_phases g)"
    and step: "flow_step seal unseal {phase_ring old new (ft_phases g ! r)} m orc call_next (ft_flow g) f'"
  shows "fleet_inv old new ttl (g\<lparr>ft_flow := f'\<rparr>)"
proof
  let ?g = "g\<lparr>ft_flow := f'\<rparr>"
  note minted = flow_step_minted [OF step]
  show "adjacent (ft_phases ?g)" using fleet_invD(1) [OF inv] by simp
  show "ft_switched ?g + ttl < fl_time (ft_flow ?g)" if "3 \<in> set (ft_phases ?g)"
    using fleet_invD(2) [OF inv] that minted by simp
  have now: "fl_time (ft_flow g) \<le> fl_time f'" using minted by blast
  fix e assume "e \<in> set (fl_mint (ft_flow ?g))"
  with minted consider "e \<in> set (fl_mint (ft_flow g))"
    | "mi_key e = hd (phase_ring old new (ft_phases g ! r))" "mi_time e = fl_time (ft_flow g)" by auto
  then show "covered old new ?g e"
  proof cases
    case 1
    from fleet_invD(3) [OF inv 1] minted show ?thesis by (auto simp: covered_def)
  next
    case 2
    with now fleet_invD(1) [OF inv] r show ?thesis
      by (intro sealed_key_covered [of ?g r]) simp_all
  qed
qed

lemma deploy_covered:
  assumes cov: "covered old new g e" and "may_deploy ttl g r"
  shows "covered old new (deploy g r) e"
proof -
  let ?ps = "ft_phases g" and ?p = "ft_phases g ! r"
  have r: "r < length ?ps" and low: "\<And>q. q \<in> set ?ps \<Longrightarrow> ?p \<le> q"
    using assms(2) by (auto simp: may_deploy_def list_all_iff)
  have sub: "set (?ps[r := Suc ?p]) \<subseteq> insert (Suc ?p) (set ?ps)" by (rule set_update_subset_insert)
  have Suc_in: "Suc ?p \<in> set (?ps[r := Suc ?p])" using r by (simp add: set_update_memI)
  have before: "mi_time e \<le> fl_time (ft_flow g)" using cov by (simp add: covered_def)
  from cov consider "mi_key e = new" "0 \<notin> set ?ps" | "mi_key e = old" "?p = 0"
    | "mi_key e = old" "?p = 1" | "mi_key e = old" "1 < ?p" "\<exists>q\<in>set ?ps. q \<le> 1"
    | "mi_key e = old" "1 < ?p" "mi_time e \<le> ft_switched g"
    unfolding covered_def by linarith
  then show ?thesis
  proof cases
    case 1
    then have "0 \<notin> set (?ps[r := Suc ?p])" using sub by auto
    with 1 before show ?thesis by (simp add: covered_def deploy_def)
  next
    case 2
    with Suc_in have "\<exists>q\<in>set (?ps[r := Suc ?p]). q \<le> 1" by auto
    with 2 before show ?thesis by (simp add: covered_def deploy_def)
  next
    case 3
    with before show ?thesis by (simp add: covered_def deploy_def)
  next
    case 4
    with low show ?thesis by fastforce
  next
    case 5
    with before show ?thesis by (simp add: covered_def deploy_def)
  qed
qed

lemma deploy_keeps_inv:
  assumes inv: "fleet_inv old new ttl g" and may: "may_deploy ttl g r"
  shows "fleet_inv old new ttl (deploy g r)"
proof
  let ?ps = "ft_phases g" and ?p = "ft_phases g ! r"
  have r: "r < length ?ps" "?p < 3" "list_all (\<lambda>q. ?p \<le> q) ?ps"
    using may by (simp_all add: may_deploy_def)
  show "adjacent (ft_phases (deploy g r))"
    using adjacent_deploy [OF fleet_invD(1) [OF inv] r] by (simp add: deploy_def)
  show "covered old new (deploy g r) e" if "e \<in> set (fl_mint (ft_flow (deploy g r)))" for e
    using deploy_covered [OF fleet_invD(3) [OF inv] may] that by (simp add: deploy_def)
  assume "3 \<in> set (ft_phases (deploy g r))"
  then consider "?p = 2" | "3 \<in> set ?ps"
    using set_update_subset_insert [of ?ps r "Suc ?p"] by (fastforce simp: deploy_def)
  then show "ft_switched (deploy g r) + ttl < fl_time (ft_flow (deploy g r))"
  proof cases
    case 1
    with may show ?thesis by (simp add: deploy_def may_deploy_def)
  next
    case 2
    have "3 \<le> Suc ?p" using adjacentD(2) [OF fleet_invD(1) [OF inv] 2 nth_mem [OF r(1)]] .
    with fleet_invD(2) [OF inv 2] show ?thesis by (simp add: deploy_def)
  qed
qed

lemma fleet_step_inv:
  assumes "fleet_step seal unseal old new ttl m orc call_next g g'" and "usable_keys old new"
    and "fleet_inv old new ttl g"
  shows "fleet_inv old new ttl g'"
  using assms(1,3) by cases (auto simp: started_with_iff [OF assms(2)] intro: serve_keeps_inv deploy_keeps_inv)

lemma fleet_run_inv:
  assumes "fleet_run seal unseal old new ttl m orc call_next (fleet_start st n) g" and "usable_keys old new"
  shows "fleet_inv old new ttl g"
  using assms(1)
proof (induction rule: fleet_run.induct)
  case run_stay
  show ?case by (auto simp: fleet_inv_def fleet_start_def adjacent_def split: if_splits)
next
  case (run_step g' g'')
  from fleet_step_inv [OF run_step.hyps(2) assms(2) run_step.IH] show ?case .
qed

text \<open>The invariant at work: the key of a state that has not expired is in every ring.\<close>

lemma live_key_everywhere:
  assumes inv: "fleet_inv old new ttl g" and e: "e \<in> set (fl_mint (ft_flow g))"
    and live: "fl_time (ft_flow g) \<le> mi_time e + ttl" and r: "r < length (ft_phases g)"
  shows "mi_key e \<in> set (phase_ring old new (ft_phases g ! r))"
proof -
  have p: "ft_phases g ! r \<in> set (ft_phases g)" using r by simp
  from fleet_invD(3) [OF inv e] consider "mi_key e = new" "0 \<notin> set (ft_phases g)"
    | "mi_key e = old" "\<exists>p\<in>set (ft_phases g). p \<le> 1"
    | "mi_key e = old" "mi_time e \<le> ft_switched g"
    unfolding covered_def by blast
  then show ?thesis
  proof cases
    case 1
    with p show ?thesis by (auto simp: phase_ring_def)
  next
    case 2
    then obtain q where "q \<in> set (ft_phases g)" "q \<le> 1" by blast
    moreover from this(1) p have "ft_phases g ! r \<le> Suc q"
      using adjacentD(2) [OF fleet_invD(1) [OF inv]] by blast
    ultimately have "ft_phases g ! r \<le> 2" by simp
    with 2 show ?thesis by (auto simp: phase_ring_def)
  next
    case 3
    with live fleet_invD(2) [OF inv] have "3 \<notin> set (ft_phases g)" by auto
    then have "ft_phases g ! r \<noteq> 3" using p by auto
    moreover have "ft_phases g ! r \<le> 3" using adjacentD(1) [OF fleet_invD(1) [OF inv] p] .
    ultimately have "ft_phases g ! r \<le> 2" by simp
    with 3 show ?thesis by (auto simp: phase_ring_def)
  qed
qed

section \<open>A rotation can be finished\<close>

lemma wait_run:
  assumes "started_with old new g r ring" and "0 \<le> d"
  shows "fleet_run seal unseal old new ttl m orc call_next g
    (g\<lparr>ft_flow := (ft_flow g)\<lparr>fl_time := fl_time (ft_flow g) + d\<rparr>\<rparr>)"
  by (rule run_step [OF run_stay serve_one [OF assms(1) wait [OF assms(2)]]])

text \<open>What is left to deploy.\<close>

definition left_to_deploy :: "nat list \<Rightarrow> nat" where
  "left_to_deploy ps = sum_list (map (\<lambda>p. 3 - p) ps)"

lemma left_to_deploy_less:
  assumes "r < length ps" and "ps ! r < 3"
  shows "left_to_deploy (ps[r := Suc (ps ! r)]) < left_to_deploy ps"
proof -
  let ?xs = "map (\<lambda>p. 3 - p) ps"
  have "3 - ps ! r \<le> sum_list ?xs" using member_le_sum_list [of "3 - ps ! r" ?xs] assms(1) by auto
  moreover have "sum_list (?xs[r := 3 - Suc (ps ! r)]) = sum_list ?xs + (3 - Suc (ps ! r)) - ?xs ! r"
    using assms(1) by (intro sum_list_update) simp
  ultimately show ?thesis
    using assms by (simp add: left_to_deploy_def map_update)
qed

lemma lowest_replica:
  fixes ps :: "nat list"
  assumes "ps \<noteq> []"
  obtains r where "r < length ps" "list_all (\<lambda>q. ps ! r \<le> q) ps"
proof -
  have "Min (set ps) \<in> set ps" using assms by simp
  then obtain r where "r < length ps" "ps ! r = Min (set ps)" by (auto simp: in_set_conv_nth)
  then show thesis using that by (simp add: list_all_iff)
qed

lemma run_to_deploy:
  assumes "usable_keys old new" and "r < length (ft_phases g)" and "ft_phases g ! r < 3"
    and "list_all (\<lambda>q. ft_phases g ! r \<le> q) (ft_phases g)"
  obtains g' where "fleet_run seal unseal old new ttl m orc call_next g g'"
    and "ft_phases g' = (ft_phases g)[r := Suc (ft_phases g ! r)]"
proof -
  define d where "d = max 0 (ft_switched g + ttl + 1 - fl_time (ft_flow g))"
  let ?g = "g\<lparr>ft_flow := (ft_flow g)\<lparr>fl_time := fl_time (ft_flow g) + d\<rparr>\<rparr>"
  have "started_with old new g r (phase_ring old new (ft_phases g ! r))"
    using assms(1,2) by (simp add: started_with_iff)
  then have "fleet_run seal unseal old new ttl m orc call_next g ?g" by (rule wait_run) (simp add: d_def)
  moreover have "ft_switched g + ttl < fl_time (ft_flow g) + d" by (simp add: d_def max_def)
  then have "may_deploy ttl ?g r" using assms(2-4) by (simp add: may_deploy_def)
  ultimately have "fleet_run seal unseal old new ttl m orc call_next g (deploy ?g r)"
    by (rule run_step [OF _ deploy_one])
  with that show thesis by (simp add: deploy_def)
qed

lemma fleet_can_finish:
  assumes "usable_keys old new" and "\<forall>p\<in>set (ft_phases g). p \<le> 3"
  shows "\<exists>g'. fleet_run seal unseal old new ttl m orc call_next g g' \<and>
    ft_phases g' = replicate (length (ft_phases g)) 3"
  using assms(2)
proof (induction "left_to_deploy (ft_phases g)" arbitrary: g rule: less_induct)
  case less
  let ?ps = "ft_phases g"
  show ?case
  proof (cases "?ps = replicate (length ?ps) 3")
    case True
    then show ?thesis by (intro exI [of _ g]) (simp add: run_stay)
  next
    case False
    then obtain p where p: "p \<in> set ?ps" "p \<noteq> 3" by (metis replicate_length_same)
    then obtain r where r: "r < length ?ps" "list_all (\<lambda>q. ?ps ! r \<le> q) ?ps"
      using lowest_replica [of ?ps] by (metis list.set_cases list.distinct(1))
    have "?ps ! r < 3" using p r(2) less.prems by (force simp: list_all_iff)
    from run_to_deploy [OF assms(1) r(1) this r(2)] obtain g' where
      g': "fleet_run seal unseal old new ttl m orc call_next g g'" "ft_phases g' = ?ps[r := Suc (?ps ! r)]" by blast
    have "left_to_deploy (ft_phases g') < left_to_deploy ?ps"
      using left_to_deploy_less [OF r(1) \<open>?ps ! r < 3\<close>] g'(2) by simp
    moreover have "\<forall>p\<in>set (ft_phases g'). p \<le> 3"
    proof
      fix q assume "q \<in> set (ft_phases g')"
      then have "q \<in> insert (Suc (?ps ! r)) (set ?ps)"
        using subsetD [OF set_update_subset_insert] g'(2) by metis
      with less.prems \<open>?ps ! r < 3\<close> show "q \<le> 3" by auto
    qed
    ultimately obtain g'' where "fleet_run seal unseal old new ttl m orc call_next g' g''"
      and "ft_phases g'' = replicate (length (ft_phases g')) 3" using less.hyps by blast
    with g' show ?thesis using fleet_run_trans by (metis length_list_update)
  qed
qed

lemma fleet_run_length:
  "fleet_run seal unseal old new ttl m orc call_next g g' \<Longrightarrow> length (ft_phases g') = length (ft_phases g)"
proof (induction rule: fleet_run.induct)
  case (run_step g' g'')
  from run_step.hyps(2) run_step.IH show ?case by cases (simp_all add: deploy_def)
qed simp

text \<open>The two mistakes the runbook warns of: a replica that drops the old key while a state
  sealed under it is alive rejects it, and so does one that never got the new key.\<close>

lemma early_drop_loses:
  assumes "boundary_contract seal unseal ttl" and "old \<noteq> new" and "i \<le> 1"
  shows "unseal (phase_ring old new 3) b now (seal (hd (phase_ring old new i)) b t s) = None"
    and "unseal (phase_ring old new 0) b now (seal (hd (phase_ring old new 2)) b t s) = None"
  using assms by (auto simp: boundary_contract_def phase_ring_def not_Some_eq [symmetric] simp del: not_Some_eq)

section \<open>A rotation in the small\<close>

definition rot_old :: key where "rot_old = replicate 32 1"
definition rot_new :: key where "rot_new = replicate 32 2"

lemma rot_keys: "usable_keys rot_old rot_new" "rot_old \<noteq> rot_new"
  by (simp_all add: usable_keys_def rot_old_def rot_new_def numeral_eq_Suc)

abbreviation "rot_run \<equiv> fleet_run toy_seal toy_unseal rot_old rot_new 600 (gate_mw True) gate_env count_handler"

text \<open>Two replicas; one asks in phase zero, and then one of them is brought to phase two.\<close>

definition rot_asked :: "nat fleet" where
  "rot_asked = (fleet_start gate_state 2)\<lparr>ft_flow :=
     observe [rot_old] (binding_of (gate_token ''operator'') flow_ask)
       (handle (gate_mw True) gate_env (gate_token ''operator'') flow_ask count_handler gate_state) flow_start\<rparr>"

definition rot_midway :: "nat fleet" where
  "rot_midway = deploy (deploy (deploy rot_asked 0) 1) 0"

abbreviation "rot_question \<equiv> \<lparr>mi_key = rot_old, mi_binding = binding_of (gate_token ''operator'') flow_ask,
  mi_time = 0, mi_state = ''awaiting-approval:raise:n0''\<rparr>"

lemma rot_asked_mint: "fl_mint (ft_flow rot_asked) = [rot_question]"
  by code_simp

lemma rot_phases: "ft_phases rot_midway = [2, 1]" "ft_phases rot_asked = [0, 0]"
  by (simp_all add: rot_midway_def rot_asked_def deploy_def fleet_start_def numeral_2_eq_2)

lemma rot_midway_flow: "ft_flow rot_midway = ft_flow rot_asked"
  by (simp add: rot_midway_def deploy_def)

lemma rot_asked_run: "rot_run (fleet_start gate_state 2) rot_asked"
  unfolding rot_asked_def
proof (rule run_step [OF run_stay serve_one])
  show "started_with rot_old rot_new (fleet_start gate_state 2) 0 [rot_old]"
    by (simp add: started_with_iff [OF rot_keys(1)] fleet_start_def phase_ring_def)
  have "ft_flow (fleet_start gate_state 2) = flow_start" "fl_st flow_start = gate_state"
    by (simp_all add: fleet_start_def flow_start_def)
  then show "flow_step toy_seal toy_unseal {[rot_old]} (gate_mw True) gate_env count_handler
      (ft_flow (fleet_start gate_state 2))
      (observe [rot_old] (binding_of (gate_token ''operator'') flow_ask)
        (handle (gate_mw True) gate_env (gate_token ''operator'') flow_ask count_handler gate_state) flow_start)"
    using plain [of "[rot_old]" "{[rot_old]}" flow_ask toy_seal toy_unseal "gate_mw True" gate_env
        count_handler flow_start "gate_token ''operator''"] flow_call_facts(1,3) by simp
qed

lemma rot_midway_run: "rot_run (fleet_start gate_state 2) rot_midway"
proof -
  have "may_deploy 600 rot_asked 0" "may_deploy 600 (deploy rot_asked 0) 1"
    "may_deploy 600 (deploy (deploy rot_asked 0) 1) 0"
    using rot_phases(2) by (simp_all add: may_deploy_def deploy_def)
  then show ?thesis
    unfolding rot_midway_def by (blast intro: run_step deploy_one rot_asked_run)
qed

section \<open>Properties\<close>

text \<open>C9: a rotation loses no approval: in every run of a fleet that is moved through the phases
  of the runbook, one replica at a time and while it serves, a state that this layer minted
  and that has not expired unseals on every replica, whatever phase that replica is in, and
  with the human's yes the retry returns what the handler returns.\<close>

theorem rotation_keeps_approvals:
  assumes "fleet_run seal unseal old new ttl m orc call_next (fleet_start st0 n) g"
    and "usable_keys old new" and "boundary_contract seal unseal ttl" and "mw_enforce m"
    and "e \<in> set (fl_mint (ft_flow g))" and "fl_time (ft_flow g) \<le> mi_time e + ttl"
    and "prefix pending_prefix (mi_state e)"
    and "started_with old new g r ring"
    and "c_method ctx = Some ''tools/call''" and "wire_call ctx" and "binding_of token ctx = mi_binding e"
    and "d_allowed (call_decision m token ctx)"
    and "check (PStr (mi_state e)) (answers_of (params_of ctx)) = Inr ()"
  shows "unseal ring (binding_of token ctx) (fl_time (ft_flow g))
      (seal (mi_key e) (mi_binding e) (mi_time e) (mi_state e)) = Some (mi_state e) \<and>
    fst (handle m orc token (deliver ctx (mi_state e)) call_next st) =
      fst (call_next (deliver ctx (mi_state e)) (ms_world st)) \<and>
    ms_world (snd (handle m orc token (deliver ctx (mi_state e)) call_next st)) =
      snd (call_next (deliver ctx (mi_state e)) (ms_world st))"
proof -
  note inv = fleet_run_inv [OF assms(1,2)]
  have "mi_key e \<in> set ring"
    using live_key_everywhere [OF inv assms(5,6)] assms(8) by (simp add: started_with_iff [OF assms(2)])
  moreover have "mi_time e \<le> fl_time (ft_flow g)"
    using fleet_invD(3) [OF inv assms(5)] by (simp add: covered_def)
  moreover have "gate_verdict m token (deliver ctx (mi_state e)) = Runs"
    using assms(12,7,13) by (rule approved_verdict)
  ultimately show ?thesis
    using approved_runs [OF assms(4,9,10)] assms(3,6,11) by (simp add: boundary_contract_def)
qed

theorem rotation_keeps_approvals_witness:
  "toy_unseal [rot_new, rot_old] (binding_of (gate_token ''operator'') flow_retry) 0
      (toy_seal rot_old (binding_of (gate_token ''operator'') flow_ask) 0 ''awaiting-approval:raise:n0'') =
    Some ''awaiting-approval:raise:n0'' \<and>
   ms_world (snd (handle (gate_mw True) gate_env (gate_token ''operator'')
     (deliver flow_retry ''awaiting-approval:raise:n0'') count_handler gate_state)) = 1"
proof -
  have now: "fl_time (ft_flow rot_midway) = 0"
    by (simp add: rot_midway_flow rot_asked_def observe_def flow_start_def)
  have call: "wire_call flow_retry" "d_allowed (call_decision (gate_mw True) (gate_token ''operator'') flow_retry)"
    "check (PStr (mi_state rot_question)) (answers_of (params_of flow_retry)) = Inr ()"
    "prefix pending_prefix (mi_state rot_question)"
    by code_simp+
  have mint: "rot_question \<in> set (fl_mint (ft_flow rot_midway))"
    by (simp add: rot_midway_flow rot_asked_mint)
  have live: "fl_time (ft_flow rot_midway) \<le> mi_time rot_question + 600" by (simp add: now)
  have enf: "mw_enforce (gate_mw True)" by simp
  have bind: "binding_of (gate_token ''operator'') flow_retry = mi_binding rot_question"
    by (simp add: flow_bindings)
  have "started_with rot_old rot_new rot_midway 0 [rot_new, rot_old]"
    by (simp add: started_with_iff [OF rot_keys(1)] rot_phases phase_ring_def)
  from rotation_keeps_approvals [OF rot_midway_run rot_keys(1) toy_boundary enf mint live call(4) this
      flow_call_facts(2) call(1) bind call(2,3), of gate_state]
  show ?thesis by (simp add: now count_handler_def gate_state_def)
qed

text \<open>A rotation can always be finished: from every state a run has reached, whatever was
  served meanwhile and however far each replica is, the guards of the runbook let the fleet
  reach the state in which every replica runs on the new key alone.\<close>

lemma rotation_can_finish:
  assumes "fleet_run seal unseal old new ttl m orc call_next (fleet_start st0 n) g"
    and "usable_keys old new"
  shows "\<exists>g'. fleet_run seal unseal old new ttl m orc call_next g g' \<and> length (ft_phases g') = n \<and>
    (\<forall>r<n. started_with old new g' r [new])"
proof -
  have "length (ft_phases g) = n" using fleet_run_length [OF assms(1)] by (simp add: fleet_start_def)
  moreover have "\<forall>p\<in>set (ft_phases g). p \<le> 3"
    using adjacentD(1) [OF fleet_invD(1) [OF fleet_run_inv [OF assms]]] by blast
  ultimately obtain g' where "fleet_run seal unseal old new ttl m orc call_next g g'"
    and "ft_phases g' = replicate n 3"
    using fleet_can_finish [OF assms(2), of g] by metis
  then show ?thesis
    by (intro exI [of _ g']) (simp add: started_with_iff [OF assms(2)] phase_ring_def)
qed

end
