(* ===== verification/AuditFlow.thy ===== *)
theory AuditFlow
  imports Session
begin

text \<open>
  What the audit log can depend on. Two sessions that differ in the values of the arguments,
  in the claims that are neither roles nor the principal, in the handlers, in the world the
  handlers act on and in the nonces leave the same log: the log is a function of the view of
  each request defined here, of the clock and of the policy.
\<close>

section \<open>The view\<close>

record audit_view =
  av_method :: "string option"
  av_version :: "string option"
  av_principal :: string
  av_roles :: "string list"
  av_tool :: string
  av_uri :: string
  av_argument_names :: "pyval list option"
  av_answered :: bool
  av_check :: "exn + unit"

definition audit_view_of :: "'t request \<Rightarrow> audit_view" where
  "audit_view_of req =
     (case req of (token, ctx) \<Rightarrow>
        \<lparr>av_method = c_method ctx, av_version = c_protocol_version ctx,
         av_principal = describe_principal token, av_roles = roles_from_token token,
         av_tool = py_str (dict_get_or (params_of ctx) ''name'' (PStr [])),
         av_uri = py_str (dict_get_or (params_of ctx) ''uri'' (PStr [])),
         av_argument_names = map_option (map fst) (as_mapping (dict_get (params_of ctx) ''arguments'')),
         av_answered = truthy (answers_of (params_of ctx)),
         av_check = check (state_of (params_of ctx)) (answers_of (params_of ctx))\<rparr>)"

lemma audit_view_eq:
  "audit_view_of (token, ctx) = audit_view_of (token', ctx') \<longleftrightarrow>
     c_method ctx = c_method ctx' \<and> c_protocol_version ctx = c_protocol_version ctx' \<and>
     describe_principal token = describe_principal token' \<and> roles_from_token token = roles_from_token token' \<and>
     py_str (dict_get_or (params_of ctx) ''name'' (PStr [])) = py_str (dict_get_or (params_of ctx') ''name'' (PStr [])) \<and>
     py_str (dict_get_or (params_of ctx) ''uri'' (PStr [])) = py_str (dict_get_or (params_of ctx') ''uri'' (PStr [])) \<and>
     map_option (map fst) (as_mapping (dict_get (params_of ctx) ''arguments'')) =
       map_option (map fst) (as_mapping (dict_get (params_of ctx') ''arguments'')) \<and>
     truthy (answers_of (params_of ctx)) = truthy (answers_of (params_of ctx')) \<and>
     check (state_of (params_of ctx)) (answers_of (params_of ctx)) =
       check (state_of (params_of ctx')) (answers_of (params_of ctx'))"
  by (simp add: audit_view_of_def)

section \<open>Unwinding\<close>

text \<open>Equal as far as the log goes: the sink, and how often the clock was read.\<close>

definition same_log :: "'w mstate \<Rightarrow> 'v mstate \<Rightarrow> bool" where
  "same_log st st' \<longleftrightarrow> ms_sink st = ms_sink st' \<and> ms_clock_reads st = ms_clock_reads st'"

lemma same_log_updates [simp]:
  "same_log (st\<lparr>ms_world := w\<rparr>) st' \<longleftrightarrow> same_log st st'"
  "same_log st (st'\<lparr>ms_world := w'\<rparr>) \<longleftrightarrow> same_log st st'"
  "same_log (st\<lparr>ms_nonce_reads := n\<rparr>) st' \<longleftrightarrow> same_log st st'"
  "same_log st (st'\<lparr>ms_nonce_reads := n\<rparr>) \<longleftrightarrow> same_log st st'"
  by (simp_all add: same_log_def)

text \<open>Two steps agree: both go on or both stop, and the logs they leave are the same.\<close>

definition agree :: "('e + 'a) \<times> 'w mstate \<Rightarrow> ('f + 'b) \<times> 'v mstate \<Rightarrow> bool" where
  "agree x y \<longleftrightarrow> is_ok (fst x) = is_ok (fst y) \<and> same_log (snd x) (snd y)"

lemma agree_log: "agree x y \<Longrightarrow> same_log (snd x) (snd y)"
  by (simp add: agree_def)

lemma bindS_log:
  assumes "agree x y"
    and "\<And>a b s s'. fst x = Inr a \<Longrightarrow> fst y = Inr b \<Longrightarrow> same_log s s' \<Longrightarrow> same_log (snd (f a s)) (snd (g b s'))"
  shows "same_log (snd (bindS x f)) (snd (bindS y g))"
proof -
  obtain r s r' s' where xy: "x = (r, s)" "y = (r', s')" by (cases x, cases y) auto
  from assms show ?thesis
    unfolding xy by (cases r; cases r') (simp_all add: agree_def is_ok_def)
qed

lemma liftS_agree: "same_log st st' \<Longrightarrow> agree (liftS r st) (liftS r st')"
  by (simp add: agree_def liftS_def)

lemma audit_event_names:
  "map_option (map fst) args = map_option (map fst) args' \<Longrightarrow>
   audit_event now who verb d args ver outcome = audit_event now who verb d args' ver outcome"
  by (cases args; cases args') (simp_all add: audit_event_def RECORD_ARGUMENT_VALUES_def)

lemma audit_agree:
  assumes "same_log st st'" and "clock orc = clock orc'"
    and "map_option (map fst) args = map_option (map fst) args'"
  shows "agree (audit orc who verb d args ver outcome st) (audit orc' who verb d args' ver outcome st')"
  using assms audit_event_names [OF assms(3)]
  by (simp add: audit_def audit_record_def agree_def same_log_def split_beta)

lemma audit_approval_agree:
  "same_log st st' \<Longrightarrow> clock orc = clock orc' \<Longrightarrow>
   agree (audit_approval m orc tool who outcome reason st) (audit_approval m orc' tool who outcome reason st')"
  by (simp add: audit_approval_def audit_agree)

lemma sort_agree:
  assumes "str_keyed args" and "str_keyed args'" and "same_log st st'"
  shows "agree (liftS (sorted_by fst args) st) (liftS (sorted_by fst args') st')"
  using sorted_by_str_keys [OF assms(1)] sorted_by_str_keys [OF assms(2)] assms(3)
  by (simp add: agree_def liftS_def)

lemma ask_log:
  assumes "same_log st st'" and "clock orc = clock orc'" and "str_keyed args" and "str_keyed args'"
  shows "same_log (snd (ask_for_approval m orc tool who args st)) (snd (ask_for_approval m orc' tool who args' st'))"
  unfolding ask_for_approval_def
  by (intro bindS_log sort_agree audit_approval_agree assms) simp_all

section \<open>One request\<close>

lemma check_log:
  assumes "same_log st st'" and "clock orc = clock orc'"
    and "wire_args (as_mapping arguments)" and "wire_args (as_mapping arguments')"
    and "truthy (answers_of params) = truthy (answers_of params')"
    and "check (state_of params) (answers_of params) = check (state_of params') (answers_of params')"
  shows "same_log (snd (check_approval m orc params tool who arguments st))
    (snd (check_approval m orc' params' tool who arguments' st'))"
proof (cases "truthy (answers_of params')")
  case True
  with assms(1,2,5,6) show ?thesis
    by (cases "check (state_of params') (answers_of params')")
      (auto simp: check_approval_def Let_def intro!: bindS_log audit_approval_agree)
next
  case False
  obtain msg s where a: "ask_for_approval m orc tool who (mapping_or_empty arguments) st =
      (Inr (InputRequired APPROVAL_KEY msg (approval_schema tool) (new_pending_state (nonce orc (ms_nonce_reads st)) tool)), s)"
    using ask_for_approval_wire [OF assms(3)] by metis
  obtain msg' s' where a': "ask_for_approval m orc' tool who (mapping_or_empty arguments') st' =
      (Inr (InputRequired APPROVAL_KEY msg' (approval_schema tool) (new_pending_state (nonce orc' (ms_nonce_reads st')) tool)), s')"
    using ask_for_approval_wire [OF assms(4)] by metis
  have "same_log s s'"
    using ask_log [OF assms(1,2) wire_args_empty [OF assms(3)] wire_args_empty [OF assms(4)], of m tool who]
    by (simp add: a a')
  with False assms(5) show ?thesis by (simp add: check_approval_def a a')
qed

text \<open>What follows the last record never writes one.\<close>

lemma run_next_quiet_left [simp]: "same_log (snd (run_next f ctx st)) st' \<longleftrightarrow> same_log st st'"
  by (simp add: run_next_eq)

lemma run_next_quiet_right [simp]: "same_log st (snd (run_next f ctx st')) \<longleftrightarrow> same_log st st'"
  by (simp add: run_next_eq)

lemma bindS_quiet:
  fixes f :: "'a \<Rightarrow> 'w mstate \<Rightarrow> ('e + 'b) \<times> 'w mstate" and g :: "'c \<Rightarrow> 'v mstate \<Rightarrow> ('f + 'd) \<times> 'v mstate"
  assumes "same_log (snd x) (snd y)"
    and "\<And>a s (t :: 'v mstate). same_log s t \<Longrightarrow> same_log (snd (f a s)) t"
    and "\<And>a s (t :: 'w mstate). same_log t s \<Longrightarrow> same_log t (snd (g a s))"
  shows "same_log (snd (bindS x f)) (snd (bindS y g))"
proof -
  have "same_log (snd (bindS x f)) (snd y)"
    by (rule bindS_keeps [where P = "\<lambda>s. same_log s (snd y)", OF assms(1)]) (rule assms(2))
  then show ?thesis
    by (rule bindS_keeps [where P = "\<lambda>t. same_log (snd (bindS x f)) t"]) (rule assms(3))
qed

text \<open>The approval gate and what follows it.\<close>

lemma gated_log:
  assumes "same_log (snd x) (snd y)"
  shows "same_log (snd (bindS x (\<lambda>gate st. case gate of Some g \<Rightarrow> (Inr g, st) | None \<Rightarrow> run_next f ctx st)))
    (snd (bindS y (\<lambda>gate st. case gate of Some g \<Rightarrow> (Inr g, st) | None \<Rightarrow> run_next h ctx' st)))"
  by (rule bindS_quiet [OF assms]) (simp_all split: option.split)

lemma guard_tool_call_log:
  assumes "same_log st st'" and "clock orc = clock orc'"
    and "audit_view_of (token, ctx) = audit_view_of (token', ctx')"
    and "wire_call ctx" and "wire_call ctx'"
  shows "same_log (snd (guard_tool_call m orc token ctx f st)) (snd (guard_tool_call m orc' token' ctx' g st'))"
proof -
  note view = assms(3) [unfolded audit_view_eq]
  have wire: "wire_args (as_mapping (dict_get (params_of ctx) ''arguments''))"
    "wire_args (as_mapping (dict_get (params_of ctx') ''arguments''))"
    using assms(4,5) by (simp_all add: wire_call_def)
  show ?thesis
    unfolding guard_tool_call_def Let_def using view wire assms(1,2)
    by (intro bindS_log audit_agree liftS_agree) (auto intro!: gated_log check_log audit_agree liftS_agree)
qed

lemma guard_resource_read_log:
  assumes "same_log st st'" and "clock orc = clock orc'"
    and "audit_view_of (token, ctx) = audit_view_of (token', ctx')"
  shows "same_log (snd (guard_resource_read m orc token ctx f st))
    (snd (guard_resource_read m orc' token' ctx' g st'))"
  unfolding guard_resource_read_def Let_def using assms(1,2) assms(3) [unfolded audit_view_eq]
  by (auto intro!: bindS_log audit_agree liftS_agree)

lemma handle_log:
  assumes "same_log st st'" and "clock orc = clock orc'"
    and "audit_view_of (token, ctx) = audit_view_of (token', ctx')"
    and "wire_request (token, ctx)" and "wire_request (token', ctx')"
  shows "same_log (snd (handle m orc token ctx f st)) (snd (handle m orc' token' ctx' g st'))"
proof -
  have same: "c_method ctx' = c_method ctx" using assms(3) [unfolded audit_view_eq] by simp
  consider "c_method ctx = Some ''tools/call''" | "c_method ctx = Some ''resources/read''"
    | "c_method ctx \<noteq> Some ''tools/call''" "c_method ctx \<noteq> Some ''resources/read''" by blast
  then show ?thesis
  proof cases
    case 1
    with same assms(4,5) guard_tool_call_log [OF assms(1-3)] show ?thesis
      by (simp add: handle_def wire_request_def)
  next
    case 2
    with same guard_resource_read_log [OF assms(1-3)] show ?thesis by (simp add: handle_def)
  next
    case 3
    with same assms(1) show ?thesis by (simp add: handle_def filter_tool_list_eq)
  qed
qed

section \<open>Sessions\<close>

lemma run_session_log:
  assumes "list_all2 (\<lambda>req req'. audit_view_of req = audit_view_of req') reqs reqs'"
    and "list_all wire_request reqs" and "list_all wire_request reqs'"
    and "same_log st st'" and "clock orc = clock orc'"
  shows "same_log (snd (run_session m orc f reqs st)) (snd (run_session m orc' g reqs' st'))"
  using assms(1-4)
proof (induction arbitrary: st st' rule: list_all2_induct)
  case Nil
  then show ?case by simp
next
  case (Cons req reqs req' reqs')
  obtain token ctx token' ctx' where reqs: "req = (token, ctx)" "req' = (token', ctx')"
    by (cases req, cases req')
  from Cons.prems Cons.hyps(1) have "same_log (snd (handle m orc token ctx f st)) (snd (handle m orc' token' ctx' g st'))"
    by (intro handle_log assms(5)) (simp_all add: reqs)
  from Cons.IH [OF _ _ this] Cons.prems(1,2) show ?case by (simp add: reqs split_beta Let_def)
qed

section \<open>The log, line by line\<close>

text \<open>The line a decision leaves, and the lines of one request whose first is stamped with the
  \<open>n\<close>-th reading of the clock.\<close>

definition record_line ::
  "string \<Rightarrow> string \<Rightarrow> string \<Rightarrow> decision \<Rightarrow> pydict option \<Rightarrow> string option \<Rightarrow> string option \<Rightarrow> audit_line"
where
  "record_line now who verb d arguments version outcome =
     \<lparr>l_level = outcome_level d outcome,
      l_text = projr (bindE (audit_event now who verb d arguments version outcome) (\<lambda>e. json_dumps (PDict e)))\<rparr>"

definition approval_lines :: "middleware \<Rightarrow> string \<Rightarrow> 't access_token option \<Rightarrow> ctx \<Rightarrow> audit_line list" where
  "approval_lines m now token ctx =
     (let d = call_decision m token ctx; params = params_of ctx;
          line = (\<lambda>outcome reason. record_line now (describe_principal token) ''approval''
            (approval_decision m (py_str (dict_get_or params ''name'' (PStr []))) outcome reason) None None (Some outcome))
      in if \<not> d_allowed d \<or> \<not> d_requires_approval d \<or> \<not> mw_enforce m then []
         else if \<not> truthy (answers_of params) then [line ''pending'' ''awaiting human approval'']
         else (case check (state_of params) (answers_of params) of
             Inl e \<Rightarrow> [line ''deny'' (exn_text e)]
           | Inr _ \<Rightarrow> [line ''allow'' ''approved by human'']))"

definition request_lines :: "middleware \<Rightarrow> env_inputs \<Rightarrow> nat \<Rightarrow> 't request \<Rightarrow> audit_line list" where
  "request_lines m orc n req =
     (case req of (token, ctx) \<Rightarrow>
        if c_method ctx = Some ''tools/call''
        then record_line (clock orc n) (describe_principal token) ''tools/call'' (call_decision m token ctx)
               (as_mapping (dict_get (params_of ctx) ''arguments'')) (c_protocol_version ctx) None #
             approval_lines m (clock orc (Suc n)) token ctx
        else if c_method ctx = Some ''resources/read''
        then [record_line (clock orc n) (describe_principal token) ''resources/read'' (read_decision m token ctx)
               None (c_protocol_version ctx) None]
        else [])"

fun session_lines :: "middleware \<Rightarrow> env_inputs \<Rightarrow> nat \<Rightarrow> 't request list \<Rightarrow> audit_line list" where
  "session_lines m orc n [] = []"
| "session_lines m orc n (req # reqs) =
     request_lines m orc n req @ session_lines m orc (n + length (request_lines m orc n req)) reqs"

text \<open>From one state to another the log grew by exactly these lines, one reading of the clock each.\<close>

definition log_grows :: "string \<Rightarrow> audit_line list \<Rightarrow> 'w mstate \<Rightarrow> 'w mstate \<Rightarrow> bool" where
  "log_grows h lines st st' \<longleftrightarrow>
     logging h st' \<and> sk_lines (ms_sink st') = sk_lines (ms_sink st) @ map (Pair h) lines \<and>
     ms_clock_reads st' = ms_clock_reads st + length lines"

lemma log_grows_refl [simp]: "log_grows h [] st st \<longleftrightarrow> logging h st"
  by (simp add: log_grows_def)

lemma log_grows_trans:
  "log_grows h xs st st1 \<Longrightarrow> log_grows h ys st1 st2 \<Longrightarrow> log_grows h (xs @ ys) st st2"
  by (simp add: log_grows_def)

lemma log_grows_quiet [simp]:
  "log_grows h xs st (st'\<lparr>ms_world := w\<rparr>) \<longleftrightarrow> log_grows h xs st st'"
  "log_grows h xs st (st'\<lparr>ms_nonce_reads := n\<rparr>) \<longleftrightarrow> log_grows h xs st st'"
  "log_grows h xs st (snd (run_next f ctx st')) \<longleftrightarrow> log_grows h xs st st'"
  by (simp_all add: log_grows_def run_next_eq)

lemma audit_grows:
  assumes "wire_args args" and "logging h st"
  obtains st' where "audit orc who verb d args ver outcome st = (Inr (), st')"
    and "log_grows h [record_line (clock orc (ms_clock_reads st)) who verb d args ver outcome] st st'"
proof -
  let ?now = "clock orc (ms_clock_reads st)"
  obtain event where event: "audit_event ?now who verb d args ver outcome = Inr event"
    and "textual (PDict event)"
    using audit_event_textual [OF assms(1)] by blast
  then obtain tx where "json_dumps (PDict event) = Inr tx"
    using textual_dumps by (fastforce simp: dumps_line_def split: sum.splits)
  with event assms(2) that show ?thesis
    by (simp add: audit_def audit_record_def record_line_def log_grows_def logging_def emit_def
        outcome_level_def less_eq_level_def)
qed

lemma audit_approval_grows:
  assumes "logging h st"
  obtains st' where "audit_approval m orc tool who outcome reason st = (Inr (), st')"
    and "log_grows h [record_line (clock orc (ms_clock_reads st)) who ''approval''
      (approval_decision m tool outcome reason) None None (Some outcome)] st st'"
  using audit_grows [of None h st orc who "''approval''" "approval_decision m tool outcome reason" None "Some outcome"]
    assms that by (auto simp: audit_approval_def wire_args_def)

text \<open>The approval gate leaves one line, whichever way it goes.\<close>

lemma check_grows:
  assumes wire: "wire_args (as_mapping arguments)" and log: "logging h st"
    and line: "\<And>outcome reason. line outcome reason = record_line (clock orc (ms_clock_reads st)) who ''approval''
      (approval_decision m tool outcome reason) None None (Some outcome)"
  shows "log_grows h
    (if \<not> truthy (answers_of params) then [line ''pending'' ''awaiting human approval'']
     else (case check (state_of params) (answers_of params) of
         Inl e \<Rightarrow> [line ''deny'' (exn_text e)] | Inr _ \<Rightarrow> [line ''allow'' ''approved by human'']))
    st (snd (check_approval m orc params tool who arguments st))"
proof (cases "truthy (answers_of params)")
  case False
  obtain items where items: "sorted_by fst (mapping_or_empty arguments) = Inr items"
    using sorted_by_str_keys [OF wire_args_empty [OF wire]] by (auto simp: is_ok_iff)
  obtain st1 where "audit_approval m orc tool who ''pending'' ''awaiting human approval'' st = (Inr (), st1)"
    and "log_grows h [line ''pending'' ''awaiting human approval''] st st1"
    using audit_approval_grows [OF log] line by metis
  with False items show ?thesis by (simp add: check_approval_def ask_for_approval_def)
next
  case True
  show ?thesis
  proof (cases "check (state_of params) (answers_of params)")
    case (Inl e)
    obtain st1 where "audit_approval m orc tool who ''deny'' (exn_text e) st = (Inr (), st1)"
      and "log_grows h [line ''deny'' (exn_text e)] st st1"
      using audit_approval_grows [OF log] line by metis
    with True Inl show ?thesis by (simp add: check_approval_def)
  next
    case (Inr u)
    obtain st1 where "audit_approval m orc tool who ''allow'' ''approved by human'' st = (Inr (), st1)"
      and "log_grows h [line ''allow'' ''approved by human''] st st1"
      using audit_approval_grows [OF log] line by metis
    with True Inr show ?thesis by (simp add: check_approval_def)
  qed
qed

lemma check_then_run_grows:
  assumes wire: "wire_call ctx" and log: "logging h st"
    and held: "d_requires_approval (call_decision m token ctx)" "mw_enforce m" "d_allowed (call_decision m token ctx)"
  shows "log_grows h (approval_lines m (clock orc (ms_clock_reads st)) token ctx) st
    (snd (check_then_run m orc token ctx f st))"
proof -
  let ?name = "py_str (dict_get_or (params_of ctx) ''name'' (PStr []))" and ?who = "describe_principal token"
  define line where "line = (\<lambda>outcome reason. record_line (clock orc (ms_clock_reads st)) ?who
    ''approval'' (approval_decision m ?name outcome reason) None None (Some outcome))"
  have "approval_lines m (clock orc (ms_clock_reads st)) token ctx =
      (if \<not> truthy (answers_of (params_of ctx)) then [line ''pending'' ''awaiting human approval'']
       else (case check (state_of (params_of ctx)) (answers_of (params_of ctx)) of
          Inl e \<Rightarrow> [line ''deny'' (exn_text e)] | Inr _ \<Rightarrow> [line ''allow'' ''approved by human'']))"
    using held by (simp add: approval_lines_def line_def Let_def split: sum.split)
  moreover have "wire_args (as_mapping (dict_get (params_of ctx) ''arguments''))" using wire by (simp add: wire_call_def)
  ultimately have "log_grows h (approval_lines m (clock orc (ms_clock_reads st)) token ctx) st
      (snd (check_call m orc token ctx st))"
    using check_grows [OF _ log, of "dict_get (params_of ctx) ''arguments''" line orc ?who m ?name "params_of ctx"]
    by (simp only: line_def)
  then show ?thesis
    by (rule bindS_keeps [where P = "log_grows h (approval_lines m (clock orc (ms_clock_reads st)) token ctx) st"])
      (simp split: option.split)
qed

lemma guard_tool_call_grows:
  assumes wire: "wire_call ctx" and log: "logging h st" and call: "c_method ctx = Some ''tools/call''"
  shows "log_grows h (request_lines m orc (ms_clock_reads st) (token, ctx)) st
    (snd (guard_tool_call m orc token ctx f st))"
proof -
  let ?d = "call_decision m token ctx" and ?args = "as_mapping (dict_get (params_of ctx) ''arguments'')"
  let ?first = "record_line (clock orc (ms_clock_reads st)) (describe_principal token) ''tools/call'' ?d ?args
    (c_protocol_version ctx) None"
  have w: "wire_args ?args" using wire by (simp add: wire_call_def)
  obtain st1 where a: "audit orc (describe_principal token) ''tools/call'' ?d ?args
      (c_protocol_version ctx) None st = (Inr (), st1)" and g: "log_grows h [?first] st st1"
    by (rule audit_grows [OF w log])
  from g have log1: "logging h st1" and reads: "ms_clock_reads st1 = Suc (ms_clock_reads st)"
    by (simp_all add: log_grows_def)
  let ?more = "approval_lines m (clock orc (Suc (ms_clock_reads st))) token ctx"
  have lines: "request_lines m orc (ms_clock_reads st) (token, ctx) = [?first] @ ?more"
    by (simp add: request_lines_def call)
  show ?thesis
  proof (cases "d_requires_approval ?d \<and> mw_enforce m \<and> d_allowed ?d")
    case True
    with check_then_run_grows [OF wire log1, of m token orc f] have "log_grows h ?more st1 (snd (check_then_run m orc token ctx f st1))"
      by (simp add: reads)
    with log_grows_trans [OF g this] True show ?thesis by (simp add: lines guard_after_audit [OF a] raise_if_denied_ok)
  next
    case False
    then have "?more = []" by (auto simp: approval_lines_def)
    with False g show ?thesis
      by (cases "raise_if_denied m ?d") (auto simp: lines guard_after_audit [OF a] raise_if_denied_def)
  qed
qed

lemma guard_resource_read_grows:
  assumes log: "logging h st" and read: "c_method ctx = Some ''resources/read''"
  shows "log_grows h (request_lines m orc (ms_clock_reads st) (token, ctx)) st
    (snd (guard_resource_read m orc token ctx f st))"
proof -
  let ?d = "read_decision m token ctx"
  have "wire_args None" by (simp add: wire_args_def)
  then obtain st1 where a: "audit orc (describe_principal token) ''resources/read'' ?d None
      (c_protocol_version ctx) None st = (Inr (), st1)"
    and g: "log_grows h [record_line (clock orc (ms_clock_reads st)) (describe_principal token) ''resources/read'' ?d
      None (c_protocol_version ctx) None] st st1"
    by (rule audit_grows [OF _ log])
  with read show ?thesis
    by (cases "raise_if_denied m ?d")
      (simp_all add: request_lines_def guard_resource_read_def read_decision_def [symmetric] Let_def)
qed

lemma handle_grows:
  assumes "wire_request (token, ctx)" and "logging h st"
  shows "log_grows h (request_lines m orc (ms_clock_reads st) (token, ctx)) st (snd (handle m orc token ctx f st))"
proof -
  consider "c_method ctx = Some ''tools/call''" | "c_method ctx = Some ''resources/read''"
    | "c_method ctx \<noteq> Some ''tools/call''" "c_method ctx \<noteq> Some ''resources/read''" by blast
  then show ?thesis
  proof cases
    case 1
    with assms guard_tool_call_grows [of ctx h st m orc token f] show ?thesis
      by (simp add: handle_def wire_request_def)
  next
    case 2
    with guard_resource_read_grows [OF assms(2) 2, of m orc token f] show ?thesis by (simp add: handle_def)
  next
    case 3
    with assms(2) show ?thesis by (simp add: handle_def filter_tool_list_eq request_lines_def)
  qed
qed

lemma run_session_grows:
  "logging h st \<Longrightarrow> list_all wire_request reqs \<Longrightarrow>
   log_grows h (session_lines m orc (ms_clock_reads st) reqs) st (snd (run_session m orc f reqs st))"
proof (induction reqs arbitrary: st)
  case Nil
  then show ?case by simp
next
  case (Cons req reqs)
  obtain token ctx where req: "req = (token, ctx)" by (cases req)
  let ?st = "snd (handle m orc token ctx f st)"
  have g: "log_grows h (request_lines m orc (ms_clock_reads st) req) st ?st"
    using handle_grows [of token ctx h st m orc f] Cons.prems by (simp add: req)
  then have "logging h ?st" and reads: "ms_clock_reads ?st =
      ms_clock_reads st + length (request_lines m orc (ms_clock_reads st) req)"
    by (simp_all add: log_grows_def)
  from log_grows_trans [OF g Cons.IH [OF this(1)]] Cons.prems(2) reads
  show ?case by (simp add: req split_beta Let_def)
qed

section \<open>Properties\<close>

text \<open>C11: the audit log discloses names and decisions only: two sessions whose requests agree, one
  by one, on the method, the principal, the roles, the tool or the URI, the argument names, the
  protocol version and the outcome of the approval check leave the same log, text for text,
  whatever the values of their arguments, the other claims of their tokens, the handlers and what
  they return or raise, the world behind them and the nonces.\<close>

theorem audit_noninterference:
  assumes "list_all2 (\<lambda>req req'. audit_view_of req = audit_view_of req') reqs reqs'"
    and "list_all wire_request reqs" and "list_all wire_request reqs'"
    and "ms_sink st = ms_sink st'" and "ms_clock_reads st = ms_clock_reads st'" and "clock orc = clock orc'"
  shows "ms_sink (snd (run_session m orc f reqs st)) = ms_sink (snd (run_session m orc' g reqs' st'))"
  using run_session_log [OF assms(1-3) _ assms(6), of st st'] assms(4,5) by (simp add: same_log_def)

definition call_with :: "string \<Rightarrow> ctx" where
  "call_with v = \<lparr>c_method = Some ''tools/call'',
     c_params = PDict [(PStr ''name'', PStr ''raise''),
       (PStr ''arguments'', PDict [(PStr ''summary'', PStr v)])], c_protocol_version = None\<rparr>"

theorem audit_noninterference_witness:
  "ms_sink (snd (run_session (gate_mw True) gate_env count_handler
      [(gate_token ''reader'', call_with ''late''), (gate_token ''operator'', call_with ''late'')] gate_state)) =
   ms_sink (snd (run_session (gate_mw True) gate_env (\<lambda>_ w. (Inl TypeError, w))
      [(gate_token ''reader'', call_with ''the customer''), (gate_token ''operator'', call_with ''is Ann'')]
      \<lparr>ms_sink = example_sink, ms_clock_reads = 0, ms_nonce_reads = 7, ms_world = [True]\<rparr>))"
proof (rule audit_noninterference)
  show "list_all2 (\<lambda>req req'. audit_view_of req = audit_view_of req')
      [(gate_token ''reader'', call_with ''late''), (gate_token ''operator'', call_with ''late'')]
      [(gate_token ''reader'', call_with ''the customer''), (gate_token ''operator'', call_with ''is Ann'')]"
    by code_simp
  show "list_all wire_request [(gate_token ''reader'', call_with ''late''), (gate_token ''operator'', call_with ''late'')]"
    and "list_all wire_request
      [(gate_token ''reader'', call_with ''the customer''), (gate_token ''operator'', call_with ''is Ann'')]"
    by code_simp+
qed (simp_all add: gate_state_def)

text \<open>C10: the audit log of a session, word for word: whatever the handlers do, the log grows by
  exactly the lines that the policy, the callers and the requests call for, in order and on its
  one stream, each stamped with the next reading of the clock: for a call the JSON of its
  decision, then that of the approval's outcome if a gate was reached; for a read the JSON of its
  decision; for anything else nothing.\<close>

theorem session_log_exact:
  assumes "logging h st" and "list_all wire_request reqs"
  shows "sk_lines (ms_sink (snd (run_session m orc f reqs st))) =
      sk_lines (ms_sink st) @ map (Pair h) (session_lines m orc (ms_clock_reads st) reqs) \<and>
    ms_clock_reads (snd (run_session m orc f reqs st)) =
      ms_clock_reads st + length (session_lines m orc (ms_clock_reads st) reqs)"
  using run_session_grows [OF assms, of m orc f] by (simp add: log_grows_def)

text \<open>A reader's read, as it stands in the log.\<close>

definition read_line :: audit_line where
  "read_line = \<lparr>l_level = INFO, l_text = ''{\"timestamp\":\"t0\",\"principal\":\"s\",\"method\":\"resources/read\",'' @
     ''\"target\":\"shipment://A\",\"outcome\":\"allow\",\"reason\":\"granted by role\",\"classification\":\"internal\",'' @
     ''\"required_roles\":[\"reader\"],\"granted_roles\":[\"reader\"],\"protocol_version\":null}''\<rparr>"

theorem session_log_exact_witness:
  "sk_lines (ms_sink (snd (run_session (gate_mw True) gate_env count_handler
     [(gate_token ''reader'', gate_read ''shipment://A'')] gate_state))) = [(''stdout'', read_line)]"
proof -
  let ?reqs = "[(gate_token ''reader'', gate_read ''shipment://A'')]"
  have "list_all wire_request ?reqs" and "sk_lines (ms_sink gate_state) = []" and "ms_clock_reads gate_state = 0"
    and "session_lines (gate_mw True) gate_env 0 ?reqs = [read_line]"
    by code_simp+
  with session_log_exact [OF gate_logging, of ?reqs "gate_mw True" gate_env count_handler] show ?thesis by simp
qed

end
