(* ===== verification/Revocation.thy ===== *)
theory Revocation
  imports Session
begin

text \<open>
  Edits of the policy document: what a decision depends on, and the withdrawal of a tool as
  \<open>docs/runbooks/revoke-access.md\<close> prescribes it, the removal of the tool's entry.
\<close>

section \<open>A decision reads one entry\<close>

lemma parse_rule_key: "py_str k = name \<Longrightarrow> parse_rule declared src sec (k, v) = parse_rule declared src sec (PStr name, v)"
  by (simp add: parse_rule_def)

text \<open>The rule under a name is the last entry of that name, parsed.\<close>

lemma parse_items_entry:
  "parse_items declared src sec items acc = Inr rs \<Longrightarrow>
   map_of rs name =
     (case last_entry items name of None \<Rightarrow> map_of acc name
      | Some v \<Rightarrow> Some (projr (parse_rule declared src sec (PStr name, v))))"
proof (induction items arbitrary: acc)
  case Nil
  then show ?case by (simp add: last_entry_def)
next
  case (Cons e items)
  obtain k v where e: "e = (k, v)" by (cases e)
  obtain r where r: "parse_rule declared src sec (k, v) = Inr r"
    and rest: "parse_items declared src sec items (dict_set (r_pattern r) r acc) = Inr rs"
    using Cons.prems by (auto simp: e result_simps)
  have "map_of (dict_set (r_pattern r) r acc) name = (if py_str k = name then Some r else map_of acc name)"
    using parse_rule_facts(1) [OF r] by (simp add: dict_simps)
  moreover have "py_str k = name \<Longrightarrow> projr (parse_rule declared src sec (PStr name, v)) = r"
    using parse_rule_key [of k name declared src sec v] r by (metis sum.sel(2))
  ultimately show ?case
    using Cons.IH [OF rest] by (auto simp: e last_entry_Cons split: option.splits)
qed

lemma parse_rules_entry:
  assumes "parse_rules (dict_get doc sec) declared src sec = Inr rs"
  shows "map_of rs name =
    map_option (\<lambda>v. projr (parse_rule declared src sec (PStr name, v))) (doc_entry doc sec name)"
proof (cases "dict_get doc sec")
  case (PDict items)
  with assms have "parse_items declared src sec items [] = Inr rs" by (simp add: parse_rules_def)
  from parse_items_entry [OF this, of name] show ?thesis
    by (simp add: doc_entry_def PDict split: option.splits)
qed (use assms in \<open>auto simp: parse_rules_def doc_entry_def\<close>)

text \<open>Documents with the same roles and the same entry for a tool decide it alike.\<close>

lemma decide_tool_local:
  assumes "from_mapping (PDict doc) src = Inr p" and "from_mapping (PDict doc') src = Inr p'"
    and "dict_get doc' ''roles'' = dict_get doc ''roles''"
    and "doc_entry doc' ''tools'' tool = doc_entry doc ''tools'' tool"
  shows "decide_tool p' tool roles = decide_tool p tool roles"
proof -
  have p: "parse_roles (dict_get doc ''roles'') src = Inr (p_declared_roles p)"
    "parse_rules (dict_get doc ''tools'') (p_declared_roles p) src ''tools'' = Inr (p_tools p)"
    by (rule from_mapping_Inr [OF assms(1)]; simp)+
  have p': "parse_roles (dict_get doc' ''roles'') src = Inr (p_declared_roles p')"
    "parse_rules (dict_get doc' ''tools'') (p_declared_roles p') src ''tools'' = Inr (p_tools p')"
    by (rule from_mapping_Inr [OF assms(2)]; simp)+
  from p(1) p'(1) assms(3) have "p_declared_roles p' = p_declared_roles p" by simp
  then have "map_of (p_tools p') tool = map_of (p_tools p) tool"
    using parse_rules_entry [OF p(2), of tool] parse_rules_entry [OF p'(2), of tool] assms(4) by simp
  then show ?thesis by (simp add: decide_tool_def)
qed

lemma resource_rule_local:
  assumes "p_resources p' = p_resources p"
  shows "decide_resource p' uri roles = decide_resource p uri roles"
  unfolding decide_resource_def resource_rule_def assms by (rule refl)

lemma decide_resource_local:
  assumes "from_mapping (PDict doc) src = Inr p" and "from_mapping (PDict doc') src = Inr p'"
    and "dict_get doc' ''roles'' = dict_get doc ''roles''"
    and "dict_get doc' ''resources'' = dict_get doc ''resources''"
  shows "decide_resource p' uri roles = decide_resource p uri roles"
proof -
  have p: "parse_roles (dict_get doc ''roles'') src = Inr (p_declared_roles p)"
    "parse_rules (dict_get doc ''resources'') (p_declared_roles p) src ''resources'' = Inr (p_resources p)"
    by (rule from_mapping_Inr [OF assms(1)]; simp)+
  have p': "parse_roles (dict_get doc' ''roles'') src = Inr (p_declared_roles p')"
    "parse_rules (dict_get doc' ''resources'') (p_declared_roles p') src ''resources'' = Inr (p_resources p')"
    by (rule from_mapping_Inr [OF assms(2)]; simp)+
  from p p' assms(3,4) have "p_resources p' = p_resources p" by simp
  then show ?thesis by (rule resource_rule_local)
qed

lemma refused_call:
  assumes "mw_enforce m" and "c_method ctx = Some ''tools/call''" and "\<not> d_allowed (call_decision m token ctx)"
  shows "\<not> is_ok (fst (handle m orc token ctx call_next st)) \<and>
    ms_world (snd (handle m orc token ctx call_next st)) = ms_world st"
  using refused_tool_call [OF assms(1,3), of st orc] assms(2) by (auto simp: handle_def)

section \<open>Withdrawing a tool\<close>

definition without_entry :: "string \<Rightarrow> pyval \<Rightarrow> pyval" where
  "without_entry tool v =
     (case v of PDict items \<Rightarrow> PDict (filter (\<lambda>(k, _). py_str k \<noteq> tool) items) | _ \<Rightarrow> v)"

definition withdraw :: "string \<Rightarrow> pydict \<Rightarrow> pydict" where
  "withdraw tool doc = map (\<lambda>(k, v). (k, if k = PStr ''tools'' then without_entry tool v else v)) doc"

lemma map_of_withdraw:
  "map_of (withdraw tool doc) k =
     (if k = PStr ''tools'' then map_option (without_entry tool) (map_of doc k) else map_of doc k)"
  by (induction doc) (auto simp: withdraw_def)

lemma dict_get_withdraw:
  "dict_get (withdraw tool doc) k = (if k = ''tools'' then without_entry tool (dict_get doc k) else dict_get doc k)"
  by (simp add: dict_get_def dict_get_or_def map_of_withdraw without_entry_def split: option.split)

lemma last_entry_filter:
  "last_entry (filter (\<lambda>(k, _). py_str k \<noteq> tool) items) name = (if name = tool then None else last_entry items name)"
proof (induction items)
  case Nil
  show ?case by (simp add: last_entry_def)
next
  case (Cons e items)
  then show ?case by (cases e) (auto simp: last_entry_Cons split: option.splits if_splits)
qed

lemma doc_entry_withdraw:
  "doc_entry (withdraw tool doc) ''tools'' name = (if name = tool then None else doc_entry doc ''tools'' name)"
  by (cases "dict_get doc ''tools''")
    (simp_all add: doc_entry_def dict_get_withdraw without_entry_def last_entry_filter)

lemma withdrawn_denied:
  assumes "from_mapping (PDict (withdraw tool doc)) src = Inr p'"
  shows "\<not> d_allowed (decide_tool p' tool roles)"
proof -
  have "parse_rules (dict_get (withdraw tool doc) ''tools'') (p_declared_roles p') src ''tools'' = Inr (p_tools p')"
    by (rule from_mapping_Inr [OF assms]; simp)
  from parse_rules_entry [OF this, of tool] show ?thesis
    by (simp add: doc_entry_withdraw decide_tool_def default_deny_def)
qed

lemma valid_section_without:
  "valid_section d v \<Longrightarrow> valid_section d (map_option (without_entry tool) v)"
  by (auto simp: valid_section_def without_entry_def split: option.splits pyval.splits)

lemma declared_names_withdraw: "declared_names (withdraw tool doc) = declared_names doc"
  by (simp add: declared_names_def map_of_withdraw)

lemma valid_doc_withdraw: "valid_doc (PDict doc) \<Longrightarrow> valid_doc (PDict (withdraw tool doc))"
  by (auto simp: valid_doc_def map_of_withdraw declared_names_withdraw intro: valid_section_without
      split: option.splits)

section \<open>Properties\<close>

text \<open>C17: withdrawing a tool is exact: the document without the tool's entry still loads, under it
  every call of the tool by any caller is refused before any handler and leaves the world alone,
  while every other tool and every resource is decided as before and callers are shown the same
  tools but that one.\<close>

theorem withdrawal_is_exact:
  assumes "from_mapping (PDict doc) src = Inr p"
  shows "\<exists>p'. from_mapping (PDict (withdraw tool doc)) src = Inr p' \<and>
    (\<forall>token ctx orc call_next (st :: 'w mstate).
       c_method ctx = Some ''tools/call'' \<and> py_str (dict_get_or (params_of ctx) ''name'' (PStr [])) = tool \<longrightarrow>
       \<not> is_ok (fst (handle \<lparr>mw_policy = p', mw_enforce = True\<rparr> orc (token :: 't access_token option) ctx call_next st)) \<and>
       ms_world (snd (handle \<lparr>mw_policy = p', mw_enforce = True\<rparr> orc token ctx call_next st)) = ms_world st) \<and>
    (\<forall>t roles. t \<noteq> tool \<longrightarrow> decide_tool p' t roles = decide_tool p t roles) \<and>
    (\<forall>uri roles. decide_resource p' uri roles = decide_resource p uri roles) \<and>
    (\<forall>roles. visible_tools p' roles = visible_tools p roles - {tool})"
proof -
  have "is_ok (from_mapping (PDict doc) src)" using assms by simp
  then have "valid_doc (PDict (withdraw tool doc))"
    using valid_doc_withdraw from_mapping_ok by blast
  then obtain p' where p': "from_mapping (PDict (withdraw tool doc)) src = Inr p'"
    using from_mapping_ok [of "PDict (withdraw tool doc)" src] by (auto simp: is_ok_iff)
  have others: "\<forall>t roles. t \<noteq> tool \<longrightarrow> decide_tool p' t roles = decide_tool p t roles"
    using decide_tool_local [OF assms p'] by (simp add: dict_get_withdraw doc_entry_withdraw)
  have gone: "\<not> d_allowed (decide_tool p' tool roles)" for roles
    using withdrawn_denied [OF p'] .
  have res: "\<forall>uri roles. decide_resource p' uri roles = decide_resource p uri roles"
    using decide_resource_local [OF assms p'] by (simp add: dict_get_withdraw)
  note shown = visible_tools_callable [OF from_mapping_wf_policy [OF assms]]
    visible_tools_callable [OF from_mapping_wf_policy [OF p']]
  have "t \<in> visible_tools p' roles \<longleftrightarrow> t \<in> visible_tools p roles - {tool}" for t roles
    by (cases "t = tool") (simp_all add: shown gone others)
  then have vis: "\<forall>roles. visible_tools p' roles = visible_tools p roles - {tool}" by blast
  have call: "\<forall>token ctx orc call_next (st :: 'w mstate).
       c_method ctx = Some ''tools/call'' \<and> py_str (dict_get_or (params_of ctx) ''name'' (PStr [])) = tool \<longrightarrow>
       \<not> is_ok (fst (handle \<lparr>mw_policy = p', mw_enforce = True\<rparr> orc (token :: 't access_token option) ctx call_next st)) \<and>
       ms_world (snd (handle \<lparr>mw_policy = p', mw_enforce = True\<rparr> orc token ctx call_next st)) = ms_world st"
    by (intro allI impI refused_call) (use gone in \<open>simp_all add: call_decision_def\<close>)
  show ?thesis by (rule exI [of _ p']) (intro conjI p' call others res vis)
qed

theorem withdrawal_is_exact_witness:
  "\<exists>p'. from_mapping (PDict (withdraw ''raise'' gate_doc)) ''<test>'' = Inr p' \<and>
    visible_tools p' [''operator''] = {''look''} \<and>
    \<not> is_ok (fst (handle \<lparr>mw_policy = p', mw_enforce = True\<rparr> gate_env (gate_token ''operator'')
      (gate_call ''raise'' gate_answers) count_handler gate_state))"
proof -
  have v: "visible_tools (mw_policy (gate_mw True)) [''operator''] = {''look'', ''raise''}" by code_simp
  have c: "c_method (gate_call ''raise'' gate_answers) = Some ''tools/call'' \<and>
      py_str (dict_get_or (params_of (gate_call ''raise'' gate_answers)) ''name'' (PStr [])) = ''raise''"
    by code_simp
  from withdrawal_is_exact [OF gate_policy_loads, of "''raise''" True] obtain p' where
    "from_mapping (PDict (withdraw ''raise'' gate_doc)) ''<test>'' = Inr p'"
    and "\<not> is_ok (fst (handle \<lparr>mw_policy = p', mw_enforce = True\<rparr> gate_env (gate_token ''operator'')
      (gate_call ''raise'' gate_answers) count_handler gate_state))"
    and "visible_tools p' [''operator''] = visible_tools (mw_policy (gate_mw True)) [''operator''] - {''raise''}"
    using c by meson
  with v show ?thesis by (intro exI [of _ p']) auto
qed

end
