(* ===== verification/Interleaving.thy ===== *)
theory Interleaving
  imports Session "HOL-Library.Multiset"
begin

text \<open>
  Concurrent requests on one event loop. \<open>PolicyEnforcementMiddleware\<close> is a coroutine whose
  only suspension point is \<open>await call_next(ctx)\<close>: what comes before runs in one piece when a
  request arrives, the rest of the chain and what comes after when the loop resumes it. Between
  the two any number of other requests may arrive and complete. The tools over the mock do not
  suspend, so the rest of the chain is one step. The first piece is the middleware itself, run
  with a rest of the chain that only notes that it was reached.
\<close>

section \<open>The loop\<close>

text \<open>A rest of the chain that suspends: over a world that says whether it was reached.\<close>

definition suspend :: "bool handler" where
  "suspend ctx reached = (Inl (Foreign ''Suspended'' []), True)"

record ('t, 'w) loop =
  lp_log :: "bool mstate"
  lp_world :: 'w
  lp_waiting :: "'t request list"
  lp_refused :: "('t request \<times> (exn + response)) list"
  lp_completed :: "('t request \<times> (exn + response)) list"

datatype 't loop_event = Arrive "'t request" | Resume nat

definition arrive :: "middleware \<Rightarrow> env_inputs \<Rightarrow> 't request \<Rightarrow> ('t, 'w) loop \<Rightarrow> ('t, 'w) loop" where
  "arrive m orc req l =
     (let (r, st) = handle m orc (fst req) (snd req) suspend ((lp_log l)\<lparr>ms_world := False\<rparr>)
      in if ms_world st then l\<lparr>lp_log := st, lp_waiting := lp_waiting l @ [req]\<rparr>
         else l\<lparr>lp_log := st, lp_refused := lp_refused l @ [(req, r)]\<rparr>)"

text \<open>What follows the \<open>await\<close>: a listing is filtered, everything else is passed on.\<close>

definition after_await :: "middleware \<Rightarrow> 't request \<Rightarrow> exn + response \<Rightarrow> exn + response" where
  "after_await m req r =
     (if c_method (snd req) = Some ''tools/list'' \<and> mw_enforce m
      then bindE r (\<lambda>result. Inr (filter_response (visible_tools (mw_policy m) (roles_from_token (fst req))) result))
      else r)"

fun drop_nth :: "nat \<Rightarrow> 'a list \<Rightarrow> 'a list" where
  "drop_nth i [] = []"
| "drop_nth 0 (x # xs) = xs"
| "drop_nth (Suc i) (x # xs) = x # drop_nth i xs"

definition complete_nth :: "middleware \<Rightarrow> 'w handler \<Rightarrow> nat \<Rightarrow> ('t, 'w) loop \<Rightarrow> ('t, 'w) loop" where
  "complete_nth m call_next i l =
     (if i < length (lp_waiting l)
      then (let req = lp_waiting l ! i; (r, w) = call_next (snd req) (lp_world l)
            in l\<lparr>lp_world := w, lp_waiting := drop_nth i (lp_waiting l),
                 lp_completed := lp_completed l @ [(req, after_await m req r)]\<rparr>)
      else l)"

fun loop_step :: "middleware \<Rightarrow> env_inputs \<Rightarrow> 'w handler \<Rightarrow> ('t, 'w) loop \<Rightarrow> 't loop_event \<Rightarrow> ('t, 'w) loop" where
  "loop_step m orc call_next l (Arrive req) = arrive m orc req l"
| "loop_step m orc call_next l (Resume i) = complete_nth m call_next i l"

definition loop_start :: "'w mstate \<Rightarrow> ('t, 'w) loop" where
  "loop_start st =
     \<lparr>lp_log = \<lparr>ms_sink = ms_sink st, ms_clock_reads = ms_clock_reads st, ms_nonce_reads = ms_nonce_reads st,
        ms_world = False\<rparr>,
      lp_world = ms_world st, lp_waiting = [], lp_refused = [], lp_completed = []\<rparr>"

definition run_loop ::
  "middleware \<Rightarrow> env_inputs \<Rightarrow> 'w handler \<Rightarrow> 't loop_event list \<Rightarrow> 'w mstate \<Rightarrow> ('t, 'w) loop"
where
  "run_loop m orc call_next evs st = foldl (loop_step m orc call_next) (loop_start st) evs"

definition arrivals :: "'t loop_event list \<Rightarrow> 't request list" where
  "arrivals evs = concat (map (\<lambda>ev. case ev of Arrive req \<Rightarrow> [req] | Resume i \<Rightarrow> []) evs)"

lemma run_loop_simps [simp]:
  "run_loop m orc call_next [] st = loop_start st"
  "run_loop m orc call_next (evs @ [ev]) st = loop_step m orc call_next (run_loop m orc call_next evs st) ev"
  by (simp_all add: run_loop_def)

lemma arrivals_simps [simp]:
  "arrivals [] = []" "arrivals (evs @ [Arrive req]) = arrivals evs @ [req]"
  "arrivals (evs @ [Resume i]) = arrivals evs"
  by (simp_all add: arrivals_def)

lemma mset_drop_nth: "i < length xs \<Longrightarrow> mset xs = add_mset (xs ! i) (mset (drop_nth i xs))"
  by (induction i xs rule: drop_nth.induct) simp_all

lemma set_drop_nth: "x \<in> set (drop_nth i xs) \<Longrightarrow> x \<in> set xs"
  by (induction i xs rule: drop_nth.induct) auto

section \<open>The two pieces make up the middleware\<close>

lemma suspended_iff:
  assumes "wire_request (token, ctx)" and "logging h st" and "\<not> ms_world st"
  shows "ms_world (snd (handle m orc token ctx suspend st)) \<longleftrightarrow> request_runs m (token, ctx)"
  using handle_step(1) [OF assms(1,2), of m orc suspend] assms(3) by (simp add: spec_world_def suspend_def)

text \<open>A request that gets past the guard is answered by the two pieces as by the whole.\<close>

lemma granted_guard:
  assumes "c_method ctx = Some ''tools/call''" and "wire_request (token, ctx)" and "request_runs m (token, ctx)"
  shows "(fst (guard_tool_call m orc token ctx f st), ms_world (snd (guard_tool_call m orc token ctx f st))) =
    f ctx (ms_world st)"
proof -
  have wire: "wire_call ctx" using assms(1,2) by (simp add: wire_request_def)
  show ?thesis
  proof (cases "mw_enforce m")
    case True
    with assms(1,3) have "gate_verdict m token ctx = Runs" by (simp add: request_runs_def)
    then show ?thesis
      using guard_tool_call_gate [OF True wire, of token f st orc] by (simp add: gate_result_def)
  next
    case False
    from guard_tool_call_shadow [OF False wire, where token = token and call_next = f and st = st and orc = orc]
    show ?thesis by blast
  qed
qed

lemma granted_handle:
  assumes "wire_request (token, ctx)" and "request_runs m (token, ctx)"
  shows "(fst (handle m orc token ctx f st), ms_world (snd (handle m orc token ctx f st))) =
    map_prod (after_await m (token, ctx)) id (f ctx (ms_world st))"
proof -
  consider "c_method ctx = Some ''tools/call''" | "c_method ctx = Some ''resources/read''"
    | "c_method ctx = Some ''tools/list''"
    | "c_method ctx \<notin> {Some ''tools/call'', Some ''resources/read'', Some ''tools/list''}" by blast
  then show ?thesis
  proof cases
    case 1
    with granted_guard [OF 1 assms, of orc f st] show ?thesis
      by (cases "f ctx (ms_world st)") (simp add: handle_def after_await_def)
  next
    case 2
    then have "d_allowed (read_decision m token ctx) \<or> \<not> mw_enforce m"
      using assms(2) by (auto simp: request_runs_def)
    with 2 guard_resource_read_gate [where m = m and token = token and ctx = ctx and orc = orc
        and call_next = f and st = st] show ?thesis
      by (cases "f ctx (ms_world st)") (simp add: handle_def after_await_def)
  next
    case 3
    then show ?thesis
      by (cases "f ctx (ms_world st)"; cases "fst (f ctx (ms_world st))")
        (simp_all add: handle_def after_await_def filter_tool_list_eq)
  next
    case 4
    then show ?thesis
      by (cases "f ctx (ms_world st)") (simp add: handle_def after_await_def run_next_eq)
  qed
qed

section \<open>The invariant of the loop\<close>

text \<open>
  What is waiting was let through; what is completed is what a sequential session of those
  requests answers; and together they are the arrivals that the policy lets run.
\<close>

definition loop_inv ::
  "middleware \<Rightarrow> env_inputs \<Rightarrow> 'w handler \<Rightarrow> string \<Rightarrow> 'w mstate \<Rightarrow> 't request list \<Rightarrow> ('t, 'w) loop \<Rightarrow> bool"
where
  "loop_inv m orc call_next h st reqs l \<longleftrightarrow>
     logging h (lp_log l) \<and> trail (lp_log l) = trail st @ concat (map (request_trail m) reqs) \<and>
     (\<forall>req\<in>set (lp_waiting l). wire_request req \<and> request_runs m req) \<and>
     fst (run_session m orc call_next (map fst (lp_completed l)) st) = map snd (lp_completed l) \<and>
     ms_world (snd (run_session m orc call_next (map fst (lp_completed l)) st)) = lp_world l \<and>
     mset (map fst (lp_completed l)) + mset (lp_waiting l) = mset (filter (request_runs m) reqs) \<and>
     mset (map fst (lp_refused l)) = mset (filter (\<lambda>req. \<not> request_runs m req) reqs)"

lemma loop_start_inv: "logging h st \<Longrightarrow> loop_inv m orc call_next h st [] (loop_start st)"
  by (simp add: loop_inv_def loop_start_def logging_def trail_def)

lemma arrive_inv:
  assumes inv: "loop_inv m orc call_next h st reqs l" and wire: "wire_request req"
  shows "loop_inv m orc call_next h st (reqs @ [req]) (arrive m orc req l)"
proof -
  obtain token ctx where req: "req = (token, ctx)" by (cases req)
  let ?st = "(lp_log l)\<lparr>ms_world := False\<rparr>"
  obtain r st1 where h1: "handle m orc token ctx suspend ?st = (r, st1)" by fastforce
  have log: "logging h ?st" using inv by (simp add: loop_inv_def)
  have st1: "logging h st1" "trail st1 = trail (lp_log l) @ request_trail m req"
    "ms_world st1 \<longleftrightarrow> request_runs m req"
    using handle_keeps_logging [OF log, of m orc token ctx suspend] h1
      handle_step(2) [OF wire [unfolded req] log, of m orc suspend]
      suspended_iff [OF wire [unfolded req] log, of m orc] by (simp_all add: req)
  show ?thesis
    using inv st1 wire by (auto simp: loop_inv_def arrive_def req h1)
qed

lemma complete_inv:
  assumes inv: "loop_inv m orc call_next h st reqs l" and i: "i < length (lp_waiting l)"
  shows "loop_inv m orc call_next h st reqs (complete_nth m call_next i l)"
proof -
  obtain token ctx where req: "lp_waiting l ! i = (token, ctx)" by fastforce
  obtain r w where c: "call_next ctx (lp_world l) = (r, w)" by fastforce
  obtain st1 where s: "run_session m orc call_next (map fst (lp_completed l)) st = (map snd (lp_completed l), st1)"
    and w1: "ms_world st1 = lp_world l"
    using inv by (auto simp: loop_inv_def prod_eq_iff)
  have ok: "wire_request (token, ctx)" "request_runs m (token, ctx)"
    using inv nth_mem [OF i] by (auto simp: loop_inv_def req)
  obtain r2 st2 where h2: "handle m orc token ctx call_next st1 = (r2, st2)" by fastforce
  have "r2 = after_await m (token, ctx) r" and "ms_world st2 = w"
    using granted_handle [OF ok, of orc call_next st1] by (simp_all add: h2 w1 c)
  moreover have "mset (lp_waiting l) = add_mset (token, ctx) (mset (drop_nth i (lp_waiting l)))"
    using mset_drop_nth [OF i] by (simp add: req)
  ultimately show ?thesis
    using inv i s h2 c by (auto simp: loop_inv_def complete_nth_def req run_session_append Let_def dest: set_drop_nth)
qed

lemma complete_beyond: "\<not> i < length (lp_waiting l) \<Longrightarrow> complete_nth m call_next i l = l"
  by (simp add: complete_nth_def)

lemma run_loop_inv:
  "logging h st \<Longrightarrow> list_all wire_request (arrivals evs) \<Longrightarrow>
   loop_inv m orc call_next h st (arrivals evs) (run_loop m orc call_next evs st)"
proof (induction evs rule: rev_induct)
  case Nil
  then show ?case by (simp add: loop_start_inv)
next
  case (snoc ev evs)
  show ?case
  proof (cases ev)
    case (Arrive req)
    with snoc show ?thesis by (simp add: arrive_inv)
  next
    case (Resume i)
    with snoc have inv: "loop_inv m orc call_next h st (arrivals evs) (run_loop m orc call_next evs st)" by simp
    show ?thesis
      by (cases "i < length (lp_waiting (run_loop m orc call_next evs st))")
        (use complete_inv [OF inv] inv Resume in \<open>simp_all add: complete_beyond\<close>)
  qed
qed

section \<open>Properties\<close>

text \<open>C8: concurrency changes nothing: however arriving requests and the resumption of suspended ones
  interleave on the event loop, the world and the responses are those of a sequential session of
  the completed requests, in the order they completed; these and the ones still suspended are
  exactly the arrivals the policy lets run; the others were refused on arrival, before any later
  event; and the audit trail is the sequential one in the order of arrival.\<close>

theorem interleaving_is_serializable:
  assumes "logging h st" and "list_all wire_request (arrivals evs)"
    and "l = run_loop m orc call_next evs st" and "order = map fst (lp_completed l)"
  shows "fst (run_session m orc call_next order st) = map snd (lp_completed l) \<and>
    ms_world (snd (run_session m orc call_next order st)) = lp_world l \<and>
    mset order + mset (lp_waiting l) = mset (filter (request_runs m) (arrivals evs)) \<and>
    mset (map fst (lp_refused l)) = mset (filter (\<lambda>req. \<not> request_runs m req) (arrivals evs)) \<and>
    trail (lp_log l) = trail st @ concat (map (request_trail m) (arrivals evs))"
  using run_loop_inv [OF assms(1,2), of m orc call_next] unfolding loop_inv_def assms(3,4) by blast

text \<open>A reader is refused, an operator's approved call and a reader's look are let through, and the
  look, which came last, completes first.\<close>

definition example_events :: "string loop_event list" where
  "example_events =
     [Arrive (gate_token ''reader'', gate_call ''raise'' []),
      Arrive (gate_token ''operator'', gate_call ''raise'' gate_answers),
      Arrive (gate_token ''reader'', gate_call ''look'' []), Resume 1, Resume 0]"

theorem interleaving_is_serializable_witness:
  "trail (lp_log (run_loop (gate_mw True) gate_env count_handler example_events gate_state)) =
     [WARNING, INFO, INFO, INFO] \<and>
   length (lp_completed (run_loop (gate_mw True) gate_env count_handler example_events gate_state)) +
     length (lp_waiting (run_loop (gate_mw True) gate_env count_handler example_events gate_state)) = 2"
proof -
  let ?l = "run_loop (gate_mw True) gate_env count_handler example_events gate_state"
  have "list_all wire_request (arrivals example_events)" by code_simp
  note found = interleaving_is_serializable [OF gate_logging this refl refl, of "gate_mw True" gate_env count_handler]
  have "trail gate_state @ concat (map (request_trail (gate_mw True)) (arrivals example_events)) =
      [WARNING, INFO, INFO, INFO]" by code_simp
  with found have t: "trail (lp_log ?l) = [WARNING, INFO, INFO, INFO]" by metis
  from found have "mset (map fst (lp_completed ?l)) + mset (lp_waiting ?l) =
      mset (filter (request_runs (gate_mw True)) (arrivals example_events))" by blast
  then have "size (mset (map fst (lp_completed ?l)) + mset (lp_waiting ?l)) =
      size (mset (filter (request_runs (gate_mw True)) (arrivals example_events)))" by (rule arg_cong)
  moreover have "length (filter (request_runs (gate_mw True)) (arrivals example_events)) = 2" by code_simp
  ultimately have "length (lp_completed ?l) + length (lp_waiting ?l) = 2"
    by (metis length_map size_mset size_union)
  with t show ?thesis by blast
qed

end
