(* ===== verification/Dialogue.thy ===== *)
theory Dialogue
  imports Flow
begin

text \<open>
  The exchange of one call: a client that answers each question of the server and sends the
  call again with the answer and the state it was given, until the response is not a
  question. Nothing in a client's loop bounds the number of rounds, so the exchange is a
  partial function, whose value \<open>None\<close> is an exchange that never ends. That it ends, and
  how, is the middleware's doing: an answered call is never asked about again.
\<close>

section \<open>The exchange\<close>

text \<open>The call, sent again with the answer, under the key of the question, and the state.\<close>

definition answered :: "ctx \<Rightarrow> string \<Rightarrow> pyval \<Rightarrow> ctx" where
  "answered ctx k answer = ctx\<lparr>c_params := PDict (dict_set (PStr ''inputResponses'')
     (PDict [(PStr k, answer)]) (params_of ctx))\<rparr>"

definition retry_of :: "ctx \<Rightarrow> string \<Rightarrow> pyval \<Rightarrow> string \<Rightarrow> ctx" where
  "retry_of ctx k answer s = deliver (answered ctx k answer) s"

text \<open>The number of requests sent, the last response and the state after it.\<close>

partial_function (option) dialogue ::
  "middleware \<Rightarrow> env_inputs \<Rightarrow> 't access_token option \<Rightarrow> 'w handler \<Rightarrow> (string \<Rightarrow> pyval \<Rightarrow> pyval)
    \<Rightarrow> ctx \<Rightarrow> 'w mstate \<Rightarrow> (nat \<times> (exn + response) \<times> 'w mstate) option"
where
  "dialogue m orc token call_next answer ctx st =
     (case handle m orc token ctx call_next st of
        (Inr (InputRequired k msg schema s), st') \<Rightarrow>
          Option.bind (dialogue m orc token call_next answer (retry_of ctx k (answer msg schema) s) st')
            (\<lambda>(n, out). Some (Suc n, out))
      | (r, st') \<Rightarrow> Some (1, r, st'))"

definition asks :: "exn + response \<Rightarrow> bool" where
  "asks r \<longleftrightarrow> (\<exists>k msg schema s. r = Inr (InputRequired k msg schema s))"

definition never_asks :: "'w handler \<Rightarrow> bool" where
  "never_asks call_next \<longleftrightarrow> (\<forall>ctx w. \<not> asks (fst (call_next ctx w)))"

lemma never_asksD: "never_asks call_next \<Longrightarrow> (r, w') = call_next ctx w \<Longrightarrow> \<not> asks r"
  by (metis never_asks_def fst_conv)

lemma dialogue_settled:
  "handle m orc token ctx call_next st = (r, st') \<Longrightarrow> \<not> asks r \<Longrightarrow>
   dialogue m orc token call_next answer ctx st = Some (1, r, st')"
  by (subst dialogue.simps) (auto simp: asks_def split: sum.split response.split)

lemma dialogue_asked:
  "handle m orc token ctx call_next st = (Inr (InputRequired k msg schema s), st') \<Longrightarrow>
   dialogue m orc token call_next answer (retry_of ctx k (answer msg schema) s) st' = Some (n, r, st'') \<Longrightarrow>
   dialogue m orc token call_next answer ctx st = Some (Suc n, r, st'')"
  by (subst dialogue.simps) simp

section \<open>A retry\<close>

lemma params_of_answered:
  "params_of (answered ctx k a) = dict_set (PStr ''inputResponses'') (PDict [(PStr k, a)]) (params_of ctx)"
  by (simp add: answered_def params_of_def)

lemma retry_fields [simp]:
  "c_method (retry_of ctx k a s) = c_method ctx"
  "call_tool_name (retry_of ctx k a s) = call_tool_name ctx"
  "wire_call (retry_of ctx k a s) = wire_call ctx"
  "call_decision m token (retry_of ctx k a s) = call_decision m token ctx"
  "answers_of (params_of (retry_of ctx k a s)) = PDict [(PStr k, a)]"
proof -
  show "c_method (retry_of ctx k a s) = c_method ctx" by (simp add: retry_of_def answered_def)
  have "call_tool_name (answered ctx k a) = call_tool_name ctx"
    by (simp add: call_tool_name_def params_of_answered dict_get_or_dict_set)
  then show "call_tool_name (retry_of ctx k a s) = call_tool_name ctx" by (simp add: retry_of_def)
  have "call_decision m token (answered ctx k a) = call_decision m token ctx"
    by (simp add: call_decision_def params_of_answered dict_get_or_dict_set)
  then show "call_decision m token (retry_of ctx k a s) = call_decision m token ctx" by (simp add: retry_of_def)
  show "wire_call (retry_of ctx k a s) = wire_call ctx"
    by (simp add: retry_of_def, simp add: wire_call_def params_of_answered dict_get_dict_set)
  show "answers_of (params_of (retry_of ctx k a s)) = PDict [(PStr k, a)]"
    by (simp add: retry_of_def, simp add: answers_of_def params_of_answered dict_get_dict_set py_or_def)
qed

lemma retry_check:
  assumes "prefix pending_prefix s"
  shows "check (state_of (params_of (retry_of ctx ''approval'' a s))) (answers_of (params_of (retry_of ctx ''approval'' a s))) = Inr ()
    \<longleftrightarrow> says_yes a"
proof -
  have "s \<noteq> []" using assms by (auto simp: pending_prefix_def)
  then have "state_of (params_of (retry_of ctx ''approval'' a s)) = PStr s"
    by (simp add: retry_of_def state_of_deliver)
  with assms show ?thesis by (simp add: check_ok)
qed

lemma retry_verdict:
  assumes "gate_verdict m token ctx = NeedsApproval" and "prefix pending_prefix s"
  shows "gate_verdict m token (retry_of ctx ''approval'' a s) = (if says_yes a then Runs else NotApproved)"
  using assms(1) retry_check [OF assms(2), of ctx a]
  by (simp add: gate_verdict_def Let_def split: if_splits)

section \<open>The exchange ends\<close>

text \<open>The outcome the verdict on the first request calls for.\<close>

definition dialogue_outcome ::
  "middleware \<Rightarrow> 't access_token option \<Rightarrow> 'w handler \<Rightarrow> (string \<Rightarrow> pyval \<Rightarrow> pyval) \<Rightarrow> ctx \<Rightarrow> 'w
    \<Rightarrow> nat \<times> (exn + response) \<times> 'w \<Rightarrow> bool"
where
  "dialogue_outcome m token call_next answer ctx w out \<longleftrightarrow>
     (case out of (n, r, w') \<Rightarrow>
        (case gate_verdict m token ctx of
           Runs \<Rightarrow> n = 1 \<and> (r, w') = call_next ctx w
         | NeedsApproval \<Rightarrow> n = 2 \<and>
             (\<exists>msg s. let a = answer msg (approval_schema (call_tool_name ctx)) in
                if says_yes a then (r, w') = call_next (retry_of ctx ''approval'' a s) w
                else is_denial r \<and> w' = w)
         | _ \<Rightarrow> n = 1 \<and> is_denial r \<and> w' = w))"

lemma handle_call:
  assumes "mw_enforce m" and "c_method ctx = Some ''tools/call''" and "wire_call ctx"
  shows "gate_result m token ctx call_next st (handle m orc token ctx call_next st)"
  using guard_tool_call_gate [OF assms(1,3), of token call_next st orc] assms(2) by (simp add: handle_def)

lemma denial_asks_not: "is_denial r \<Longrightarrow> \<not> asks r"
  by (auto simp: is_denial_def asks_def)

lemma dialogue_ends:
  assumes "mw_enforce m" and "c_method ctx = Some ''tools/call''" and "wire_call ctx"
    and "never_asks call_next"
  shows "\<exists>n r st'. dialogue m orc token call_next answer ctx st = Some (n, r, st') \<and>
    dialogue_outcome m token call_next answer ctx (ms_world st) (n, r, ms_world st')"
proof -
  obtain r st1 where h: "handle m orc token ctx call_next st = (r, st1)" by fastforce
  note g = handle_call [OF assms(1-3), of token call_next st orc, unfolded h]
  show ?thesis
  proof (cases "gate_verdict m token ctx = NeedsApproval")
    case False
    have "\<not> asks r"
      using g False never_asksD [OF assms(4)] denial_asks_not
      by (cases "gate_verdict m token ctx") (auto simp: gate_result_def)
    from dialogue_settled [OF h this] g False show ?thesis
      by (cases "gate_verdict m token ctx") (auto simp: gate_result_def dialogue_outcome_def)
  next
    case True
    with g have q: "is_question (call_tool_name ctx) r" and w: "ms_world st1 = ms_world st"
      by (simp_all add: gate_result_def call_tool_name_def)
    then obtain msg s where r: "r = Inr (InputRequired ''approval'' msg (approval_schema (call_tool_name ctx)) s)"
      and s: "prefix pending_prefix s"
      by (auto simp: is_question_def prefix_def split: sum.splits response.splits)
    let ?a = "answer msg (approval_schema (call_tool_name ctx))"
    let ?ctx = "retry_of ctx ''approval'' ?a s"
    obtain r2 st2 where h2: "handle m orc token ?ctx call_next st1 = (r2, st2)" by fastforce
    have g2: "if says_yes ?a then (r2, ms_world st2) = call_next ?ctx (ms_world st)
        else is_denial r2 \<and> ms_world st2 = ms_world st"
      using handle_call [of m ?ctx token call_next st1 orc] assms(1-3) retry_verdict [OF True s, of ?a] h2 w
      by (auto simp: gate_result_def)
    then have "\<not> asks r2"
      using never_asksD [OF assms(4)] denial_asks_not by (metis (full_types))
    have "dialogue m orc token call_next answer ctx st = Some (2, r2, st2)"
      using dialogue_asked [OF h [unfolded r], where answer = answer, OF dialogue_settled [OF h2 \<open>\<not> asks r2\<close>]]
      by (simp add: numeral_2_eq_2)
    moreover have "\<exists>msg s. let a = answer msg (approval_schema (call_tool_name ctx)) in
        if says_yes a then (r2, ms_world st2) = call_next (retry_of ctx ''approval'' a s) (ms_world st)
        else is_denial r2 \<and> ms_world st2 = ms_world st"
      using g2 unfolding Let_def by blast
    ultimately show ?thesis using True unfolding dialogue_outcome_def by auto
  qed
qed

section \<open>Properties\<close>

text \<open>C12: an approval exchange terminates: a client that keeps answering questions, with whatever
  answers, gets a final response to any governed call within two requests; a second question
  never comes. An ungated or refused call ends with the first response; a gated one ends with
  the second, which is the handler's on the retried call when the answer was a yes, and a
  refusal with nothing changed otherwise.\<close>

theorem approval_dialogue_terminates:
  assumes "mw_enforce m" and "c_method ctx = Some ''tools/call''" and "wire_call ctx"
    and "never_asks call_next"
  shows "\<exists>n r st'. dialogue m orc token call_next answer ctx st = Some (n, r, st') \<and> n \<le> 2 \<and> \<not> asks r \<and>
    dialogue_outcome m token call_next answer ctx (ms_world st) (n, r, ms_world st')"
proof -
  obtain n r st' where d: "dialogue m orc token call_next answer ctx st = Some (n, r, st')"
    and out: "dialogue_outcome m token call_next answer ctx (ms_world st) (n, r, ms_world st')"
    using dialogue_ends [OF assms] by blast
  have "n \<le> 2 \<and> \<not> asks r"
    using out never_asksD [OF assms(4)] denial_asks_not
    by (cases "gate_verdict m token ctx") (auto simp: dialogue_outcome_def Let_def split: if_splits)
  with d out show ?thesis by blast
qed

definition say_yes :: "string \<Rightarrow> pyval \<Rightarrow> pyval" where
  "say_yes msg schema = PDict [(PStr ''action'', PStr ''accept''), (PStr ''content'', PDict [(PStr ''approve'', PBool True)])]"

theorem approval_dialogue_terminates_witness:
  "\<exists>r st'. dialogue (gate_mw True) gate_env (gate_token ''operator'') count_handler say_yes flow_ask gate_state =
      Some (2, r, st') \<and> ms_world st' = Suc (ms_world gate_state)"
proof -
  have call: "c_method flow_ask = Some ''tools/call''" and wire: "wire_call flow_ask" by code_simp+
  have "never_asks count_handler" by (simp add: never_asks_def asks_def count_handler_def)
  note inst = approval_dialogue_terminates [OF _ call wire this]
  obtain n r st' where d: "dialogue (gate_mw True) gate_env (gate_token ''operator'') count_handler say_yes flow_ask
      gate_state = Some (n, r, st')"
    and out: "dialogue_outcome (gate_mw True) (gate_token ''operator'') count_handler say_yes flow_ask
      (ms_world gate_state) (n, r, ms_world st')"
    using inst [of "gate_mw True" gate_env "gate_token ''operator''" say_yes gate_state] by auto
  have "gate_verdict (gate_mw True) (gate_token ''operator'') flow_ask = NeedsApproval" by code_simp
  moreover have "says_yes (say_yes msg schema)" for msg schema
    by (simp add: says_yes_def say_yes_def get_field_def dict_get_def dict_get_or_def)
  ultimately have "n = 2 \<and> ms_world st' = Suc (ms_world gate_state)"
    using out by (auto simp: dialogue_outcome_def Let_def count_handler_def)
  with d show ?thesis by blast
qed

end
