(* ===== verification/LiveTools.thy ===== *)
theory LiveTools
  imports Server
begin

text \<open>
  The tools over the live backend: which requests each of them sends to the instance. The
  HTTP client is any function; a wrapper keeps the list of the requests it was given. No
  assumption is made about the instance or its answers.
\<close>

section \<open>The requests of a run\<close>

definition logged :: "'n http_client \<Rightarrow> (http_request list \<times> 'n) http_client" where
  "logged client req s = (let (r, net) = client req (snd s) in (r, (fst s @ [req], net)))"

text \<open>A run from \<open>s\<close> sends at most \<open>n\<close> requests, all of the kind \<open>P\<close>.\<close>

definition sent :: "(http_request \<Rightarrow> bool) \<Rightarrow> nat \<Rightarrow> http_request list \<times> 'n \<Rightarrow> http_request list \<times> 'n \<Rightarrow> bool" where
  "sent P n s s' \<longleftrightarrow> (\<exists>new. fst s' = fst s @ new \<and> length new \<le> n \<and> list_all P new)"

lemma sent_none: "sent P n s s"
  by (simp add: sent_def)

lemma sent_trans:
  assumes "sent P m s s'" and "sent P n s' s''"
  shows "sent P (m + n) s s''"
proof -
  from assms obtain new new' where "fst s' = fst s @ new" "length new \<le> m" "list_all P new"
    and "fst s'' = fst s' @ new'" "length new' \<le> n" "list_all P new'"
    by (auto simp: sent_def)
  then show ?thesis unfolding sent_def by (intro exI [of _ "new @ new'"]) simp
qed

lemma sent_bindS:
  assumes "sent P m s (snd x)" and "\<And>a. sent P n (snd x) (snd (f a (snd x)))"
  shows "sent P (m + n) s (snd (bindS x f))"
proof (cases "fst x")
  case (Inl e)
  then have "snd (bindS x f) = snd x" by (cases x) simp
  with sent_trans [OF assms(1) sent_none] show ?thesis by simp
next
  case (Inr a)
  then have "snd (bindS x f) = snd (f a (snd x))" by (cases x) simp
  with sent_trans [OF assms(1) assms(2)] show ?thesis by simp
qed

lemma sent_request:
  "P (request_of c verb table params json) \<Longrightarrow>
   sent P 1 s (snd (live_request (logged client) c verb table params json s))"
  by (auto simp: sent_def live_request_def logged_def split: prod.splits)

lemma sent_bindS_pure:
  "sent P n s (snd x) \<Longrightarrow> (\<And>a s. snd (f a s) = s) \<Longrightarrow> sent P n s (snd (bindS x f))"
  by (cases x; cases "fst x") auto

text \<open>A request that reads: a GET without a body.\<close>

definition reads :: "http_request \<Rightarrow> bool" where
  "reads req \<longleftrightarrow> hr_method req = ''GET'' \<and> hr_json req = None"

lemma live_find_sent: "sent reads 1 s (snd (live_find (logged client) c name s))"
  unfolding live_find_def
  by (intro sent_bindS_pure sent_request) (simp_all add: reads_def request_of_def)

lemma live_search_sent: "sent reads 1 s (snd (live_search (logged client) c ci active_only limit s))"
  unfolding live_search_def
  by (intro sent_bindS_pure sent_request) (simp_all add: reads_def request_of_def)

lemma live_assess_sent:
  "sent reads 2 s (snd (assess_shipment_delay (live_servicenow (logged client) c) db now shipment_id s))"
proof (cases "map_of db shipment_id")
  case None
  then show ?thesis by (simp add: assess_shipment_delay_def sent_none)
next
  case (Some sh)
  have "sent reads (1 + 1) s (snd (assess_shipment_delay (live_servicenow (logged client) c) db now shipment_id s))"
    unfolding assess_shipment_delay_def live_servicenow_def Some option.case servicenow.simps
    by (intro sent_bindS [OF live_find_sent] sent_bindS_pure [OF live_search_sent]) simp
  then show ?thesis by (simp only: one_add_one)
qed

lemma live_search_tool_sent:
  "sent reads 1 s (snd (search_incidents (live_servicenow (logged client) c) ci limit s))"
  unfolding search_incidents_def live_servicenow_def
  by (intro sent_bindS_pure) (simp_all add: live_search_sent [simplified])

lemma live_item_sent:
  "sent reads 1 s (snd (get_configuration_item (live_servicenow (logged client) c) name s))"
  unfolding get_configuration_item_def live_servicenow_def
  by (intro sent_bindS_pure) (simp_all add: live_find_sent [simplified] split: option.split)

text \<open>The one request that files an incident.\<close>

definition files :: "live \<Rightarrow> shipment \<Rightarrow> string \<Rightarrow> http_request \<Rightarrow> bool" where
  "files c sh urgency req \<longleftrightarrow>
     hr_method req = ''POST'' \<and> hr_url req = base_url c @ ''/incident'' \<and>
     (\<exists>fields. hr_json req = Some fields \<and> map_of fields ''cmdb_ci'' = Some (sh_ci sh) \<and>
        map_of fields ''urgency'' = Some urgency)"

lemma live_create_sent:
  "sent (files c sh urgency) 1 s (snd (live_create (logged client) c sd (sh_ci sh) urgency description s))"
  unfolding live_create_def
  by (intro sent_bindS_pure sent_request) (simp_all add: files_def request_of_def)

lemma live_raise_sent:
  assumes "map_of db shipment_id = Some sh"
  shows "sent (files c sh urgency) (of_bool (urgency \<in> {''1'', ''2'', ''3''})) s
    (snd (raise_shipment_incident (live_servicenow (logged client) c) db shipment_id urgency s))"
proof (cases "urgency \<in> {''1'', ''2'', ''3''}")
  case True
  obtain sd d where run: "raise_shipment_incident (live_servicenow (logged client) c) db shipment_id urgency s =
      bindS (sn_create (live_servicenow (logged client) c) sd (sh_ci sh) urgency d s)
        (\<lambda>incident s. (Inr (summarise incident), s))"
    using raise_creates [OF assms True] .
  have "sent (files c sh urgency) 1 s (snd (raise_shipment_incident (live_servicenow (logged client) c) db
      shipment_id urgency s))"
    unfolding run by (rule sent_bindS_pure) (simp_all add: live_servicenow_def live_create_sent [simplified])
  with True show ?thesis by simp
next
  case False
  with assms show ?thesis by (simp add: raise_shipment_incident_def sent_none)
qed

text \<open>
  Over an instance that a GET leaves alone, the read tools change nothing: the same lemmas as
  over the mock, from the part of the contract both backends keep.
\<close>

lemma live_reads_change_nothing:
  assumes "safe_gets client"
  shows "snd (assess_shipment_delay (live_servicenow client c) db now shipment_id net) = net"
    and "snd (search_incidents (live_servicenow client c) ci limit net) = net"
    and "snd (get_configuration_item (live_servicenow client c) name net) = net"
  using live_reader [OF assms, of c]
  by (simp_all add: backend_reader.assess_keeps backend_reader.search_tool_keeps backend_reader.get_item_keeps)

section \<open>What the live backend does not check\<close>

text \<open>
  Creating sends its one request whatever the CMDB holds, and takes whatever comes back for
  an incident: an answer without a record is an incident with empty fields, not a failure.
  The mock refuses a configuration item it does not know.
\<close>

lemma live_create_unchecked:
  assumes "client (request_of c ''POST'' ''incident'' None
      (Some [(''short_description'', sd), (''description'', description), (''cmdb_ci'', ci),
        (''urgency'', urgency), (''category'', ''inquiry'')])) net =
      (Inr \<lparr>hs_status = status, hs_json = Inr (PDict [(PStr ''result'', result)])\<rparr>, net')"
    and "status < 400"
  shows "is_ok (fst (live_create client c sd ci urgency description net))"
  using assms
  by (cases result) (simp_all add: live_create_def live_request_def read_response_def record_get_def
    dict_get_or_def from_record_def is_ok_iff Let_def)

lemma live_create_empty:
  assumes "client (request_of c ''POST'' ''incident'' None
      (Some [(''short_description'', sd), (''description'', description), (''cmdb_ci'', ci),
        (''urgency'', urgency), (''category'', ''inquiry'')])) net =
      (Inr \<lparr>hs_status = 200, hs_json = Inr (PDict [])\<rparr>, net')"
  shows "fst (live_create client c sd ci urgency description net) =
    Inr \<lparr>inc_number = [], inc_sys_id = [], inc_short_description = [], inc_state = [], inc_urgency = [],
      inc_configuration_item = [], inc_opened_at = []\<rparr>"
  using assms
  by (simp add: live_create_def live_request_def read_response_def record_get_def dict_get_or_def dict_get_def
    from_record_def Let_def py_or_def)

section \<open>Each tool\<close>

text \<open>Looking does not touch production: against a live instance, whatever it answers, an
  assessment sends at most two requests, an incident search and a CMDB lookup at most one
  each, all of them GETs without a body; raising an incident sends nothing for an unknown
  shipment or an urgency out of range, and otherwise at most the one POST to the incident
  table for the shipment's system.\<close>

lemma live_tools_requests:
  "sent reads 2 s (snd (assess_shipment_delay (live_servicenow (logged client) c) db now shipment_id s)) \<and>
   sent reads 1 s (snd (search_incidents (live_servicenow (logged client) c) ci limit s)) \<and>
   sent reads 1 s (snd (get_configuration_item (live_servicenow (logged client) c) name s)) \<and>
   (case map_of db shipment_id of
      Some sh \<Rightarrow> sent (files c sh urgency) (of_bool (urgency \<in> {''1'', ''2'', ''3''})) s
        (snd (raise_shipment_incident (live_servicenow (logged client) c) db shipment_id urgency s))
    | None \<Rightarrow> snd (raise_shipment_incident (live_servicenow (logged client) c) db shipment_id urgency s) = s)"
proof (intro conjI live_assess_sent live_search_tool_sent live_item_sent)
  show "case map_of db shipment_id of
      Some sh \<Rightarrow> sent (files c sh urgency) (of_bool (urgency \<in> {''1'', ''2'', ''3''})) s
        (snd (raise_shipment_incident (live_servicenow (logged client) c) db shipment_id urgency s))
    | None \<Rightarrow> snd (raise_shipment_incident (live_servicenow (logged client) c) db shipment_id urgency s) = s"
    using live_raise_sent [of db shipment_id, where client = client and c = c and urgency = urgency and s = s]
    by (auto simp: raise_shipment_incident_def split: option.split)
qed

end
