(* ===== verification/LiveGoverned.thy ===== *)
theory LiveGoverned
  imports Governed LiveTools
begin

text \<open>
  The governed server over a live instance: which requests a session sends to it. The log of
  the HTTP client is cut into the parts that each request of the session accounts for. Nothing
  is assumed about the instance, its answers, the SDK or the callers.
\<close>

section \<open>What one tool sends\<close>

lemma sent_weaken: "sent P m s s' \<Longrightarrow> m \<le> n \<Longrightarrow> sent P n s s'"
  by (auto simp: sent_def)

lemma sent_ifE:
  assumes "sent P n s s'"
  obtains new where "fst s' = fst s @ new" and "length new \<le> n" and "list_all P new"
  using assms by (auto simp: sent_def)

lemma sent_liftS_bindS:
  "(\<And>a. sent P n s (snd (f a s))) \<Longrightarrow> sent P n s (snd (bindS (liftS r s) f))"
  by (cases r) (simp_all add: sent_none)

lemma sent_if:
  "(b \<Longrightarrow> sent P n s (snd x)) \<Longrightarrow> (\<not> b \<Longrightarrow> sent P n s (snd y)) \<Longrightarrow> sent P n s (snd (if b then x else y))"
  by simp

lemma live_run_tool_reads:
  assumes "tool \<noteq> ''raise_shipment_incident''"
  shows "sent reads 2 s (snd (run_tool sdk (live_servicenow (logged client) c) db now tool args s))"
  unfolding run_tool_def Let_def
  by (intro sent_if sent_liftS_bindS sent_bindS_pure live_assess_sent sent_weaken [OF live_search_tool_sent]
      sent_weaken [OF live_item_sent]) (use assms in \<open>simp_all add: sent_none\<close>)

text \<open>The incident a call asks for: its system, and an urgency the tool takes.\<close>

definition files_for :: "live \<Rightarrow> shipments \<Rightarrow> http_request \<Rightarrow> bool" where
  "files_for c db req \<longleftrightarrow>
     (\<exists>shipment_id sh urgency. map_of db shipment_id = Some sh \<and> urgency \<in> {''1'', ''2'', ''3''} \<and>
        files c sh urgency req)"

lemma sent_mono:
  assumes "sent P m s s'" and "\<And>req. P req \<Longrightarrow> 0 < m \<Longrightarrow> Q req" and "m \<le> n"
  shows "sent Q n s s'"
proof -
  from assms(1) obtain new where new: "fst s' = fst s @ new" "length new \<le> m" "list_all P new" by (rule sent_ifE)
  from new(2,3) assms(2) have "list_all Q new" by (cases new) (auto simp: list_all_iff)
  with new assms(3) show ?thesis by (auto simp: sent_def)
qed

lemma live_raise_files:
  "sent (files_for c db) 1 s (snd (raise_shipment_incident (live_servicenow (logged client) c) db shipment_id urgency s))"
proof (cases "map_of db shipment_id")
  case None
  then show ?thesis by (simp add: raise_shipment_incident_def sent_none)
next
  case (Some sh)
  have "urgency \<in> {''1'', ''2'', ''3''}" if "(0 :: nat) < of_bool (urgency \<in> {''1'', ''2'', ''3''})"
    using that by (simp only: zero_less_of_bool_iff)
  with Some show ?thesis
    by (intro sent_mono [OF live_raise_sent [OF Some]]) (auto simp: files_for_def)
qed

lemma live_run_tool_raises:
  "sent (files_for c db) 1 s
     (snd (run_tool sdk (live_servicenow (logged client) c) db now ''raise_shipment_incident'' args s))"
  unfolding run_tool_def Let_def
  by (intro sent_if sent_liftS_bindS sent_bindS_pure live_raise_files) (simp_all add: sent_none)

section \<open>What one request sends\<close>

text \<open>
  Nothing, unless it is an allowed call; then reads of the instance, at most two, or for an
  approved call of the write tool at most the one POST.
\<close>

definition request_sends :: "live \<Rightarrow> shipments \<Rightarrow> 't request \<Rightarrow> http_request list \<Rightarrow> bool" where
  "request_sends c db req new \<longleftrightarrow>
     new = [] \<or>
     c_method (snd req) = Some ''tools/call'' \<and> d_allowed (call_decision shipped_mw (fst req) (snd req)) \<and>
     (call_tool_name (snd req) \<noteq> ''raise_shipment_incident'' \<and> length new \<le> 2 \<and> list_all reads new \<or>
      may_raise req \<and> length new = 1 \<and> list_all (files_for c db) new)"

abbreviation live_handler ::
  "sdk \<Rightarrow> 'n http_client \<Rightarrow> live \<Rightarrow> shipments \<Rightarrow> (ctx \<Rightarrow> http_request list \<times> 'n \<Rightarrow> int) \<Rightarrow> (http_request list \<times> 'n) handler"
where
  "live_handler sdk client c db now \<equiv> serve sdk (live_servicenow (logged client) c) db now"

lemma live_request_step:
  "\<exists>new. fst (ms_world (snd (handle shipped_mw orc token ctx (live_handler sdk client c db now) st))) =
     fst (ms_world st) @ new \<and> request_sends c db (token, ctx) new"
proof (cases "ms_world (snd (handle shipped_mw orc token ctx (live_handler sdk client c db now) st)) = ms_world st")
  case True
  then show ?thesis by (simp add: request_sends_def)
next
  case changed: False
  let ?next = "live_handler sdk client c db now" and ?w = "ms_world st"
  have w': "ms_world (snd (handle shipped_mw orc token ctx ?next st)) = snd (?next ctx ?w)"
    using mw.world_result [of shipped_mw orc token ctx ?next st] changed by metis
  with changed have call: "c_method ctx = Some ''tools/call''" by (metis serve_reads)
  note guarded = changing_call [OF call changed]
  have run: "snd (?next ctx ?w) = snd (run_tool sdk (live_servicenow (logged client) c) db (now ctx ?w)
      (call_tool_name ctx) (arguments_of ctx) ?w)" by (simp add: serve_call [OF call])
  show ?thesis
  proof (cases "call_tool_name ctx = ''raise_shipment_incident''")
    case True
    have "sent (files_for c db) 1 ?w (snd (?next ctx ?w))" unfolding run True by (rule live_run_tool_raises)
    then obtain new where "fst (snd (?next ctx ?w)) = fst ?w @ new" "length new \<le> 1" "list_all (files_for c db) new"
      by (rule sent_ifE)
    with w' call guarded(1) guarded(2) [OF True] show ?thesis
      by (intro exI [of _ new]) (cases new; simp add: request_sends_def)
  next
    case False
    have "sent reads 2 ?w (snd (?next ctx ?w))" unfolding run by (rule live_run_tool_reads [OF False])
    then obtain new where "fst (snd (?next ctx ?w)) = fst ?w @ new" "length new \<le> 2" "list_all reads new"
      by (rule sent_ifE)
    with w' call guarded(1) False show ?thesis by (intro exI [of _ new]) (simp add: request_sends_def)
  qed
qed

section \<open>What a session sends\<close>

lemma live_session_parts:
  "\<exists>parts. fst (ms_world (snd (run_session shipped_mw orc (live_handler sdk client c db now) reqs st))) =
      fst (ms_world st) @ concat parts \<and> list_all2 (request_sends c db) reqs parts"
proof (induction reqs arbitrary: st)
  case Nil
  show ?case by (simp add: exI [of _ "[]"])
next
  case (Cons req reqs)
  obtain token ctx where req: "req = (token, ctx)" by (cases req)
  let ?st = "snd (handle shipped_mw orc token ctx (live_handler sdk client c db now) st)"
  obtain new where new: "fst (ms_world ?st) = fst (ms_world st) @ new" "request_sends c db (token, ctx) new"
    using live_request_step [of orc token ctx sdk client c db now st] by blast
  obtain parts where parts: "fst (ms_world (snd (run_session shipped_mw orc (live_handler sdk client c db now) reqs ?st))) =
      fst (ms_world ?st) @ concat parts" "list_all2 (request_sends c db) reqs parts" using Cons.IH [of ?st] by blast
  have "snd (run_session shipped_mw orc (live_handler sdk client c db now) (req # reqs) st) =
      snd (run_session shipped_mw orc (live_handler sdk client c db now) reqs ?st)"
    by (simp add: req split_beta Let_def)
  with new parts show ?case by (intro exI [of _ "new # parts"]) (simp add: req)
qed

lemma request_writes:
  assumes "request_sends c db req new"
  shows "length (filter (\<lambda>r. \<not> reads r) new) \<le> of_bool (may_raise req)"
    and "r \<in> set new \<Longrightarrow> reads r \<or> files_for c db r"
  using assms length_filter_le [of "\<lambda>r. \<not> reads r" new]
  by (auto simp: request_sends_def list_all_iff filter_empty_conv simp del: length_filter_le)

lemma session_writes:
  assumes "list_all2 (request_sends c db) reqs parts"
  shows "length (filter (\<lambda>r. \<not> reads r) (concat parts)) \<le> length (filter may_raise reqs)"
    and "r \<in> set (concat parts) \<Longrightarrow> reads r \<or> files_for c db r"
proof -
  show "length (filter (\<lambda>r. \<not> reads r) (concat parts)) \<le> length (filter may_raise reqs)"
    using assms
  proof (induction rule: list_all2_induct)
    case (Cons req reqs new parts)
    with request_writes(1) [OF Cons.hyps(1)] show ?case by (auto split: if_splits)
  qed simp
  show "r \<in> set (concat parts) \<Longrightarrow> reads r \<or> files_for c db r"
    using assms by (induction rule: list_all2_induct) (auto dest: request_writes(2))
qed

end
