(* ===== verification/TableApi.thy ===== *)
theory TableApi
  imports LiveTools
begin

text \<open>
  The live backend over an instance that keeps the Table API: the contract of the HTTP client,
  stated on the requests this connector sends and the bodies that come back, and what follows
  from it. The contract fixes neither the order of the rows of a search nor which incidents
  count as active, and a search shows display values where a creation answers with stored
  ones. The connector then is an incident tracker, as long as no name carries a caret.
\<close>

section \<open>The instance\<close>

text \<open>A caret ends a clause of an encoded query.\<close>

definition plain_name :: "string \<Rightarrow> bool" where
  "plain_name name \<longleftrightarrow> name \<noteq> [] \<and> CHR 0x5E \<notin> set name"

text \<open>
  Rows of the two tables. In a search with display values a reference is its display value, or
  an object with one; a row has further columns.
\<close>

definition item_row :: "pydict \<Rightarrow> configuration_item \<Rightarrow> bool" where
  "item_row row i \<longleftrightarrow>
     map_of row (PStr ''name'') = Some (PStr (ci_name i)) \<and> map_of row (PStr ''sys_id'') = Some (PStr (ci_sys_id i)) \<and>
     map_of row (PStr ''sys_class_name'') = Some (PStr (ci_class i)) \<and>
     map_of row (PStr ''operational_status'') = Some (PStr (ci_operational_status i))"

definition incident_row :: "pydict \<Rightarrow> incident \<Rightarrow> bool" where
  "incident_row row i \<longleftrightarrow>
     map_of row (PStr ''number'') = Some (PStr (inc_number i)) \<and> map_of row (PStr ''sys_id'') = Some (PStr (inc_sys_id i)) \<and>
     map_of row (PStr ''short_description'') = Some (PStr (inc_short_description i)) \<and>
     map_of row (PStr ''state'') = Some (PStr (inc_state i)) \<and> map_of row (PStr ''urgency'') = Some (PStr (inc_urgency i)) \<and>
     map_of row (PStr ''opened_at'') = Some (PStr (inc_opened_at i)) \<and>
     (map_of row (PStr ''cmdb_ci'') = Some (PStr (inc_configuration_item i)) \<or>
      inc_configuration_item i \<noteq> [] \<and>
      (\<exists>link. map_of row (PStr ''cmdb_ci'') = Some (PDict link) \<and>
         map_of link (PStr ''display_value'') = Some (PStr (inc_configuration_item i))))"

definition answers_with :: "'n http_client \<Rightarrow> http_request \<Rightarrow> 'n \<Rightarrow> pyval \<Rightarrow> 'n \<Rightarrow> bool" where
  "answers_with client req net result net' \<longleftrightarrow>
     (\<exists>status body. client req net = (Inr \<lparr>hs_status = status, hs_json = Inr (PDict body)\<rparr>, net') \<and>
        status < 400 \<and> map_of body (PStr ''result'') = Some result)"

text \<open>
  The display form of an incident: the labels of its state and urgency, the time as the user
  sees it. \<open>display\<close> is the instance's, for the three columns.
\<close>

definition shown_by :: "(string \<Rightarrow> string \<Rightarrow> string) \<Rightarrow> incident \<Rightarrow> incident" where
  "shown_by display i = i\<lparr>inc_state := display ''state'' (inc_state i),
     inc_urgency := display ''urgency'' (inc_urgency i), inc_opened_at := display ''opened_at'' (inc_opened_at i)\<rparr>"

text \<open>
  The contract, over the instance's own \<open>active\<close> incidents of a system: a query for a name
  returns the row of that name or none; a query for the active incidents of a system returns
  the display forms of some of them, as many as there are and at most ten, in any order;
  creating for a known system answers with the stored form of an incident that is then active:
  its number, the urgency asked for, the reference as a link and a sys id.
\<close>

definition finds_items :: "'n http_client \<Rightarrow> live \<Rightarrow> ('n \<Rightarrow> string \<Rightarrow> configuration_item option) \<Rightarrow> bool" where
  "finds_items client c cmdb \<longleftrightarrow> (\<forall>name net. plain_name name \<longrightarrow> (\<exists>rows.
     answers_with client (request_of c ''GET'' ''cmdb_ci''
       (Some [(''sysparm_query'', ''name='' @ name), (''sysparm_limit'', ''1'')]) None) net (PList (map PDict rows)) net \<and>
     (case cmdb net name of None \<Rightarrow> rows = [] | Some i \<Rightarrow> \<exists>row. rows = [row] \<and> item_row row i)))"

definition lists_incidents ::
  "'n http_client \<Rightarrow> live \<Rightarrow> ('n \<Rightarrow> string \<Rightarrow> incident multiset) \<Rightarrow> (string \<Rightarrow> string \<Rightarrow> string) \<Rightarrow> bool"
where
  "lists_incidents client c active display \<longleftrightarrow> (\<forall>ci net. plain_name ci \<longrightarrow> (\<exists>rows found.
     answers_with client (request_of c ''GET'' ''incident''
       (Some [(''sysparm_query'', ''cmdb_ci.name='' @ ci @ ''^active=true''), (''sysparm_limit'', ''10''),
         (''sysparm_display_value'', ''true'')]) None) net (PList (map PDict rows)) net \<and>
     list_all2 incident_row rows (map (shown_by display) found) \<and>
     mset found \<subseteq># active net ci \<and> length found = min 10 (size (active net ci)) \<and>
     list_all (\<lambda>i. inc_configuration_item i = ci) found))"

definition created_row :: "pydict \<Rightarrow> string \<Rightarrow> incident \<Rightarrow> bool" where
  "created_row row urgency j \<longleftrightarrow>
     map_of row (PStr ''number'') = Some (PStr (inc_number j)) \<and>
     map_of row (PStr ''urgency'') = Some (PStr urgency) \<and>
     (\<exists>link item_id. map_of row (PStr ''cmdb_ci'') = Some (PDict link) \<and> item_id \<noteq> [] \<and>
        map_of link (PStr ''display_value'') = None \<and> map_of link (PStr ''value'') = Some (PStr item_id))"

definition files_incidents ::
  "'n http_client \<Rightarrow> live \<Rightarrow> ('n \<Rightarrow> string \<Rightarrow> incident multiset) \<Rightarrow> ('n \<Rightarrow> string \<Rightarrow> configuration_item option) \<Rightarrow> bool"
where
  "files_incidents client c active cmdb \<longleftrightarrow>
     (\<forall>sd description ci urgency net. plain_name ci \<longrightarrow> cmdb net ci \<noteq> None \<longrightarrow> (\<exists>row j net'.
        answers_with client (request_of c ''POST'' ''incident'' None
          (Some [(''short_description'', sd), (''description'', description), (''cmdb_ci'', ci), (''urgency'', urgency),
            (''category'', ''inquiry'')])) net (PDict row) net' \<and>
        created_row row urgency j \<and> j \<in># active net' ci \<and> cmdb net' = cmdb net))"

definition table_api ::
  "'n http_client \<Rightarrow> live \<Rightarrow> ('n \<Rightarrow> string \<Rightarrow> incident multiset) \<Rightarrow> (string \<Rightarrow> string \<Rightarrow> string) \<Rightarrow>
    ('n \<Rightarrow> string \<Rightarrow> configuration_item option) \<Rightarrow> bool"
where
  "table_api client c active display cmdb \<longleftrightarrow>
     finds_items client c cmdb \<and> lists_incidents client c active display \<and> files_incidents client c active cmdb"

section \<open>The connector reads the rows\<close>

lemma live_request_answered:
  "answers_with client (request_of c verb table params json) net result net' \<Longrightarrow>
   live_request client c verb table params json net = (Inr result, net')"
  by (auto simp: answers_with_def live_request_def read_response_def record_get_def dict_get_or_def)

lemma item_of_row: "item_row row i \<Longrightarrow> item_of_record (PDict row) = Inr i"
  by (simp add: item_row_def item_of_record_def dict_get_or_def)

lemma from_row: "incident_row row i \<Longrightarrow> from_record (PDict row) = Inr i"
  by (auto simp: incident_row_def from_record_def dict_get_def dict_get_or_def py_or_def Let_def)

lemma map_results_rows:
  "list_all2 incident_row rows found \<Longrightarrow> map_results from_record (map PDict rows) = Inr found"
  by (induction rule: list_all2_induct) (simp_all add: from_row)

lemma from_created:
  "created_row row urgency j \<Longrightarrow>
   \<exists>i. from_record (PDict row) = Inr i \<and> inc_number i = inc_number j \<and> inc_urgency i = urgency"
  by (simp add: created_row_def from_record_def dict_get_or_def Let_def)

text \<open>The incident made of it bears the sys id of its system, not the name a search shows.\<close>

lemma created_item_is_sys_id:
  assumes "map_of row (PStr ''cmdb_ci'') = Some (PDict link)" and "map_of link (PStr ''display_value'') = None"
    and "map_of link (PStr ''value'') = Some (PStr item_id)" and "item_id \<noteq> []"
  shows "\<exists>i. from_record (PDict row) = Inr i \<and> inc_configuration_item i = item_id"
  using assms by (simp add: from_record_def dict_get_def dict_get_or_def py_or_def Let_def)

lemma finds_items_find:
  assumes "finds_items client c cmdb" and "plain_name name"
  shows "live_find client c name net = (Inr (cmdb net name), net)"
proof -
  from assms obtain rows where a: "answers_with client (request_of c ''GET'' ''cmdb_ci''
      (Some [(''sysparm_query'', ''name='' @ name), (''sysparm_limit'', ''1'')]) None) net (PList (map PDict rows)) net"
    and rows: "case cmdb net name of None \<Rightarrow> rows = [] | Some i \<Rightarrow> \<exists>row. rows = [row] \<and> item_row row i"
    unfolding finds_items_def by blast
  from live_request_answered [OF a] rows show ?thesis
    by (auto simp: live_find_def item_of_row first_item_def split: option.splits)
qed

lemma lists_incidents_search:
  assumes "lists_incidents client c active display" and ci: "plain_name ci"
  shows "\<exists>found. live_search client c (Some ci) True 10 net = (Inr (map (shown_by display) found), net) \<and>
    mset found \<subseteq># active net ci \<and> length found = min 10 (size (active net ci)) \<and>
    list_all (\<lambda>i. inc_configuration_item i = ci) found"
proof -
  from assms obtain rows found where a: "answers_with client (request_of c ''GET'' ''incident''
      (Some [(''sysparm_query'', ''cmdb_ci.name='' @ ci @ ''^active=true''), (''sysparm_limit'', ''10''),
        (''sysparm_display_value'', ''true'')]) None) net (PList (map PDict rows)) net"
    and rows: "list_all2 incident_row rows (map (shown_by display) found)"
    and found: "mset found \<subseteq># active net ci" "length found = min 10 (size (active net ci))"
      "list_all (\<lambda>i. inc_configuration_item i = ci) found"
    unfolding lists_incidents_def by blast
  have q: "search_query (Some ci) True = ''cmdb_ci.name='' @ ci @ ''^active=true''"
    using ci by (simp add: search_query_def search_clauses_def plain_name_def)
  have l: "int_str 10 = ''10''" by code_simp
  have "live_search client c (Some ci) True 10 net = (Inr (map (shown_by display) found), net)"
    using live_request_answered [OF a] map_results_rows [OF rows] by (simp add: live_search_def q l py_list_def)
  with found show ?thesis by blast
qed

lemma files_incidents_create:
  assumes "files_incidents client c active cmdb" and "plain_name ci" and "cmdb net ci \<noteq> None"
  shows "\<exists>i j net'. live_create client c sd ci urgency description net = (Inr i, net') \<and>
    j \<in># active net' ci \<and> cmdb net' = cmdb net \<and> inc_number i = inc_number j \<and> inc_urgency i = urgency"
proof -
  from assms obtain row j net' where a: "answers_with client (request_of c ''POST'' ''incident'' None
      (Some [(''short_description'', sd), (''description'', description), (''cmdb_ci'', ci), (''urgency'', urgency),
        (''category'', ''inquiry'')])) net (PDict row) net'"
    and row: "created_row row urgency j" and j: "j \<in># active net' ci" "cmdb net' = cmdb net"
    unfolding files_incidents_def by meson
  obtain i where i: "from_record (PDict row) = Inr i" "inc_number i = inc_number j" "inc_urgency i = urgency"
    using from_created [OF row] by blast
  have "live_create client c sd ci urgency description net = (Inr i, net')"
    using live_request_answered [OF a] i(1) by (simp add: live_create_def)
  with i(2,3) j show ?thesis by blast
qed

text \<open>So the connector is an incident tracker.\<close>

lemma live_tracker:
  assumes "table_api client c active display cmdb"
  shows "incident_tracker (live_servicenow client c) active (shown_by display) cmdb plain_name"
proof
  fix ci sd urgency description :: string and net
  assume ci: "plain_name ci"
  have "lists_incidents client c active display" using assms by (simp add: table_api_def)
  from lists_incidents_search [OF this ci, of net]
  show "\<exists>found. sn_search (live_servicenow client c) (Some ci) True 10 net = (Inr (map (shown_by display) found), net) \<and>
      mset found \<subseteq># active net ci \<and> length found = min 10 (size (active net ci)) \<and>
      list_all (\<lambda>i. inc_configuration_item (shown_by display i) = ci) found"
    by (simp add: live_servicenow_def shown_by_def)
  assume known: "cmdb net ci \<noteq> None"
  have "files_incidents client c active cmdb" using assms by (simp add: table_api_def)
  from files_incidents_create [OF this ci known, of sd urgency description]
  show "\<exists>i j s'. sn_create (live_servicenow client c) sd ci urgency description net = (Inr i, s') \<and>
      j \<in># active s' ci \<and> cmdb s' = cmdb net \<and> inc_number i = inc_number j \<and> inc_urgency i = urgency"
    by (simp add: live_servicenow_def)
qed (use assms in \<open>simp_all add: table_api_def live_servicenow_def shown_by_def finds_items_find\<close>)

section \<open>An instance in the small\<close>

text \<open>
  A Table API over the state of a mock: a search lists the newest first, with labels for the
  states and urgencies and the reference as an object with a display value; a creation answers
  with the stored codes and the reference as a sys id.
\<close>

definition toy_display :: "string \<Rightarrow> string \<Rightarrow> string" where
  "toy_display column v =
     (if column = ''state'' then (if v = ''1'' then ''New'' else ''In Progress'')
      else if column = ''urgency'' then v @ '' - level'' else v)"

definition toy_active :: "mock \<Rightarrow> string \<Rightarrow> incident multiset" where
  "toy_active s ci = mset (rev (filter (mock_matches (Some ci) True) (mk_incidents s)))"

definition toy_item_row :: "configuration_item \<Rightarrow> pydict" where
  "toy_item_row i =
     [(PStr ''name'', PStr (ci_name i)), (PStr ''sys_id'', PStr (ci_sys_id i)),
      (PStr ''sys_class_name'', PStr (ci_class i)), (PStr ''operational_status'', PStr (ci_operational_status i))]"

definition toy_columns :: "incident \<Rightarrow> pyval \<Rightarrow> pydict" where
  "toy_columns i reference =
     [(PStr ''number'', PStr (inc_number i)), (PStr ''sys_id'', PStr (inc_sys_id i)),
      (PStr ''short_description'', PStr (inc_short_description i)), (PStr ''state'', PStr (inc_state i)),
      (PStr ''urgency'', PStr (inc_urgency i)), (PStr ''opened_at'', PStr (inc_opened_at i)),
      (PStr ''cmdb_ci'', reference)]"

definition toy_incident_row :: "incident \<Rightarrow> pydict" where
  "toy_incident_row i = toy_columns (shown_by toy_display i)
     (PDict [(PStr ''display_value'', PStr (inc_configuration_item i)), (PStr ''link'', PStr ''..'')])"

definition toy_created_row :: "incident \<Rightarrow> pydict" where
  "toy_created_row i = toy_columns i (PDict [(PStr ''link'', PStr ''..''), (PStr ''value'', PStr ''a1b2c3d4'')])"

definition toy_body :: "pyval \<Rightarrow> http_failure + http_response" where
  "toy_body v = Inr \<lparr>hs_status = 200, hs_json = Inr (PDict [(PStr ''result'', v)])\<rparr>"

definition toy_instance :: "live \<Rightarrow> mock http_client" where
  "toy_instance c req s =
     (case (hr_params req, hr_json req) of
        (Some ((k, q) # ps), _) \<Rightarrow>
          if hr_url req = base_url c @ ''/cmdb_ci''
          then (toy_body (PList (case map_of (mk_items s) (drop 5 q) of
                  None \<Rightarrow> [] | Some i \<Rightarrow> [PDict (toy_item_row i)])), s)
          else (toy_body (PList (map (\<lambda>i. PDict (toy_incident_row i))
                  (take 10 (rev (filter (mock_matches (Some (takeWhile (\<lambda>ch. ch \<noteq> CHR 0x5E) (drop 13 q))) True)
                    (mk_incidents s)))))), s)
      | (_, Some [(_, sd), (_, description), (_, ci), (_, urgency), _]) \<Rightarrow>
          (case mock_create (\<lambda>n. ''now'') sd ci urgency description s of
             (Inr i, s') \<Rightarrow> (toy_body (PDict (toy_created_row i)), s')
           | (Inl e, s') \<Rightarrow> (Inr \<lparr>hs_status = 400, hs_json = Inl e\<rparr>, s'))
      | _ \<Rightarrow> (Inl (HttpError ''ConnectError''), s))"

lemma toy_rows:
  "item_row (toy_item_row i) i"
  "inc_configuration_item j \<noteq> [] \<Longrightarrow> incident_row (toy_incident_row j) (shown_by toy_display j)"
  "created_row (toy_created_row j) (inc_urgency j) j"
  by (simp_all add: item_row_def toy_item_row_def incident_row_def toy_incident_row_def created_row_def
      toy_created_row_def toy_columns_def shown_by_def)

lemma toy_answers:
  "toy_instance c req s = (toy_body v, s') \<Longrightarrow> answers_with (toy_instance c) req s v s'"
  by (auto simp: answers_with_def toy_body_def)

lemma toy_finds_items: "finds_items (toy_instance c) c (\<lambda>s. map_of (mk_items s))"
  unfolding finds_items_def
proof (intro allI impI)
  fix name :: string and s :: mock
  let ?rows = "case map_of (mk_items s) name of None \<Rightarrow> [] | Some i \<Rightarrow> [toy_item_row i]"
  let ?req = "request_of c ''GET'' ''cmdb_ci''
      (Some [(''sysparm_query'', ''name='' @ name), (''sysparm_limit'', ''1'')]) None"
  have "toy_instance c ?req s = (toy_body (PList (map PDict ?rows)), s)"
    by (simp add: toy_instance_def request_of_def split: option.split)
  then have "answers_with (toy_instance c) ?req s (PList (map PDict ?rows)) s" by (rule toy_answers)
  moreover have "case map_of (mk_items s) name of None \<Rightarrow> ?rows = []
      | Some i \<Rightarrow> \<exists>row. ?rows = [row] \<and> item_row row i"
    by (simp add: toy_rows split: option.split)
  ultimately show "\<exists>rows. answers_with (toy_instance c) ?req s (PList (map PDict rows)) s \<and>
      (case map_of (mk_items s) name of None \<Rightarrow> rows = [] | Some i \<Rightarrow> \<exists>row. rows = [row] \<and> item_row row i)"
    by blast
qed

lemma toy_lists_incidents: "lists_incidents (toy_instance c) c toy_active toy_display"
  unfolding lists_incidents_def
proof (intro allI impI)
  fix ci :: string and s :: mock
  assume ci: "plain_name ci"
  let ?all = "rev (filter (mock_matches (Some ci) True) (mk_incidents s))"
  let ?found = "take 10 ?all"
  let ?rows = "map toy_incident_row ?found"
  let ?req = "request_of c ''GET'' ''incident'' (Some [(''sysparm_query'', ''cmdb_ci.name='' @ ci @ ''^active=true''),
      (''sysparm_limit'', ''10''), (''sysparm_display_value'', ''true'')]) None"
  have "takeWhile (\<lambda>ch. ch \<noteq> CHR 0x5E) (ci @ ''^active=true'') = ci"
    using ci by (subst takeWhile_append2) (auto simp: plain_name_def)
  then have "toy_instance c ?req s = (toy_body (PList (map PDict ?rows)), s)"
    by (simp add: toy_instance_def request_of_def comp_def)
  then have "answers_with (toy_instance c) ?req s (PList (map PDict ?rows)) s" by (rule toy_answers)
  moreover have item: "\<forall>i\<in>set ?found. inc_configuration_item i = ci"
    by (auto simp: mock_matches_def dest!: in_set_takeD)
  then have "list_all2 incident_row ?rows (map (shown_by toy_display) ?found)"
    using ci by (simp add: list.rel_map list.rel_refl_strong plain_name_def toy_rows(2))
  moreover have "mset ?found \<subseteq># toy_active s ci" unfolding toy_active_def by (rule mset_subset_eq_take)
  moreover have "length ?found = min 10 (size (toy_active s ci))"
    unfolding toy_active_def size_mset by (simp add: min.commute)
  ultimately show "\<exists>rows found. answers_with (toy_instance c) ?req s (PList (map PDict rows)) s \<and>
      list_all2 incident_row rows (map (shown_by toy_display) found) \<and> mset found \<subseteq># toy_active s ci \<and>
      length found = min 10 (size (toy_active s ci)) \<and> list_all (\<lambda>i. inc_configuration_item i = ci) found"
    using item unfolding list_all_iff by blast
qed

lemma toy_files_incidents: "files_incidents (toy_instance c) c toy_active (\<lambda>s. map_of (mk_items s))"
  unfolding files_incidents_def
proof (intro allI impI)
  fix sd description ci urgency :: string and s :: mock
  assume "map_of (mk_items s) ci \<noteq> None"
  then obtain j s' where m: "mock_create (\<lambda>n. ''now'') sd ci urgency description s = (Inr j, s')"
    and j: "mk_incidents s' = mk_incidents s @ [j]" "mk_items s' = mk_items s" "inc_urgency j = urgency"
      "mock_matches (Some ci) True j"
    by (auto simp: mock_create_def Let_def mock_matches_def)
  let ?req = "request_of c ''POST'' ''incident'' None
      (Some [(''short_description'', sd), (''description'', description), (''cmdb_ci'', ci), (''urgency'', urgency),
        (''category'', ''inquiry'')])"
  have "toy_instance c ?req s = (toy_body (PDict (toy_created_row j)), s')"
    by (simp add: toy_instance_def request_of_def m)
  then have "answers_with (toy_instance c) ?req s (PDict (toy_created_row j)) s'" by (rule toy_answers)
  moreover have "created_row (toy_created_row j) urgency j" using toy_rows(3) [of j] j(3) by simp
  moreover have "j \<in># toy_active s' ci" using j by (simp add: toy_active_def)
  ultimately show "\<exists>row j s'. answers_with (toy_instance c) ?req s (PDict row) s' \<and> created_row row urgency j \<and>
      j \<in># toy_active s' ci \<and> map_of (mk_items s') = map_of (mk_items s)"
    using j(2) by metis
qed

lemma toy_table_api: "table_api (toy_instance c) c toy_active toy_display (\<lambda>s. map_of (mk_items s))"
  by (simp add: table_api_def toy_finds_items toy_lists_incidents toy_files_incidents)

text \<open>Raise, then assess, over any instance that keeps the contract.\<close>

lemmas live_flow = incident_tracker.raise_then_assess_tracked [OF live_tracker]

text \<open>Over it the raised incident and the listed one are the same record in two shapes.\<close>

lemma two_shapes:
  "(case raise_shipment_incident (live_servicenow (toy_instance (example_live ''pw'')) (example_live ''pw''))
       (fixtures 0) ''SHP-1002'' ''1'' (init_mock [] []) of
     (Inr summary, net) \<Rightarrow>
       is_state summary = ''1'' \<and> is_urgency summary = ''1'' \<and> is_configuration_item summary = ''a1b2c3d4'' \<and>
       (case assess_shipment_delay (live_servicenow (toy_instance (example_live ''pw'')) (example_live ''pw''))
           (fixtures 0) 0 ''SHP-1002'' net of
         (Inr a, _) \<Rightarrow>
           summary\<lparr>is_state := ''New'', is_urgency := ''1 - level'', is_configuration_item := ''CI-WMS-01''\<rparr> \<in>
             set (da_open_incidents a)
       | _ \<Rightarrow> False)
   | _ \<Rightarrow> False)"
  by code_simp

end
