(* ===== verification/Client.thy ===== *)
theory Client
  imports Governed Main_Program
begin

text \<open>
  \<open>client.py\<close>: the demo client, over a session of the SDK's \<open>Client\<close>, which is a parameter.
  Printing appends to the lines of standard output, so what was printed before a failure
  stays. \<open>talks_to\<close> is the contract that joins a session to a governed server.
\<close>

section \<open>The program\<close>

record tool_info =
  ti_name :: string
  ti_description :: pyval
  ti_input_schema :: pyval

text \<open>The union of resource contents, and the operations of a session over its state.\<close>

datatype content = TextContents string | BlobContents string

record 'c client =
  cl_list_tools :: "'c \<Rightarrow> (exn + tool_info list) \<times> 'c"
  cl_call_tool :: "string \<Rightarrow> pydict \<Rightarrow> 'c \<Rightarrow> (exn + pyval) \<times> 'c"
  cl_read_resource :: "string \<Rightarrow> 'c \<Rightarrow> (exn + content list) \<times> 'c"
  cl_protocol_version :: "'c \<Rightarrow> string"

text \<open>A request leaves the printed lines alone; \<open>print(label, v)\<close> adds one.\<close>

definition sends :: "('c \<Rightarrow> (exn + 'a) \<times> 'c) \<Rightarrow> 'c \<times> string list \<Rightarrow> (exn + 'a) \<times> ('c \<times> string list)" where
  "sends f s = (let (r, c) = f (fst s) in (r, (c, snd s)))"

definition printed :: "string \<Rightarrow> pyval \<Rightarrow> 'c \<times> string list \<Rightarrow> 'c \<times> string list" where
  "printed label v s = (fst s, snd s @ [label @ '' '' @ py_str v])"

text \<open>\<open>next((c.text for c in contents if isinstance(c, TextResourceContents)), None)\<close>.\<close>

fun first_text :: "content list \<Rightarrow> pyval" where
  "first_text [] = PNone"
| "first_text (TextContents t # cs) = PStr t"
| "first_text (BlobContents b # cs) = first_text cs"

definition exercise :: "'c client \<Rightarrow> 'c \<times> string list \<Rightarrow> (exn + unit) \<times> ('c \<times> string list)" where
  "exercise client s0 =
     bindS (sends (cl_list_tools client) s0) (\<lambda>tools s.
     bindS (sends (cl_call_tool client ''get_shipment_status'' [(PStr ''shipment_id'', PStr ''SHP-1002'')])
       (printed ''tools:''
         (PList (map (\<lambda>t. PTuple [PStr (ti_name t), ti_description t, ti_input_schema t]) tools)) s))
       (\<lambda>result s.
     bindS (sends (cl_call_tool client ''list_delayed_shipments'' [(PStr ''threshold_hours'', PInt 24)])
       (printed ''get_shipment_status(SHP-1002) ->'' result s)) (\<lambda>result s.
     bindS (sends (cl_read_resource client ''shipment://SHP-1004'')
       (printed ''list_delayed_shipments(24) ->'' result s)) (\<lambda>contents s.
     (Inr (), printed ''protocol version negotiated:'' (PStr (cl_protocol_version client (fst s)))
       (printed ''shipment detail ->'' (first_text contents) s))))))"

text \<open>
  \<open>main\<close> after argument parsing. \<open>enter\<close> and \<open>leave\<close> are the two ends of
  \<open>async with Client(target, mode=mode)\<close>; importing \<open>mcp\<close> reads the deferred attribute.
\<close>

record client_args =
  ca_http :: bool
  ca_legacy :: bool
  ca_url :: string

definition client_defaults :: client_args where
  "client_defaults = \<lparr>ca_http = False, ca_legacy = False, ca_url = ''http://127.0.0.1:8000/mcp''\<rparr>"

datatype target = UrlTarget string | ServerTarget server

definition with_client ::
  "(target \<Rightarrow> string \<Rightarrow> exn + 'c) \<Rightarrow> ((exn + unit) \<times> 'c \<Rightarrow> exn + unit) \<Rightarrow> 'c client \<Rightarrow> target \<Rightarrow> string
    \<Rightarrow> (exn + unit) \<times> string list"
where
  "with_client enter leave client target mode =
     (case enter target mode of
        Inl e \<Rightarrow> (Inl e, [])
      | Inr c \<Rightarrow> (let (r, (c', out)) = exercise client (c, []) in (leave (r, c'), out)))"

definition client_main ::
  "('k, 'b, 't) outside \<Rightarrow> (target \<Rightarrow> string \<Rightarrow> exn + 'c) \<Rightarrow> ((exn + unit) \<times> 'c \<Rightarrow> exn + unit) \<Rightarrow> 'c client
    \<Rightarrow> client_args \<Rightarrow> module \<Rightarrow> ((exn + unit) \<times> string list) \<times> module"
where
  "client_main sys enter leave client args mo =
     (let mode = (if ca_legacy args then ''legacy'' else ''auto'')
      in if ca_http args then (with_client enter leave client (UrlTarget (ca_url args)) mode, mo)
         else (let (r, mo') = read_mcp sys mo
               in (case r of
                     Inl e \<Rightarrow> ((Inl e, []), mo')
                   | Inr mcp \<Rightarrow> (with_client enter leave client (ServerTarget mcp) mode, mo'))))"

section \<open>What it prints and asks for\<close>

lemma bindS_sends: "bindS (sends f (c, out)) g =
  (case f c of (Inl e, c') \<Rightarrow> (Inl e, (c', out)) | (Inr a, c') \<Rightarrow> g a (c', out))"
  by (simp add: sends_def split: prod.split sum.split)

lemma printed_eq: "printed label v (c, out) = (c, out @ [label @ '' '' @ py_str v])"
  by (simp add: printed_def)

text \<open>The four requests in their order, each from the state the one before left; a run that
  fails stops there, with one line printed per request answered.\<close>

fun requests_run :: "('c \<Rightarrow> exn option \<times> 'c) list \<Rightarrow> 'c \<Rightarrow> exn option \<times> nat \<times> 'c" where
  "requests_run [] c = (None, 0, c)"
| "requests_run (f # fs) c =
     (case f c of
        (Some e, c') \<Rightarrow> (Some e, 0, c')
      | (None, c') \<Rightarrow> (let (r, n, c'') = requests_run fs c' in (r, Suc n, c'')))"

definition failure_of :: "('c \<Rightarrow> (exn + 'a) \<times> 'c) \<Rightarrow> 'c \<Rightarrow> exn option \<times> 'c" where
  "failure_of f c = (case f c of (Inl e, c') \<Rightarrow> (Some e, c') | (Inr _, c') \<Rightarrow> (None, c'))"

definition demo_requests :: "'c client \<Rightarrow> ('c \<Rightarrow> exn option \<times> 'c) list" where
  "demo_requests client =
     [failure_of (cl_list_tools client),
      failure_of (cl_call_tool client ''get_shipment_status'' [(PStr ''shipment_id'', PStr ''SHP-1002'')]),
      failure_of (cl_call_tool client ''list_delayed_shipments'' [(PStr ''threshold_hours'', PInt 24)]),
      failure_of (cl_read_resource client ''shipment://SHP-1004'')]"

lemma exercise_requests:
  "case requests_run (demo_requests client) c of
     (None, n, c') \<Rightarrow> (\<exists>lines. exercise client (c, out) = (Inr (), (c', out @ lines)) \<and> length lines = 5)
   | (Some e, n, c') \<Rightarrow> (\<exists>lines. exercise client (c, out) = (Inl e, (c', out @ lines)) \<and> length lines = n)"
  unfolding exercise_def demo_requests_def
  by (simp add: failure_of_def bindS_sends printed_eq split: prod.split sum.split)

lemma requests_run_keeps:
  assumes "list_all2 (\<lambda>f (w :: nat). \<forall>k c. I k c \<longrightarrow> I (k + w) (snd (f c))) fs ws"
    and "\<And>j k c. I k c \<Longrightarrow> j \<le> k \<Longrightarrow> I j c" and "I k c"
  shows "case requests_run fs c of (r, n, c') \<Rightarrow> I (if r = None then k + sum_list ws else k) (c' :: 'c)"
  using assms(1,3)
proof (induction fs ws arbitrary: k c rule: list_all2_induct)
  case Nil
  then show ?case by simp
next
  case (Cons f fs w ws)
  obtain r c1 where f: "f c = (r, c1)" by fastforce
  with Cons.hyps(1) Cons.prems have c1: "I (k + w) c1" by force
  obtain r2 n2 c2 where rest: "requests_run fs c1 = (r2, n2, c2)" by (metis prod_cases3)
  from Cons.IH [OF c1] rest have "I (if r2 = None then k + w + sum_list ws else k + w) c2" by simp
  moreover have "I k c'" if "I (k + w) c'" for c' using assms(2) [OF that, of k] by simp
  ultimately show ?case using f rest c1 by (auto split: option.split simp: add.assoc)
qed

section \<open>Against a governed server\<close>

text \<open>
  A request of the client reaches the middleware as one or more messages with the caller's
  token: at least one of the kind asked for, the others outside the gates (the SDK may list
  the tools to validate a result).
\<close>

definition ungated :: "ctx \<Rightarrow> bool" where
  "ungated ctx \<longleftrightarrow> c_method ctx \<notin> {Some ''tools/call'', Some ''resources/read''}"

definition carried_by ::
  "middleware \<Rightarrow> env_inputs \<Rightarrow> 'w handler \<Rightarrow> 't access_token option \<Rightarrow> (ctx \<Rightarrow> bool)
    \<Rightarrow> ('w mstate \<Rightarrow> 'w mstate) \<Rightarrow> bool"
where
  "carried_by m orc call_next token asked f \<longleftrightarrow>
     (\<forall>st. \<exists>ctxs. list_all (\<lambda>ctx. asked ctx \<or> ungated ctx) ctxs \<and> list_ex asked ctxs \<and>
        f st = snd (run_session m orc call_next (map (Pair token) ctxs) st))"

definition talks_to ::
  "middleware \<Rightarrow> env_inputs \<Rightarrow> 'w handler \<Rightarrow> 't access_token option \<Rightarrow> 'w mstate client \<Rightarrow> bool"
where
  "talks_to m orc call_next token client \<longleftrightarrow>
     carried_by m orc call_next token (\<lambda>ctx. c_method ctx = Some ''tools/list'')
       (\<lambda>st. snd (cl_list_tools client st)) \<and>
     (\<forall>tool args. carried_by m orc call_next token
       (\<lambda>ctx. c_method ctx = Some ''tools/call'' \<and> call_tool_name ctx = tool \<and>
          dict_get (params_of ctx) ''arguments'' = PDict args)
       (\<lambda>st. snd (cl_call_tool client tool args st))) \<and>
     (\<forall>uri. carried_by m orc call_next token
       (\<lambda>ctx. c_method ctx = Some ''resources/read'' \<and> dict_get_or (params_of ctx) ''uri'' (PStr []) = PStr uri)
       (\<lambda>st. snd (cl_read_resource client uri st)))"

text \<open>What a reader's requests leave: the mock as it was, and only records of permissions.\<close>

definition quiet :: "string \<Rightarrow> 'w mstate \<Rightarrow> nat \<Rightarrow> 'w mstate \<Rightarrow> bool" where
  "quiet h st k st' \<longleftrightarrow> logging h st' \<and> ms_world st' = ms_world st \<and>
     (\<exists>j\<ge>k. trail st' = trail st @ replicate j INFO)"

definition within_reader :: "ctx \<Rightarrow> bool" where
  "within_reader ctx \<longleftrightarrow>
     c_method ctx = Some ''tools/call'' \<and> wire_call ctx \<and>
       call_tool_name ctx \<in> set registered_tools - {''raise_shipment_incident''} \<or>
     c_method ctx = Some ''resources/read'' \<and>
       prefix ''shipment://'' (py_str (dict_get_or (params_of ctx) ''uri'' (PStr [])))"

lemma reader_request:
  assumes "serves_tools ticks db call_next" and "''tlo.reader'' \<in> set (roles_from_token token)"
    and "within_reader ctx \<or> ungated ctx" and "quiet h st0 k st"
  shows "quiet h st0 (k + of_bool (within_reader ctx)) (snd (handle shipped_mw orc token ctx call_next st))"
proof -
  let ?st = "snd (handle shipped_mw orc token ctx call_next st)"
  have log: "logging h st" using assms(4) by (simp add: quiet_def)
  have w: "wire_request (token, ctx)"
    using assms(3) by (auto simp: wire_request_def within_reader_def ungated_def)
  have e: "mw_enforce shipped_mw" and p: "mw_policy shipped_mw = shipped_policy" by (simp_all add: shipped_mw_def)
  have "\<not> may_raise (token, ctx)"
    using assms(3) by (auto simp: may_raise_def within_reader_def ungated_def)
  then have "ms_world ?st = ms_world st" using incident_step(1) [OF assms(1)] by metis
  moreover have "request_trail shipped_mw (token, ctx) = replicate (of_bool (within_reader ctx)) INFO"
    using assms(2,3) e p shipped_call_decision [of token ctx]
    by (auto simp: request_trail_def within_reader_def ungated_def verdict_trail_def gate_verdict_def
        decision_level_of_def read_decision_def shipped_resource_access)
  moreover have "logging h ?st" by (rule handle_keeps_logging [OF log])
  ultimately show ?thesis
    using assms(4) handle_step(2) [OF w log, of shipped_mw orc call_next]
    by (auto simp: quiet_def replicate_append_same intro!: exI [of _ "j + of_bool (within_reader ctx)" for j])
qed

lemma quiet_mono: "quiet h st k st' \<Longrightarrow> j \<le> k \<Longrightarrow> quiet h st j st'"
  by (auto simp: quiet_def intro: le_trans)

lemma reader_session:
  assumes "serves_tools ticks db call_next" and "''tlo.reader'' \<in> set (roles_from_token token)"
    and "list_all (\<lambda>ctx. within_reader ctx \<or> ungated ctx) ctxs" and "quiet h st0 k st"
  shows "quiet h st0 (k + of_bool (list_ex within_reader ctxs))
    (snd (run_session shipped_mw orc call_next (map (Pair token) ctxs) st))"
  using assms(3,4)
proof (induction ctxs arbitrary: k st)
  case Nil
  then show ?case by simp
next
  case (Cons ctx ctxs)
  let ?st = "snd (handle shipped_mw orc token ctx call_next st)"
  have "quiet h st0 (k + of_bool (within_reader ctx)) ?st"
    using reader_request [OF assms(1,2) _ Cons.prems(2)] Cons.prems(1) by simp
  from Cons.IH [OF _ this] Cons.prems(1)
  have "quiet h st0 (k + of_bool (within_reader ctx) + of_bool (list_ex within_reader ctxs))
      (snd (run_session shipped_mw orc call_next (map (Pair token) ctxs) ?st))" by simp
  then have "quiet h st0 (k + of_bool (within_reader ctx \<or> list_ex within_reader ctxs))
      (snd (run_session shipped_mw orc call_next (map (Pair token) ctxs) ?st))"
    by (rule quiet_mono) simp
  then show ?case by (simp add: split_beta Let_def)
qed

lemma carried_quiet:
  assumes "carried_by shipped_mw orc call_next token asked f"
    and "serves_tools ticks db call_next" and "''tlo.reader'' \<in> set (roles_from_token token)"
    and "\<And>ctx. asked ctx \<Longrightarrow> within_reader ctx \<or> ungated ctx" and "quiet h st0 k st"
  shows "quiet h st0 k (f st)" and "(\<And>ctx. asked ctx \<Longrightarrow> within_reader ctx) \<Longrightarrow> quiet h st0 (k + 1) (f st)"
proof -
  obtain ctxs where a: "list_all (\<lambda>ctx. asked ctx \<or> ungated ctx) ctxs" "list_ex asked ctxs"
    and f: "f st = snd (run_session shipped_mw orc call_next (map (Pair token) ctxs) st)"
    using assms(1) unfolding carried_by_def by blast
  from a(1) assms(4) have all: "list_all (\<lambda>ctx. within_reader ctx \<or> ungated ctx) ctxs"
    by (auto simp: list_all_iff)
  note q = reader_session [OF assms(2,3) all assms(5), of orc, folded f]
  from quiet_mono [OF q] show "quiet h st0 k (f st)" by simp
  assume "\<And>ctx. asked ctx \<Longrightarrow> within_reader ctx"
  with a(2) have "list_ex within_reader ctxs" by (auto simp: list_ex_iff)
  with q show "quiet h st0 (k + 1) (f st)" by simp
qed

lemma snd_failure_of: "snd (failure_of f c) = snd (f c)"
  by (simp add: failure_of_def split: prod.split sum.split)

lemma demo_quiet:
  assumes "talks_to shipped_mw orc call_next token client" and "serves_tools ticks db call_next"
    and "''tlo.reader'' \<in> set (roles_from_token token)"
  shows "list_all2 (\<lambda>f w. \<forall>k st. quiet h st0 k st \<longrightarrow> quiet h st0 (k + w) (snd (f st)))
    (demo_requests client) [0, 1, 1, 1]"
proof -
  have tools: "''get_shipment_status'' \<in> set registered_tools" "''list_delayed_shipments'' \<in> set registered_tools"
    by (simp_all add: registered_tools_def)
  have call: "quiet h st0 (k + 1) (snd (cl_call_tool client tool args st))"
    if "quiet h st0 k st" "tool \<in> set registered_tools" "tool \<noteq> ''raise_shipment_incident''" "str_keyed args"
    for tool args k st
    by (rule carried_quiet(2) [OF assms(1) [unfolded talks_to_def, THEN conjunct2, THEN conjunct1, rule_format, of tool args]
        assms(2,3) _ that(1)])
      (use that in \<open>auto simp: within_reader_def wire_call_def wire_args_def\<close>)
  have read: "quiet h st0 (k + 1) (snd (cl_read_resource client (''shipment://'' @ s) st))"
    if "quiet h st0 k st" for s k st
    by (rule carried_quiet(2) [OF assms(1) [unfolded talks_to_def, THEN conjunct2, THEN conjunct2, rule_format,
        of "''shipment://'' @ s"] assms(2,3) _ that]) (auto simp: within_reader_def)
  have listing: "quiet h st0 k (snd (cl_list_tools client st))" if "quiet h st0 k st" for k st
    by (rule carried_quiet(1) [OF assms(1) [unfolded talks_to_def, THEN conjunct1] assms(2,3) _ that])
      (auto simp: ungated_def)
  show ?thesis
    using call tools read [of _ _ "''SHP-1004''"] listing
    by (simp add: demo_requests_def snd_failure_of str_keyed_def)
qed

text \<open>The in-memory mode talks to the module's own server, which carries no middleware.\<close>

lemma in_memory_is_ungoverned:
  assumes "\<not> ca_http args" and "mo_mcp mo = None" and "read_mcp sys mo = (Inr srv, mo')"
  shows "client_main sys enter leave client args mo =
      (with_client enter leave client (ServerTarget srv) (if ca_legacy args then ''legacy'' else ''auto''), mo')"
    and "sv_verifier srv = None" and "sv_middleware srv = []"
  using assms mcp_built_once [OF assms(3), of sys] by (simp_all add: client_main_def)

section \<open>An instance\<close>

text \<open>A session that sends each request once and reports a refusal as the error.\<close>

definition relay :: "'a \<Rightarrow> (exn + response) \<times> 's \<Rightarrow> (exn + 'a) \<times> 's" where
  "relay a out = (bindE (fst out) (\<lambda>_. Inr a), snd out)"

definition example_client ::
  "middleware \<Rightarrow> env_inputs \<Rightarrow> 'w handler \<Rightarrow> 't access_token option \<Rightarrow> 'w mstate client"
where
  "example_client m orc call_next token =
     \<lparr>cl_list_tools = (\<lambda>st. relay [] (handle m orc token
        \<lparr>c_method = Some ''tools/list'', c_params = PNone, c_protocol_version = None\<rparr> call_next st)),
      cl_call_tool = (\<lambda>tool args st. relay PNone (handle m orc token
        \<lparr>c_method = Some ''tools/call'',
         c_params = PDict [(PStr ''name'', PStr tool), (PStr ''arguments'', PDict args)],
         c_protocol_version = None\<rparr> call_next st)),
      cl_read_resource = (\<lambda>uri st. relay [TextContents uri] (handle m orc token (gate_read uri) call_next st)),
      cl_protocol_version = (\<lambda>st. ''2026-07-28'')\<rparr>"

lemma carried_once:
  assumes "asked ctx" and "\<And>st. f st = snd (handle m orc token ctx call_next st)"
  shows "carried_by m orc call_next token asked f"
  unfolding carried_by_def using assms by (intro allI exI [of _ "[ctx]"]) (simp add: split_beta Let_def)

lemma example_talks: "talks_to m orc call_next token (example_client m orc call_next token)"
  unfolding talks_to_def
  by (intro conjI allI; rule carried_once)
    (auto simp: example_client_def relay_def call_tool_name_def params_of_def dict_get_def dict_get_or_def gate_read_def)

text \<open>What a reader is permitted is answered by the handler.\<close>

lemma reader_answered:
  assumes "''tlo.reader'' \<in> set (roles_from_token token)" and "within_reader ctx"
  shows "fst (handle shipped_mw orc token ctx call_next st) = fst (call_next ctx (ms_world st))"
proof -
  have e: "mw_enforce shipped_mw" and p: "mw_policy shipped_mw = shipped_policy" by (simp_all add: shipped_mw_def)
  from assms(2) consider
      (call) "c_method ctx = Some ''tools/call''" "wire_call ctx"
        "call_tool_name ctx \<in> set registered_tools" "call_tool_name ctx \<noteq> ''raise_shipment_incident''"
    | (read) "c_method ctx = Some ''resources/read''"
        "prefix ''shipment://'' (py_str (dict_get_or (params_of ctx) ''uri'' (PStr [])))"
    by (auto simp: within_reader_def)
  then show ?thesis
  proof cases
    case call
    with assms(1) have "gate_verdict shipped_mw token ctx = Runs"
      by (simp add: gate_verdict_iff shipped_call_decision)
    from granted_call(1) [OF e call(1,2) this] show ?thesis .
  next
    case read
    with assms(1) p have "d_allowed (read_decision shipped_mw token ctx)"
      by (auto simp: read_decision_def shipped_resource_access)
    with guard_resource_read_gate [where m = shipped_mw and token = token and ctx = ctx and orc = orc
        and call_next = call_next and st = st and h = "[]"] have
      "fst (guard_resource_read shipped_mw orc token ctx call_next st) = fst (call_next ctx (ms_world st))"
      by (metis fst_conv)
    with read(1) show ?thesis by (simp add: handle_def)
  qed
qed

lemma requests_run_ok: "list_all (\<lambda>f. \<forall>c. fst (f c) = None) fs \<Longrightarrow> fst (requests_run fs c) = None"
proof (induction fs arbitrary: c)
  case (Cons f fs)
  obtain c' where "f c = (None, c')" using Cons.prems by (cases "f c") (simp, metis fst_conv)
  with Cons.IH [of c'] Cons.prems show ?case by (auto split: prod.split)
qed simp

lemma example_demo_runs:
  "\<exists>st' out. exercise (example_client shipped_mw gate_env example_dispatch (gate_token ''tlo.reader''))
     (example_mock_state, []) = (Inr (), (st', out))"
proof -
  let ?c = "example_client shipped_mw gate_env example_dispatch (gate_token ''tlo.reader'')"
  have role: "''tlo.reader'' \<in> set (roles_from_token (gate_token ''tlo.reader''))" by code_simp
  have answered: "is_ok (fst (handle shipped_mw gate_env (gate_token ''tlo.reader'') ctx example_dispatch st))"
    if "within_reader ctx" for ctx st
    using reader_answered [OF role that, of gate_env example_dispatch st] example_dispatch_ok by simp
  have call: "fst (failure_of (cl_call_tool ?c tool args) st) = None"
    if "tool \<in> set registered_tools" "tool \<noteq> ''raise_shipment_incident''" "str_keyed args" for tool args st
    unfolding failure_of_def example_client_def
    using that answered [of "\<lparr>c_method = Some ''tools/call'',
         c_params = PDict [(PStr ''name'', PStr tool), (PStr ''arguments'', PDict args)],
         c_protocol_version = None\<rparr>" st]
    by (auto simp: relay_def is_ok_iff within_reader_def wire_call_def wire_args_def call_tool_name_def
        params_of_def dict_get_def dict_get_or_def)
  have read: "fst (failure_of (cl_read_resource ?c (''shipment://'' @ s)) st) = None" for s st
    unfolding failure_of_def example_client_def
    using answered [of "gate_read (''shipment://'' @ s)" st]
    by (auto simp: relay_def is_ok_iff within_reader_def gate_read_def params_of_def dict_get_or_def)
  have listing: "fst (failure_of (cl_list_tools ?c) st) = None" for st
    by (simp add: failure_of_def example_client_def relay_def handle_def filter_tool_list_eq example_dispatch_def
        serve_def example_sdk_def filter_response_def)
  have "list_all (\<lambda>f. \<forall>st. fst (f st) = None) (demo_requests ?c)"
    using call read [of "''SHP-1004''"] listing
    by (simp add: demo_requests_def registered_tools_def str_keyed_def)
  from requests_run_ok [OF this, of example_mock_state]
    exercise_requests [of ?c example_mock_state "[]"]
  show ?thesis by (auto split: prod.splits option.splits)
qed

section \<open>Properties\<close>

text \<open>C32: the demo needs no more than the reader role: over a governed server with the shipped
  policy, whatever the SDK makes of the answers, the demo run by a reader files no incident,
  is refused nothing and asked nothing, so every audit record it leaves is a permission; and
  when it runs to its end, at least the two calls and the read are on record and it has printed
  its five lines.\<close>

theorem demo_needs_only_reader:
  assumes "talks_to shipped_mw orc call_next token client" and "serves_tools ticks db call_next"
    and "''tlo.reader'' \<in> set (roles_from_token token)" and "logging h st"
    and "exercise client (st, out) = (r, (st', out'))"
  shows "ms_world st' = ms_world st \<and>
    (\<exists>n. trail st' = trail st @ replicate n INFO \<and> (r = Inr () \<longrightarrow> 3 \<le> n \<and> length out' = length out + 5))"
proof -
  obtain e n c where run: "requests_run (demo_requests client) st = (e, n, c)" by (metis prod_cases3)
  have "quiet h st 0 st" using assms(4) by (simp add: quiet_def)
  then have "case requests_run (demo_requests client) st of
      (r, n, c') \<Rightarrow> quiet h st (if r = None then 0 + sum_list [0, 1, 1, 1] else 0) c'"
    by (intro requests_run_keeps [where I = "quiet h st", OF demo_quiet [OF assms(1-3)]]) (rule quiet_mono)
  with run have q: "quiet h st (if e = None then 3 else 0) c" by (cases e) (simp_all add: numeral_3_eq_3)
  have "st' = c \<and> (r = Inr () \<longrightarrow> e = None \<and> length out' = length out + 5)"
    using exercise_requests [of client st out] run assms(5) by (auto split: option.splits)
  with q show ?thesis by (auto simp: quiet_def split: if_splits)
qed

theorem demo_needs_only_reader_witness:
  "\<exists>out st'. exercise (example_client shipped_mw gate_env example_dispatch (gate_token ''tlo.reader''))
      (example_mock_state, []) = (Inr (), (st', out)) \<and>
    ms_world st' = init_mock [] [] \<and> length out = 5 \<and> 3 \<le> length (trail st')"
proof -
  let ?c = "example_client shipped_mw gate_env example_dispatch (gate_token ''tlo.reader'')"
  obtain st' out where run: "exercise ?c (example_mock_state, []) = (Inr (), (st', out))"
    using example_demo_runs by blast
  have role: "''tlo.reader'' \<in> set (roles_from_token (gate_token ''tlo.reader''))" by code_simp
  have log: "logging ''stdout'' example_mock_state"
    by (simp add: logging_def example_mock_state_def example_sink_def configure_def)
  from demo_needs_only_reader [OF example_talks example_serves role log run] run show ?thesis
    by (auto simp: example_mock_state_def)
qed

end
