(* ===== verification/Conformance.thy ===== *)
theory Conformance
  imports LiveGoverned DevIdp ShippedPolicy
begin

text \<open>
  The repository's own tests on the model: each lemma has the name of a test function under
  \<open>tests/\<close> and states its assertions, evaluated on the definitions. Real keys and PyJWT are
  those of theory DevIdp in the small; the tool calls go through the middleware with the shipped
  policy to the tools over the mock. The tests that need a socket or the SDK's challenge are not
  here; that a client cannot make a sealed state up is the SDK's.
\<close>

section \<open>Raising\<close>

text \<open>\<open>pytest.raises(.., match=..)\<close>: the exception's text contains the pattern.\<close>

definition message_of :: "exn \<Rightarrow> string" where
  "message_of e =
     (case e of PolicyError m \<Rightarrow> m | ApprovalError m \<Rightarrow> m | MCPError _ m _ \<Rightarrow> m | RequestStateKeyError m \<Rightarrow> m
      | ServiceNowError m \<Rightarrow> m | ValueError m \<Rightarrow> m | _ \<Rightarrow> [])"

definition raises_matching :: "string \<Rightarrow> exn + 'a \<Rightarrow> bool" where
  "raises_matching pattern r \<longleftrightarrow> (case r of Inl e \<Rightarrow> sublist pattern (message_of e) | Inr _ \<Rightarrow> False)"

definition raises_denied :: "exn + 'a \<Rightarrow> bool" where
  "raises_denied r \<longleftrightarrow> (case r of Inl (MCPError code _ _) \<Rightarrow> code = AUTHORIZATION_DENIED | _ \<Rightarrow> False)"

section \<open>\<open>test_authorization.py\<close>: tokens\<close>

type_synonym test_token = "pydict \<times> nat option \<times> string option \<times> pydict"

definition test_idp :: "nat devidp" where
  "test_idp = projr (fst (init_devidp toy_crypto 7 DEV_ISSUER DEV_AUDIENCE None []
     \<lparr>fs_content = Map.empty, fs_mode = (\<lambda>_. 0)\<rparr>))"

definition test_verifier :: verifier where
  "test_verifier = projr (init_verifier (di_issuer test_idp) (di_audience test_idp) ALLOWED_ALGORITHMS 60)"

definition verify_issued_at :: "int \<Rightarrow> test_token \<Rightarrow> test_token access_token option" where
  "verify_issued_at now token = projr (fst (verify_token (static_key_for toy_header toy_pyjwk) (toy_decode now)
     (\<lambda>_. []) test_verifier token (jwks toy_crypto test_idp)))"

abbreviation test_issue :: "nat issue_args \<Rightarrow> test_token" where
  "test_issue \<equiv> issue toy_crypto test_idp 1000"

lemma test_valid_token_is_accepted:
  "case verify_issued_at 1000 (test_issue (issue_defaults\<lparr>ia_subject := ''ops@example.com'',
      ia_roles := Some [''tlo.reader'']\<rparr>)) of
     None \<Rightarrow> False
   | Some t \<Rightarrow> at_subject t = Some ''ops@example.com'' \<and> roles_from_token (Some t) = [''tlo.reader''] \<and>
       PStr ''mcp.invoke'' \<in> set (at_scopes t)"
  by code_simp

lemma test_token_for_another_audience_is_rejected:
  "verify_issued_at 1000 (test_issue (issue_defaults\<lparr>ia_audience := Some ''api://some-other-service''\<rparr>)) = None"
  by code_simp

lemma test_token_from_another_issuer_is_rejected:
  "verify_issued_at 1000 (test_issue (issue_defaults
     \<lparr>ia_issuer := Some ''https://login.microsoftonline.local/other/v2.0''\<rparr>)) = None"
  by code_simp

lemma test_expired_token_is_rejected:
  "verify_issued_at 1000 (expired toy_crypto test_idp 1000 (issue_defaults\<lparr>ia_roles := Some [''tlo.reader'']\<rparr>) False) = None"
  by code_simp

lemma test_token_signed_by_the_wrong_key_is_rejected:
  "verify_issued_at 1000 (test_issue (issue_defaults\<lparr>ia_roles := Some [''tlo.reader''], ia_key := Some 8\<rparr>)) = None"
  by code_simp

lemma test_unsigned_token_is_rejected:
  "verify_issued_at 1000 (test_issue (issue_defaults\<lparr>ia_roles := Some [''platform.admin''], ia_algorithm := ''none''\<rparr>)) = None"
  by code_simp

lemma test_hmac_algorithm_is_not_configurable:
  "raises_matching ''non-asymmetric'' (init_verifier ''https://example.test'' ''api://x'' [''HS256''] 60)"
  by code_simp

lemma test_token_missing_required_claims_is_rejected:
  "verify_issued_at 1000 (test_issue (issue_defaults\<lparr>ia_roles := Some [''tlo.reader''], ia_omit := [''sub'']\<rparr>)) = None"
  by code_simp

section \<open>\<open>test_authorization.py\<close>: policy decisions\<close>

definition test_rule :: "string list \<Rightarrow> pyval" where
  "test_rule roles = PDict [(PStr ''classification'', PStr ''internal''), (PStr ''allow_roles'', PList (map PStr roles))]"

definition test_doc :: pydict where
  "test_doc =
     [(PStr ''version'', PInt 1), (PStr ''default'', PStr ''deny''),
      (PStr ''roles'', PDict
        [(PStr ''tlo.reader'', PDict [(PStr ''description'', PStr ''read only'')]),
         (PStr ''tlo.operator'', PDict [(PStr ''description'', PStr ''read and act'')])]),
      (PStr ''tools'', PDict
        [(PStr ''get_shipment_status'', test_rule [''tlo.reader'', ''tlo.operator'']),
         (PStr ''list_delayed_shipments'', test_rule [''tlo.operator''])]),
      (PStr ''resources'', PDict [(PStr ''shipment://*'', test_rule [''tlo.reader''])])]"

definition test_policy :: policy where
  "test_policy = projr (from_mapping (PDict test_doc) ''<test>'')"

lemma test_policy_loads: "is_ok (from_mapping (PDict test_doc) ''<test>'')"
  by code_simp

lemma test_role_grants_access: "d_allowed (decide_tool test_policy ''get_shipment_status'' [''tlo.reader''])"
  by code_simp

lemma test_wrong_role_is_denied:
  "\<not> d_allowed (decide_tool test_policy ''list_delayed_shipments'' [''tlo.reader''])"
  "d_required_roles (decide_tool test_policy ''list_delayed_shipments'' [''tlo.reader'']) = [''tlo.operator'']"
  by code_simp+

lemma test_no_roles_is_denied: "\<not> d_allowed (decide_tool test_policy ''get_shipment_status'' [])"
  by code_simp

lemma test_unlisted_tool_is_denied_by_default:
  "\<not> d_allowed (decide_tool test_policy ''delete_everything'' [''tlo.operator''])"
  "sublist ''default deny'' (d_reason (decide_tool test_policy ''delete_everything'' [''tlo.operator'']))"
  by code_simp+

lemma test_resource_glob_matches:
  "d_allowed (decide_resource test_policy ''shipment://SHP-1001'' [''tlo.reader''])"
  "\<not> d_allowed (decide_resource test_policy ''secret://keys'' [''tlo.reader''])"
  by code_simp+

lemma test_visible_tools_is_scoped_to_roles:
  "visible_tools test_policy [''tlo.reader''] = {''get_shipment_status''}"
  "visible_tools test_policy [''tlo.operator''] = {''get_shipment_status'', ''list_delayed_shipments''}"
  "visible_tools test_policy [] = {}"
  by code_simp+

lemma test_classification_is_carried_into_the_decision:
  "d_classification (decide_tool test_policy ''get_shipment_status'' [''tlo.reader'']) = Some ''internal''"
  by code_simp

section \<open>\<open>test_authorization.py\<close>: documents refused at startup\<close>

definition one_tool_doc :: "string \<Rightarrow> pydict \<Rightarrow> pyval" where
  "one_tool_doc role rule =
     PDict [(PStr ''version'', PInt 1), (PStr ''roles'', PDict [(PStr role, PDict [])]),
       (PStr ''tools'', PDict [(PStr ''t'', PDict rule)])]"

lemma test_undeclared_role_fails_to_load:
  "raises_matching ''undeclared role''
     (from_mapping (one_tool_doc ''tlo.reader'' [(PStr ''allow_roles'', PList [PStr ''tlo.raeder''])]) ''<memory>'')"
  by code_simp

lemma test_allow_by_default_is_refused:
  "raises_matching ''default''
     (from_mapping (PDict [(PStr ''version'', PInt 1), (PStr ''default'', PStr ''allow''), (PStr ''roles'', PDict []),
       (PStr ''tools'', PDict [])]) ''<memory>'')"
  by code_simp

lemma test_unknown_classification_is_refused:
  "raises_matching ''classification''
     (from_mapping (one_tool_doc ''r'' [(PStr ''classification'', PStr ''top-secret''),
       (PStr ''allow_roles'', PList [PStr ''r''])]) ''<memory>'')"
  by code_simp

lemma test_unsupported_version_is_refused:
  "raises_matching ''version'' (from_mapping (PDict [(PStr ''version'', PInt 99)]) ''<memory>'')"
  by code_simp

lemma test_shipped_policy_file_is_valid:
  "\<exists>p. from_mapping (PDict shipped_doc) ''policy.yaml'' = Inr p \<and> map_of (p_tools p) ''get_shipment_status'' \<noteq> None \<and>
     p_declared_roles p \<noteq> {}"
proof -
  have "case from_mapping (PDict shipped_doc) ''policy.yaml'' of Inl _ \<Rightarrow> False
      | Inr p \<Rightarrow> map_of (p_tools p) ''get_shipment_status'' \<noteq> None \<and> p_declared_roles p \<noteq> {}"
    by code_simp
  then show ?thesis by (simp split: sum.splits)
qed

section \<open>\<open>test_authorization.py\<close> and \<open>test_tlo_flow.py\<close>: through the server\<close>

text \<open>An SDK whose result is the structured content the tests look at.\<close>

definition content_of :: "tool_result \<Rightarrow> pyval" where
  "content_of v =
     (case v of
        StatusResult r \<Rightarrow> PDict [(PStr ''id'', PStr (ss_id r)), (PStr ''status'', PStr (ss_status r))]
      | AssessmentResult a \<Rightarrow> PDict [(PStr ''delayed'', PBool (da_delayed a)),
          (PStr ''configuration_item'', PStr (da_configuration_item a)),
          (PStr ''open_incidents'', PList (map (\<lambda>i. PStr (is_number i)) (da_open_incidents a))),
          (PStr ''recommendation'', PStr (da_recommendation a))]
      | FiledResult i \<Rightarrow> PDict [(PStr ''number'', PStr (is_number i)),
          (PStr ''configuration_item'', PStr (is_configuration_item i))]
      | _ \<Rightarrow> PNone)"

definition test_sdk :: sdk where
  "test_sdk = example_sdk\<lparr>sd_result := (\<lambda>v. Wire (content_of v)), sd_error := Inl\<rparr>"

definition content :: "exn + response \<Rightarrow> string \<Rightarrow> pyval" where
  "content r k = (case r of Inr (Wire (PDict d)) \<Rightarrow> dict_get d k | _ \<Rightarrow> PNone)"

text \<open>One call by a holder of a role, or by nobody, over a fresh mock.\<close>

definition call_as :: "bool \<Rightarrow> string access_token option \<Rightarrow> ctx \<Rightarrow> (exn + response) \<times> mock mstate" where
  "call_as enforce token ctx =
     handle (shipped_mw\<lparr>mw_enforce := enforce\<rparr>) gate_env token ctx
       (serve test_sdk (mock_servicenow (\<lambda>n. ''now'')) (fixtures 0) (\<lambda>ctx w. 0)) example_mock_state"

abbreviation status_request :: ctx where
  "status_request \<equiv> tool_request ''get_shipment_status'' [(PStr ''shipment_id'', PStr ''SHP-1002'')] []"

definition assess_request :: "string \<Rightarrow> ctx" where
  "assess_request shipment_id = tool_request ''assess_shipment_delay'' [(PStr ''shipment_id'', PStr shipment_id)] []"

definition raising_request :: "pydict \<Rightarrow> ctx" where
  "raising_request extra = tool_request ''raise_shipment_incident''
     [(PStr ''shipment_id'', PStr ''SHP-1004''), (PStr ''urgency'', PStr ''2'')] extra"

text \<open>A retry that brings back the state with an \<open>ElicitResult\<close>.\<close>

definition elicited :: "string \<Rightarrow> pydict \<Rightarrow> pydict" where
  "elicited action rest =
     [(PStr ''inputResponses'', PDict [(PStr ''approval'', PDict ((PStr ''action'', PStr action) # rest))])]"

definition approving :: "bool \<Rightarrow> pydict" where
  "approving yes = elicited ''accept'' [(PStr ''content'', PDict [(PStr ''approve'', PBool yes)])]"

definition handed_back :: pydict where
  "handed_back = [(PStr ''requestState'', PStr ''awaiting-approval:raise_shipment_incident:n0'')]"

lemma test_authorized_call_succeeds:
  "content (fst (call_as True (gate_token ''tlo.reader'') status_request)) ''status'' = PStr ''delayed''"
  by code_simp

lemma test_call_without_the_required_role_is_refused_before_the_handler_runs:
  "raises_denied (fst (call_as True (gate_token ''some.unrelated.role'') status_request))"
  by code_simp

lemma test_anonymous_call_is_refused: "raises_denied (fst (call_as True None status_request))"
  by code_simp

lemma test_shadow_mode_audits_without_blocking:
  "content (fst (call_as False (gate_token ''some.unrelated.role'') status_request)) ''id'' = PStr ''SHP-1002''"
  by code_simp

lemma test_tool_listing_is_filtered_to_the_callers_roles:
  "visible_tools shipped_policy [''some.unrelated.role''] = {}"
  by code_simp

lemma test_assessment_recommends_enriching_an_existing_incident:
  "case fst (call_as True (gate_token ''tlo.reader'') (assess_request ''SHP-1002'')) of r \<Rightarrow>
     content r ''delayed'' = PBool True \<and> content r ''configuration_item'' = PStr ''CI-WMS-01'' \<and>
     truthy (content r ''open_incidents'') \<and> sublist ''Enrich'' (py_str (content r ''recommendation''))"
  by code_simp

lemma test_assessment_recommends_raising_when_nothing_is_open:
  "case fst (call_as True (gate_token ''tlo.reader'') (assess_request ''SHP-1004'')) of r \<Rightarrow>
     content r ''open_incidents'' = PList [] \<and>
     sublist ''Raise a new incident'' (py_str (content r ''recommendation''))"
  by code_simp

lemma test_a_reader_may_assess_but_not_raise:
  "is_ok (fst (call_as True (gate_token ''tlo.reader'') (assess_request ''SHP-1004'')))"
  "raises_denied (fst (call_as True (gate_token ''tlo.reader'') (raising_request (approving True @ handed_back))))"
  by code_simp+

lemma test_operator_raising_an_incident_is_gated_then_allowed:
  "case fst (call_as True (gate_token ''tlo.operator'') (raising_request [])) of
     Inr (InputRequired _ _ _ s) \<Rightarrow> [(PStr ''requestState'', PStr s)] = handed_back | _ \<Rightarrow> False"
  "case fst (call_as True (gate_token ''tlo.operator'') (raising_request (approving True @ handed_back))) of r \<Rightarrow>
     prefix ''INC'' (py_str (content r ''number'')) \<and> content r ''configuration_item'' = PStr ''CI-TMS-02''"
  by code_simp+

lemma test_a_declined_approval_stops_the_call:
  "raises_denied (fst (call_as True (gate_token ''tlo.operator'') (raising_request (elicited ''decline'' [] @ handed_back))))"
  by code_simp

lemma test_answering_no_stops_the_call:
  "raises_denied (fst (call_as True (gate_token ''tlo.operator'') (raising_request (approving False @ handed_back))))"
  by code_simp

lemma test_nothing_is_created_when_approval_is_refused:
  "mk_incidents (ms_world (snd (call_as True (gate_token ''tlo.operator'')
      (raising_request (elicited ''decline'' [] @ handed_back))))) = mk_incidents (ms_world example_mock_state)"
  by code_simp

lemma test_answers_without_any_state_are_rejected:
  "raises_matching ''not approved'' (fst (call_as True (gate_token ''tlo.operator'') (raising_request (approving True))))"
  by code_simp

lemma test_every_tool_has_a_policy_entry:
  "list_all (\<lambda>tool. map_of (p_tools shipped_policy) tool \<noteq> None) registered_tools"
  by code_simp

section \<open>\<open>test_tlo_flow.py\<close>: the connector\<close>

lemma test_mock_finds_a_seeded_configuration_item:
  "case fst (mock_find ''CI-WMS-01'' (init_mock [] [])) of Inr (Some _) \<Rightarrow> True | _ \<Rightarrow> False"
  "fst (mock_find ''CI-NOPE'' (init_mock [] [])) = Inr None"
  by code_simp+

lemma test_mock_creates_and_then_finds_an_incident:
  "case mock_create (\<lambda>n. ''now'') ''test'' ''CI-TMS-02'' ''2'' [] (init_mock [] []) of
     (Inr created, s) \<Rightarrow> prefix ''INC'' (inc_number created) \<and>
       (case fst (mock_search (Some ''CI-TMS-02'') True 10 s) of
          Inr found \<Rightarrow> inc_number created \<in> set (map inc_number found) | _ \<Rightarrow> False)
   | _ \<Rightarrow> False"
  by code_simp

lemma test_incident_against_an_unknown_ci_is_refused:
  "raises_matching ''no configuration item''
     (fst (mock_create (\<lambda>n. ''now'') ''x'' ''CI-DOES-NOT-EXIST'' ''3'' [] (init_mock [] [])))"
  by code_simp

lemma test_live_backend_refuses_to_start_without_credentials:
  "raises_matching ''credentials missing'' (from_environment (\<lambda>_. None))"
  by code_simp

section \<open>\<open>test_request_state.py\<close>: the key ring\<close>

lemma test_generated_keys_round_trip:
  assumes "length (urandom 32) = 32"
  shows "case load_keys None (Some (generate_key urandom)) of
    Inr (k # _) \<Rightarrow> MINIMUM_KEY_BYTES \<le> length k | _ \<Rightarrow> False"
  using load_ring_text [of "[urandom 32]" None] assms
  by (simp add: ring_text_def generate_key_def MINIMUM_KEY_BYTES_def)

lemma test_unset_is_an_empty_ring:
  "load_keys None (Some []) = Inr []" "load_keys None (Some ''   '') = Inr []"
  by code_simp+

lemma test_a_rotation_ring_keeps_its_order:
  assumes "length first = 32" and "length second = 32"
  shows "load_keys None (Some (b64encode first @ '','' @ b64encode second)) = Inr [first, second]"
  using load_ring_text [of "[first, second]" None] assms by (simp add: ring_text_def MINIMUM_KEY_BYTES_def)

lemma test_a_short_key_is_refused:
  "raises_matching ''at least'' (load_keys None (Some ''Y2hhbmdlbWU=''))"
  by code_simp

lemma test_a_malformed_key_is_refused:
  "raises_matching ''base64'' (load_keys None (Some ''not base64 at all!!''))"
  by code_simp

lemma test_missing_configuration_falls_back_to_a_process_local_key:
  "case build None None 600 of Inr (Ephemeral _ _, BootWarning m) \<Rightarrow> sublist ENV_KEYS m | _ \<Rightarrow> False"
  by code_simp

section \<open>The boundary between replicas\<close>

text \<open>Over any sealing that keeps the contract of theory Flow.\<close>

lemma unseal_refuses:
  assumes "boundary_contract seal unseal ttl" and "k \<notin> set ring \<or> b' \<noteq> b"
  shows "unseal ring b now (seal k b' t s) = None"
  using assms unfolding boundary_contract_def by (cases "unseal ring b now (seal k b' t s)") auto

lemma test_arguments_swapped_after_approval_are_rejected_end_to_end:
  assumes "boundary_contract seal unseal ttl"
  shows "unseal ring (binding_of token (tool_request ''raise_shipment_incident''
      [(PStr ''shipment_id'', PStr ''SHP-1004''), (PStr ''urgency'', PStr ''1'')] [])) now
    (seal k (binding_of token (tool_request ''raise_shipment_incident''
      [(PStr ''shipment_id'', PStr ''SHP-1004''), (PStr ''urgency'', PStr ''3'')] [])) t s) = None"
  by (rule unseal_refuses [OF assms]) (simp add: binding_of_def tool_request_def params_of_def dict_get_def dict_get_or_def)

lemma test_without_a_shared_key_the_handoff_fails:
  "boundary_contract seal unseal ttl \<Longrightarrow> own \<noteq> other \<Longrightarrow> unseal [other] b now (seal own b t s) = None"
  by (rule unseal_refuses) simp_all

lemma test_a_rotation_ring_accepts_state_sealed_under_the_previous_key:
  "boundary_contract seal unseal ttl \<Longrightarrow> 0 \<le> ttl \<Longrightarrow> unseal [new, old] b now (seal old b now s) = Some s"
  by (simp add: boundary_contract_def)

end
