(* ===== verification/Spec2Isabelle.thy ===== *)
theory Spec2Isabelle
  imports Policy AuditLog Approval RequestState Verifier Middleware ServiceNow DevIdp Server ShippedPolicy Flow
    Session Main_Program Governed Rotation AuditFlow Revocation Interleaving Floats Dialogue LiveTools LiveGoverned TableApi Dispatch Client Conformance
begin

text \<open>
  A verification of the governed MCP server: a Python server whose tools and resources sit
  behind an enforcement middleware that decides every call from a policy document, holds
  calls that need a human's approval, and writes an audit record of every decision.

  Parts and interaction. A request carries a bearer token; the verifier
  (\<open>governance/verifier.py\<close>) turns it into an access token with roles. The middleware
  (\<open>governance/middleware.py\<close>) asks the policy (\<open>governance/policy.py\<close>) for a decision, records
  it (\<open>governance/audit.py\<close>), and either refuses, answers with an approval question
  (\<open>governance/approval.py\<close>), or calls the rest of the chain, which runs a tool of
  \<open>server.py\<close> over a ServiceNow backend (\<open>governance/servicenow.py\<close>). The state of a pending
  approval is sealed by the SDK with the key ring of \<open>governance/request_state.py\<close>. For
  development, tokens come from \<open>governance/devidp.py\<close>.

  Theories, one per part, with the names of the code where Isabelle allows them:

  Prelude: results as sums (\<open>Inl\<close> the exception) with their binds, the \<open>str\<close> operations the
  code uses, \<open>sorted(set(..))\<close>, insertion-ordered dicts as association lists. A \<open>str\<close> is a
  list of characters, code points below 256; the one longer character of the program, an em
  dash in messages, is written as its UTF-8 bytes.

  PyValue: dynamic values (what \<open>Any\<close> holds), their truth value, \<open>==\<close>, \<open>str\<close>, \<open>repr\<close>, and
  the exceptions of all parts as one datatype. Fnmatch: \<open>fnmatch.fnmatchcase\<close> of the standard
  library, proved equal to the language of its pattern.

  Policy: records \<open>decision\<close>, \<open>rule\<close>, \<open>policy\<close>; the loader (\<open>from_mapping\<close>, \<open>parse_rules\<close>),
  the decisions (\<open>decide_tool\<close>, \<open>decide_resource\<close>) and \<open>visible_tools\<close>. The locale
  \<open>authorizer\<close> is what enforcement relies on from a decision function; both decision
  functions interpret it. Lemmas: which documents load, well-formedness, the access matrix of
  a document as the specification of decisions, the longest match. \<open>valid_doc\<close>, \<open>grants\<close> and
  \<open>longest_match\<close> speak of the raw document alone and share no function with the loader or the
  decisions. ShippedPolicy: the document of \<open>policy.yaml\<close> and the access it grants.

  AuditLog: the dedicated logger, the event, its JSON line and its level. Approval: the pending
  state, \<open>check\<close> and \<open>is_affirmative\<close>. RequestState: base64 as in CPython, the key ring of the
  environment variable, \<open>build\<close>. Verifier: key sources, \<open>verify_token\<close>, the projection of
  claims onto the SDK's validated \<open>AccessToken\<close>; the locale \<open>key_source\<close> is interpreted on the
  static key set, and the issuer's endpoint is one when the JWKS client serves the keys of the
  URI it was made for. DevIdp: the key file,
  the published keys, \<open>issue\<close>.

  Middleware: one definition per method, over a state of audit sink, clock and nonce reads and
  the world the handlers act on; \<open>call_next\<close> is a parameter. \<open>gate_verdict\<close> is the abstract
  specification of a tool call, \<open>gate_result\<close> and \<open>verdict_trail\<close> what it promises, and
  \<open>guard_tool_call_gate\<close> the refinement. The locale \<open>server_middleware\<close> (the chain is called
  at most once, on the request as it came) is interpreted on \<open>handle\<close>.

  ServiceNow: the projection of records, the live backend over an HTTP client, the mock and
  its reachable states. The locale \<open>incident_backend\<close> is the contract of the protocol class
  \<open>ServiceNow\<close> that the tools need, and the mock interprets it; \<open>backend_reader\<close>, a sublocale's
  weaker contract, is what the reading tools need, and a live instance with safe GETs has it;
  \<open>incident_tracker\<close>, the other one, is what the flow of an incident needs: active incidents as a
  multiset, a search that returns some of them in any order and in the form the backend shows.
  A live instance that keeps the Table API has it (theory TableApi: the rows of the two tables
  and what the three requests of the connector return, display values and stored ones apart).
  Floats: Python's floats, as the exact operation rounded to 53 bits. Server: shipments, tools,
  \<open>create_server\<close>, startup failures and what has to be in place for a start (\<open>auth_ready\<close>,
  \<open>keys_ready\<close>, \<open>connector_ready\<close>, \<open>policy_ready\<close>); the tools' lemmas are proved in the locales. LiveTools: the tools over the live
  backend, read by the HTTP requests each of them sends, and what that backend leaves
  unchecked. Main_Program: the program around \<open>create_server\<close> in \<open>server.py\<close>, from the parsed
  arguments to the outcome (a printed key or token, a failure, serving), over the files, the
  audit logger and \<open>SERVICENOW\<close>; the attribute \<open>mcp\<close>; and what a serving process accepts
  (\<open>authenticated\<close>, \<open>published_keys\<close>).

  Flow: clients, time and replicas as an inductive step relation around the middleware. Every
  text a client presents was minted before, and a request without a state reaches the
  middleware without one; the invariant by rule induction is that every effect of a gated call
  was asked for. Rotation: the key rotation of \<open>docs/runbooks/rotate-request-state-key.md\<close> as a
  fleet of replicas that are moved from phase to phase while that flow goes on; each replica
  loads its ring from the text of its phase, a run of the fleet is a run of the flow, and the
  invariant is that the key of every unexpired state is in every ring. Dialogue: one client that answers every question until none comes, as a
  partial function whose definedness is the termination of an approval exchange. Dispatch: the
  rest of the chain, the registered tools called by name on a request's arguments. Session:
  lists of requests through the middleware, which refine a run that reads only the policy
  (\<open>spec_world\<close>, \<open>request_trail\<close>). AuditFlow: the log of a session line by line
  (\<open>session_lines\<close>), and an unwinding of two sessions that agree on the view of each request
  (\<open>audit_view_of\<close>). Interleaving: requests that suspend at the \<open>await\<close> of the middleware and are
  resumed in any order; the invariant is that the completed ones are a sequential session.
  Revocation: what an edit of the policy document changes, and the withdrawal of a tool of
  \<open>docs/runbooks/revoke-access.md\<close>. Governed: the middleware with the shipped policy before
  the tools over the mock, what one request and one session can do to the incident log; and the
  flow of raising and assessing over any backend. LiveGoverned: the same server over a
  live instance, the log of its HTTP client cut into the parts each request accounts for.
  Conformance: the repository's tests, by their names, as lemmas on the model.
  Client: \<open>client.py\<close> over a session of the SDK, and its demo run against a governed server.
  This theory: the properties that span parts.

  Parameters, for code outside the repository: the YAML parser and the file system in
  \<open>Policy.load\<close>; the clock and the nonce; PyJWT, RSA, hashing and UUIDs; the HTTP client; the
  SDK's dispatch (the handler \<open>call_next\<close>, or the record \<open>sdk\<close> around the tools), its sealing of states and its validation of
  settings. Hypotheses on them are named: \<open>pyjwt_contract\<close> (tokens over JSON claims of the
  registered types decode exactly when signed with the given key, under an allowed algorithm and
  with acceptable claims), \<open>boundary_contract\<close> (a sealed state unseals
  exactly for its key, binding and time), \<open>serves_tools\<close> (dispatch changes the mock only
  through the registered write tool, as \<open>Dispatch.serve\<close> does), \<open>talks_to\<close> (an SDK session carries the client's requests
  to the middleware under the caller's token), \<open>wire_call\<close> (arguments are absent, not a mapping, or
  have string keys, as JSON gives them), \<open>logging\<close> (the audit stream is configured),
  \<open>table_api\<close> (the instance answers a search with the display values of active incidents of the
  system, as many as there are up to the limit, and a creation with the stored values of an
  incident that is then active, for names without a caret). Each has a concrete instance in a witness.

  Recursion is structural, or \<open>fun\<close> and \<open>function\<close> with a measure, so no definition needs fuel
  and every operation of the program is a total function. The one loop that nothing in its code
  bounds, a client answering questions, is \<open>partial_function (option)\<close>, and that it ends is
  a property.

  Not modelled: argument parsing, \<open>logging.basicConfig\<close> and the ASGI server, which are library
  code; the package's re-exports; log lines other than those returned or printed; float
  overflow and subnormals, out of reach of the one float computation. Dates are microseconds
  since 1970 in UTC; the date format is the proleptic Gregorian calendar. An overflowing date is
  the exception without its text.
\<close>

section \<open>Properties\<close>

text \<open>C1: the system property: under the shipped policy, enforced, whatever request arrives from
  whatever caller, the incident log changes only when the caller holds the operator or the
  administrator role and the call carries a human's yes to a question of this layer, and then
  by exactly one incident against the system that handles a known shipment.\<close>

theorem incident_needs_role_and_approval:
  assumes "serves_tools ticks db call_next"
    and "ms_world (snd (handle shipped_mw orc token ctx call_next st)) \<noteq> ms_world st"
  shows "(''tlo.operator'' \<in> set (roles_from_token token) \<or> ''platform.admin'' \<in> set (roles_from_token token)) \<and>
    check (state_of (params_of ctx)) (answers_of (params_of ctx)) = Inr () \<and>
    (\<exists>shipment_id sh i. map_of db shipment_id = Some sh \<and> inc_configuration_item i = sh_ci sh \<and>
      mk_incidents (ms_world (snd (handle shipped_mw orc token ctx call_next st))) =
        mk_incidents (ms_world st) @ [i])"
proof -
  obtain shipment_id urgency where "ms_world (snd (handle shipped_mw orc token ctx call_next st)) =
      snd (raise_shipment_incident (mock_servicenow ticks) db shipment_id urgency (ms_world st))"
    using incident_step(2) [OF assms] by blast
  from raise_mock_appends [OF this assms(2)] incident_step(1) [OF assms] show ?thesis
    by (simp add: may_raise_def) blast
qed

theorem incident_needs_role_and_approval_witness:
  "\<exists>i. mk_incidents (ms_world (snd (handle shipped_mw gate_env (gate_token ''tlo.operator'')
      (raise_request gate_answers) example_dispatch example_mock_state))) =
    mk_incidents (init_mock [] []) @ [i]"
proof -
  have "ms_world (snd (handle shipped_mw gate_env (gate_token ''tlo.operator'')
      (raise_request gate_answers) example_dispatch example_mock_state)) \<noteq>
    ms_world example_mock_state" by code_simp
  from incident_needs_role_and_approval [OF example_serves this] show ?thesis
    by (auto simp: example_mock_state_def)
qed

text \<open>From the identity provider to the tool: a token the development provider issues for
  some roles and the verifier accepts, presented with a call under the shipped policy, is
  allowed exactly the tools the matrix gives those roles.\<close>

lemma dev_token_to_decision:
  assumes "pyjwt_contract c header pyjwk public decode later" and "ia_roles a = Some roles"
    and "''roles'' \<notin> set (ia_omit a)"
    and "fst (verify_token (static_key_for header pyjwk) decode show_exn v (issue c idp now a) (jwks c idp)) =
      Inr (Some tok)"
  shows "d_allowed (call_decision shipped_mw (Some tok) ctx) \<longleftrightarrow>
    call_tool_name ctx \<in> set registered_tools \<and>
    (''tlo.operator'' \<in> set roles \<or> ''platform.admin'' \<in> set roles \<or>
     ''tlo.reader'' \<in> set roles \<and> call_tool_name ctx \<noteq> ''raise_shipment_incident'')"
  using issued_token_roles [OF assms(1,4)] assms(2,3) by (simp add: shipped_call_decision)

text \<open>C2: over a whole session: whatever requests arrive from whatever callers under the shipped
  policy, the incident log only grows, by at most one incident for each request that an operator
  or administrator makes with a human's yes, every new incident is against the system that
  handles a known shipment, and all incident numbers stay distinct.\<close>

theorem session_incidents_bounded:
  assumes "serves_tools ticks db call_next" and "mock_reachable ticks (ms_world st)"
  shows "\<exists>new. mk_incidents (ms_world (snd (run_session shipped_mw orc call_next reqs st))) =
      mk_incidents (ms_world st) @ new \<and> length new \<le> length (filter may_raise reqs) \<and>
    (\<forall>i\<in>set new. \<exists>shipment_id sh. map_of db shipment_id = Some sh \<and> inc_configuration_item i = sh_ci sh) \<and>
    distinct (map inc_number (mk_incidents (ms_world st) @ new))"
  using session_step [OF assms, of orc reqs] mock_inv_distinct(1) [OF mock_reachable_inv] by metis

text \<open>A reader tries, an operator asks, answers, and replays the answer.\<close>

definition raising_session :: "string request list" where
  "raising_session =
     [(gate_token ''tlo.reader'', raise_request gate_answers),
      (gate_token ''tlo.operator'', raise_request []),
      (gate_token ''tlo.operator'', raise_request gate_answers),
      (None, raise_request gate_answers)]"

lemma raising_session_files_one:
  "length (mk_incidents (ms_world (snd (run_session shipped_mw gate_env example_dispatch raising_session
     example_mock_state)))) = 2"
proof -
  have "logging ''stdout'' example_mock_state" by (simp add: logging_def example_mock_state_def example_sink_def configure_def)
  moreover have "list_all wire_request raising_session" by code_simp
  ultimately have "ms_world (snd (run_session shipped_mw gate_env example_dispatch raising_session example_mock_state)) =
      foldl (\<lambda>w req. spec_world shipped_mw example_dispatch req w) (ms_world example_mock_state) raising_session"
    using run_session_spec by blast
  moreover have "length (mk_incidents (foldl (\<lambda>w req. spec_world shipped_mw example_dispatch req w)
      (ms_world example_mock_state) raising_session)) = 2" by code_simp
  ultimately show ?thesis by simp
qed

theorem session_incidents_bounded_witness:
  "\<exists>i sh shipment_id. mk_incidents (ms_world (snd (run_session shipped_mw gate_env example_dispatch raising_session
      example_mock_state))) = mk_incidents (init_mock [] []) @ [i] \<and>
    map_of (fixtures 0) shipment_id = Some sh \<and> inc_configuration_item i = sh_ci sh"
proof -
  let ?w = "ms_world (snd (run_session shipped_mw gate_env example_dispatch raising_session example_mock_state))"
  have "mock_reachable (\<lambda>n. ''now'') (ms_world example_mock_state)"
    unfolding example_mock_state_def by (simp add: mock_init)
  from session_incidents_bounded [OF example_serves this, of gate_env raising_session] obtain new where
    n: "mk_incidents ?w = mk_incidents (init_mock [] []) @ new" "length new \<le> length (filter may_raise raising_session)"
    and c: "\<forall>i\<in>set new. \<exists>shipment_id sh. map_of (fixtures 0) shipment_id = Some sh \<and> inc_configuration_item i = sh_ci sh"
    by (auto simp: example_mock_state_def)
  have "length (filter may_raise raising_session) = 1" by code_simp
  moreover have "length (mk_incidents ?w) = 2" by (rule raising_session_files_one)
  moreover have "length (mk_incidents (init_mock [] [])) = 1" by code_simp
  ultimately obtain i where "new = [i]" using n by (cases new) auto
  with n c show ?thesis by auto
qed

text \<open>C3: production is written to with a human's yes only: over any session under the shipped policy
  in front of the tools over the live connector, whatever the instance answers, what is sent to
  it falls into one part per request: nothing for a request that is refused, waits for approval
  or is no tool call, at most two GETs without a body for an allowed call of a reading tool, and
  for an operator's or administrator's approved call of the write tool at most the one POST that
  files an incident for the system of a known shipment, so there are no more writes than
  approved calls.\<close>

theorem live_writes_need_approval:
  "\<exists>parts. fst (ms_world (snd (run_session shipped_mw orc (live_handler sdk client c db now) reqs st))) =
      fst (ms_world st) @ concat parts \<and> list_all2 (request_sends c db) reqs parts \<and>
    length (filter (\<lambda>r. \<not> reads r) (concat parts)) \<le> length (filter may_raise reqs) \<and>
    list_all (\<lambda>r. reads r \<or> files_for c db r) (concat parts)"
proof -
  obtain parts where "fst (ms_world (snd (run_session shipped_mw orc (live_handler sdk client c db now) reqs st))) =
      fst (ms_world st) @ concat parts" and p: "list_all2 (request_sends c db) reqs parts"
    using live_session_parts [of orc sdk client c db now reqs st] by (elim exE conjE) rule
  moreover have "list_all (\<lambda>r. reads r \<or> files_for c db r) (concat parts)"
    unfolding list_all_iff using session_writes(2) [OF p] by blast
  ultimately show ?thesis using session_writes(1) [OF p] by (intro exI [of _ parts] conjI)
qed

definition live_example_state :: "(http_request list \<times> unit) mstate" where
  "live_example_state = \<lparr>ms_sink = example_sink, ms_clock_reads = 0, ms_nonce_reads = 0, ms_world = ([], ())\<rparr>"

abbreviation live_example_handler :: "(http_request list \<times> unit) handler" where
  "live_example_handler \<equiv> live_handler example_sdk echo_client (example_live ''pw'') (fixtures 0) (\<lambda>ctx w. 0)"

theorem live_writes_need_approval_witness:
  "\<exists>post. fst (ms_world (snd (run_session shipped_mw gate_env live_example_handler raising_session
      live_example_state))) = [post] \<and> files_for (example_live ''pw'') (fixtures 0) post"
proof -
  let ?w = "ms_world (snd (run_session shipped_mw gate_env live_example_handler raising_session live_example_state))"
  have "logging ''stdout'' live_example_state" by (simp add: logging_def live_example_state_def example_sink_def configure_def)
  moreover have "list_all wire_request raising_session" by code_simp
  ultimately have "?w = foldl (\<lambda>w req. spec_world shipped_mw live_example_handler req w)
      (ms_world live_example_state) raising_session"
    using run_session_spec by blast
  moreover have "map hr_method (fst (foldl (\<lambda>w req. spec_world shipped_mw live_example_handler req w)
      (ms_world live_example_state) raising_session)) = [''POST'']" by code_simp
  ultimately obtain post where post: "fst ?w = [post]" "hr_method post = ''POST''" by (auto simp: map_eq_Cons_conv)
  have "fst (ms_world live_example_state) = []" by (simp add: live_example_state_def)
  with live_writes_need_approval [of gate_env example_sdk echo_client "example_live ''pw''" "fixtures 0" "\<lambda>ctx w. 0"
      raising_session live_example_state] post(1)
  have "list_all (\<lambda>r. reads r \<or> files_for (example_live ''pw'') (fixtures 0) r) [post]" by (elim exE conjE) simp
  with post show ?thesis by (simp add: reads_def)
qed

text \<open>C30: no duplicates by advice, end to end: when the governed server over the mock answers an
  approved call of an operator or administrator that raises an incident for a delayed shipment
  of a known system, and then a reader's call that assesses it, exactly one incident has been
  filed, open, against that system and with the urgency asked for, and the first response is
  its summary; the second is an assessment that lists the first ten of the open incidents of
  the system, the filed one included unless ten were open before, and that recommends to
  enrich the first of them rather than to raise another.\<close>

theorem raised_incident_is_enriched:
  assumes "may_raise (tok1, ctx1)" and "wire_call ctx1"
    and "sd_str sdk (arguments_of ctx1) ''shipment_id'' None = Inr shipment_id"
    and "sd_str sdk (arguments_of ctx1) ''urgency'' (Some ''3'') = Inr urgency" and "urgency \<in> {''1'', ''2'', ''3''}"
    and "c_method ctx2 = Some ''tools/call''" and "call_tool_name ctx2 = ''assess_shipment_delay''"
    and "wire_call ctx2" and "''tlo.reader'' \<in> set (roles_from_token tok2)"
    and "sd_str sdk (arguments_of ctx2) ''shipment_id'' None = Inr shipment_id"
    and "map_of db shipment_id = Some sh" and "sh_status sh = ''delayed''"
    and "map_of (mk_items (ms_world st)) (sh_ci sh) \<noteq> None"
    and "already = filter (\<lambda>i. inc_configuration_item i = sh_ci sh \<and> inc_state i \<notin> {''6'', ''7''}) (mk_incidents (ms_world st))"
  shows "\<exists>j a i rest st'. run_session shipped_mw orc (serve sdk (mock_servicenow ticks) db now)
        [(tok1, ctx1), (tok2, ctx2)] st =
      ([Inr (sd_result sdk (FiledResult (summarise j))), Inr (sd_result sdk (AssessmentResult a))], st') \<and>
    mk_incidents (ms_world st') = mk_incidents (ms_world st) @ [j] \<and>
    inc_configuration_item j = sh_ci sh \<and> inc_urgency j = urgency \<and> inc_state j \<notin> {''6'', ''7''} \<and>
    da_open_incidents a = map summarise (take 10 (already @ [j])) \<and>
    (length already < 10 \<longrightarrow> summarise j \<in> set (da_open_incidents a)) \<and>
    da_open_incidents a = i # rest \<and>
    da_recommendation a = ''Enrich '' @ is_number i @ '' rather than opening a duplicate '' @ em_dash @
      '' '' @ sh_ci sh @ '' already has an open incident.''"
proof -
  obtain j w a where r: "raise_shipment_incident (mock_servicenow ticks) db shipment_id urgency (ms_world st) =
      (Inr (summarise j), w)"
    and s: "assess_shipment_delay (mock_servicenow ticks) db (now ctx2 w) shipment_id w = (Inr a, w)"
    and j: "mk_incidents w = mk_incidents (ms_world st) @ [j]" "inc_configuration_item j = sh_ci sh"
      "inc_urgency j = urgency" "inc_state j \<notin> {''6'', ''7''}"
    and listed: "da_open_incidents a =
      map summarise (take 10 (filter (mock_matches (Some (sh_ci sh)) True) (mk_incidents (ms_world st)) @ [j]))"
    and advice: "advises_enriching sh a"
    using mock_flow [OF assms(11,5,13,12), where now = "now ctx2"] by blast
  have "mock_matches (Some (sh_ci sh)) True = (\<lambda>i. inc_configuration_item i = sh_ci sh \<and> inc_state i \<notin> {''6'', ''7''})"
    by (auto simp: mock_matches_def)
  with listed have listed: "da_open_incidents a = map summarise (take 10 (already @ [j]))"
    by (simp add: assms(14))
  obtain i rest where "da_open_incidents a = i # rest" and "da_recommendation a = ''Enrich '' @ is_number i @
      '' rather than opening a duplicate '' @ em_dash @ '' '' @ sh_ci sh @ '' already has an open incident.''"
    using advice by (auto simp: advises_enriching_def split: list.splits)
  moreover have "length already < 10 \<longrightarrow> summarise j \<in> set (da_open_incidents a)"
    unfolding listed by simp
  ultimately show ?thesis
    using governed_flow [where now = now, OF assms(1-4,6-10) r s, of orc] j listed by blast
qed

text \<open>For a system without open incidents, the advice is to enrich the one just filed.\<close>

abbreviation assess_1004 :: ctx where
  "assess_1004 \<equiv> tool_request ''assess_shipment_delay'' [(PStr ''shipment_id'', PStr ''SHP-1004'')] []"

abbreviation raise_1004 :: ctx where
  "raise_1004 \<equiv> tool_request ''raise_shipment_incident''
     [(PStr ''shipment_id'', PStr ''SHP-1004''), (PStr ''urgency'', PStr ''2'')] gate_answers"

lemma flow_requests:
  "may_raise (gate_token ''tlo.operator'', raise_1004)" "wire_call raise_1004"
  "sd_str example_sdk (arguments_of raise_1004) ''shipment_id'' None = Inr ''SHP-1004''"
  "sd_str example_sdk (arguments_of raise_1004) ''urgency'' (Some ''3'') = Inr ''2''"
  "c_method assess_1004 = Some ''tools/call''" "call_tool_name assess_1004 = ''assess_shipment_delay''"
  "wire_call assess_1004" "''tlo.reader'' \<in> set (roles_from_token (gate_token ''tlo.reader''))"
  "sd_str example_sdk (arguments_of assess_1004) ''shipment_id'' None = Inr ''SHP-1004''"
  "map_of (fixtures 0) ''SHP-1004'' = Some (fixture_rows 0 ! 3)" "sh_status (fixture_rows 0 ! 3) = ''delayed''"
  "map_of (mk_items (ms_world example_mock_state)) (sh_ci (fixture_rows 0 ! 3)) \<noteq> None"
  "sh_ci (fixture_rows 0 ! 3) = ''CI-TMS-02''" "plain_name ''CI-TMS-02''"
  by code_simp+

theorem raised_incident_is_enriched_witness:
  "\<exists>j a st'. run_session shipped_mw gate_env (serve example_sdk (mock_servicenow (\<lambda>n. ''now'')) (fixtures 0) (\<lambda>ctx w. 0))
      [(gate_token ''tlo.operator'', raise_1004), (gate_token ''tlo.reader'', assess_1004)] example_mock_state =
      ([Inr (sd_result example_sdk (FiledResult (summarise j))), Inr (sd_result example_sdk (AssessmentResult a))], st') \<and>
    mk_incidents (ms_world st') = [seed_incident, j] \<and> inc_configuration_item j = ''CI-TMS-02'' \<and> inc_urgency j = ''2'' \<and>
    da_open_incidents a = [summarise j] \<and>
    da_recommendation a = ''Enrich '' @ inc_number j @ '' rather than opening a duplicate '' @ em_dash @
      '' CI-TMS-02 already has an open incident.''"
proof -
  have "''2'' \<in> {''1'', ''2'', ''3'' :: string}" by simp
  note inst = raised_incident_is_enriched [OF flow_requests(1-4) this flow_requests(5-12), where already = "[]"
      and orc = gate_env and ticks = "\<lambda>n. ''now''" and now = "\<lambda>ctx w. 0"]
  have w: "mk_incidents (ms_world example_mock_state) = [seed_incident]"
    by (simp add: example_mock_state_def init_mock_def)
  have "inc_configuration_item seed_incident = ''CI-WMS-01''" by (simp add: seed_incident_def)
  with inst show ?thesis by (fastforce simp: w flow_requests(13) summarise_def)
qed



section \<open>From the command line to the incident log\<close>

lemma serving_shipped:
  assumes "main sys urandom now args pr = (Serving srv host port, pr')"
    and "ar_auth args = AuthDev" and "\<not> ar_shadow args"
    and "bindE (o_read_text sys ''policy.yaml'') (o_safe_load sys) = Inr (PDict shipped_doc)"
  shows "sv_middleware srv = [shipped_mw]"
proof -
  have l: "load (o_read_text sys) (o_safe_load sys) ''policy.yaml'' = Inr shipped_policy"
    by (simp add: load_def assms(4) shipped_loads)
  obtain p where "load (o_read_text sys) (o_safe_load sys) ''policy.yaml'' = Inr p"
    and "sv_middleware srv = [\<lparr>mw_policy = p, mw_enforce = (\<not> ar_shadow args)\<rparr>]"
    by (rule serving_dev [OF assms(1,2)])
  with l assms(3) show ?thesis by (simp add: shipped_mw_def)
qed

lemma no_token_no_raise: "\<not> may_raise (None, ctx)"
  by (simp add: may_raise_def roles_from_token_def)

text \<open>C5: the program as a whole: when \<open>python server.py --auth dev\<close> serves over the shipped
  \<open>policy.yaml\<close> and not in shadow mode, a request changes the incident log only if its bearer
  text decoded under a key the process published, with an asymmetric algorithm, this issuer, this
  audience, a leeway of a minute, the five required claims and every verification on, to claims whose roles hold the
  operator or the administrator, and it carries a human's yes to a question of this layer; then
  the log grows by exactly one incident, against the system of a known shipment.\<close>

theorem served_effects_are_signed:
  assumes "main sys urandom now args pr = (Serving srv host port, pr')"
    and "ar_auth args = AuthDev" and "\<not> ar_shadow args"
    and "bindE (o_read_text sys ''policy.yaml'') (o_safe_load sys) = Inr (PDict shipped_doc)"
    and "m \<in> set (sv_middleware srv)" and "serves_tools ticks db call_next"
    and "token = None \<or> (\<exists>t. token = Some t \<and> authenticated header pyjwk decode show_exn srv bearer t)"
    and "ms_world (snd (handle m orc token ctx call_next st)) \<noteq> ms_world st"
  shows "(\<exists>k claims. k \<in> published_keys pyjwk srv \<and>
      decode bearer k ALLOWED_ALGORITHMS DEV_ISSUER DEFAULT_AUDIENCE 60 required_claims verify_options = Inr claims \<and>
      (''tlo.operator'' \<in> set (string_list (dict_get claims ''roles'')) \<or>
       ''platform.admin'' \<in> set (string_list (dict_get claims ''roles'')))) \<and>
    check (state_of (params_of ctx)) (answers_of (params_of ctx)) = Inr () \<and>
    (\<exists>shipment_id sh i. map_of db shipment_id = Some sh \<and> inc_configuration_item i = sh_ci sh \<and>
      mk_incidents (ms_world (snd (handle m orc token ctx call_next st))) = mk_incidents (ms_world st) @ [i])"
proof -
  have m: "m = shipped_mw" using serving_shipped [OF assms(1-4)] assms(5) by simp
  note changed = assms(8) [unfolded m]
  note may = incident_step(1) [OF assms(6) changed]
  then obtain t where t: "token = Some t" "authenticated header pyjwk decode show_exn srv bearer t"
    using assms(7) no_token_no_raise by blast
  obtain shipment_id urgency where "ms_world (snd (handle shipped_mw orc token ctx call_next st)) =
      snd (raise_shipment_incident (mock_servicenow ticks) db shipment_id urgency (ms_world st))"
    using incident_step(2) [OF assms(6) changed] by blast
  from raise_mock_appends [OF this changed] authenticated_was_checked [OF assms(1,2) t(2)] may
  show ?thesis unfolding m by (auto simp: may_raise_def t(1))
qed

text \<open>The program on an empty directory with the shipped policy, and a token it accepts.\<close>

definition shipped_sys :: "(nat, nat, pydict \<times> nat option \<times> string option \<times> pydict) outside" where
  "shipped_sys = (example_sys [])\<lparr>o_safe_load := (\<lambda>t. Inr (PDict shipped_doc))\<rparr>"

lemma shipped_sys_serves: "\<exists>srv host port pr'. main shipped_sys (\<lambda>n. []) 0 example_args example_process =
    (Serving srv host port, pr') \<and>
    sv_verifier srv = Some (\<lparr>v_issuer = DEV_ISSUER, v_audience = DEFAULT_AUDIENCE, v_algorithms = ALLOWED_ALGORITHMS,
      v_leeway_seconds = 60\<rparr>, StaticKeys (jwks toy_crypto (provider_of toy_crypto 7)))"
proof -
  let ?pr = "example_process\<lparr>pr_audit := configure ''stdout'' (pr_audit example_process)\<rparr>"
  let ?la = "launch_of example_args (Some (provider_of toy_crypto 7))"
  have auth: "ar_auth example_args = AuthDev" by (simp add: example_args_def)
  have "fs_content (pr_files ?pr) DEV_KEY_PATH = None" by (simp add: example_process_def)
  from main_idp_fresh [OF auth this, of shipped_sys] obtain fs where
    i: "main_idp shipped_sys example_args ?pr = (Inr (Some (provider_of toy_crypto 7)), ?pr\<lparr>pr_files := fs\<rparr>)"
    by (auto simp: shipped_sys_def example_sys_def)
  have "is_ok (load_keys (o_env shipped_sys ENV_KEYS) None)"
    and "is_ok (load (o_read_text shipped_sys) (o_safe_load shipped_sys) ''policy.yaml'')"
    by code_simp+
  moreover have "\<And>x. is_ok (o_settings shipped_sys x)" by (simp add: shipped_sys_def example_sys_def)
  moreover have "la_backend ?la = MockBackend"
    by (simp add: launch_of_def example_args_def default_args_def)
  ultimately have ok: "is_ok (fst (startup shipped_sys ?la (pr_SERVICENOW (?pr\<lparr>pr_files := fs\<rparr>))))"
    by (subst startup_dev_ok) (simp_all add: auth)
  then obtain srv where s: "fst (startup shipped_sys ?la (pr_SERVICENOW (?pr\<lparr>pr_files := fs\<rparr>))) = Inr srv"
    by (auto simp: is_ok_iff)
  obtain a where "auth_setup shipped_sys ?la = Inr (sv_verifier srv, a)"
    using create_server_setup s unfolding startup_Inr by blast
  then have "sv_verifier srv = Some (\<lparr>v_issuer = DEV_ISSUER, v_audience = DEFAULT_AUDIENCE,
      v_algorithms = ALLOWED_ALGORITHMS, v_leeway_seconds = 60\<rparr>,
      StaticKeys (jwks toy_crypto (provider_of toy_crypto 7)))"
    by (auto simp: auth_setup_def auth bindE_eq_Inr provider_of_def init_verifier_def shipped_sys_def example_sys_def)
  moreover have "\<exists>host port pr'. main shipped_sys (\<lambda>n. []) 0 example_args example_process = (Serving srv host port, pr')"
    using i s by (auto simp: main_def Let_def example_args_def default_args_def split: prod.splits)
  ultimately show ?thesis by blast
qed

definition shipped_bearer :: "pydict \<times> nat option \<times> string option \<times> pydict" where
  "shipped_bearer = issue toy_crypto (provider_of toy_crypto 7) 1000 (issue_defaults\<lparr>ia_roles := Some [''tlo.operator'']\<rparr>)"

theorem served_effects_are_signed_witness:
  "\<exists>srv host port pr' t i k claims.
     main shipped_sys (\<lambda>n. []) 0 example_args example_process = (Serving srv host port, pr') \<and>
     authenticated toy_header toy_pyjwk (toy_decode 1000) (\<lambda>_. []) srv shipped_bearer t \<and>
     k \<in> published_keys toy_pyjwk srv \<and>
     toy_decode 1000 shipped_bearer k ALLOWED_ALGORITHMS DEV_ISSUER DEFAULT_AUDIENCE 60 required_claims verify_options = Inr claims \<and>
     mk_incidents (ms_world (snd (handle shipped_mw gate_env (Some t) (raise_request gate_answers) example_dispatch
       example_mock_state))) = mk_incidents (init_mock [] []) @ [i]"
proof -
  let ?idp = "provider_of toy_crypto 7" and ?a = "issue_defaults\<lparr>ia_roles := Some [''tlo.operator'']\<rparr> :: nat issue_args"
  let ?v = "\<lparr>v_issuer = DEV_ISSUER, v_audience = DEFAULT_AUDIENCE, v_algorithms = ALLOWED_ALGORITHMS, v_leeway_seconds = 60\<rparr>"
  obtain srv host port pr' where s: "main shipped_sys (\<lambda>n. []) 0 example_args example_process = (Serving srv host port, pr')"
    and v: "sv_verifier srv = Some (?v, StaticKeys (jwks toy_crypto ?idp))"
    using shipped_sys_serves by blast
  have "init_verifier (di_issuer ?idp) (di_audience ?idp) ALLOWED_ALGORITHMS 60 = Inr ?v"
    by (simp add: init_verifier_def provider_of_def)
  from default_token_genuine [OF this, of 1000 1000 "\<lambda>k. k" "Some [''tlo.operator'']"]
  have "genuine (\<lambda>k. k) ?v ?idp 1000 1000 ?a" by simp
  with verify_issued [OF toy_contract [of 1000], of ?v ?idp 1000 ?a "\<lambda>_. []"] obtain t where
    t: "fst (verify_token (static_key_for toy_header toy_pyjwk) (toy_decode 1000) (\<lambda>_. []) ?v shipped_bearer
      (jwks toy_crypto ?idp)) = Inr (Some t)" and roles: "roles_from_token (Some t) = [''tlo.operator'']"
    by (auto simp: shipped_bearer_def issue_defaults_def split: sum.splits option.splits)
  have auth: "authenticated toy_header toy_pyjwk (toy_decode 1000) (\<lambda>_. []) srv shipped_bearer t"
    using v t by (simp add: authenticated_def)
  have "c_method (raise_request gate_answers) = Some ''tools/call'' \<and>
      call_tool_name (raise_request gate_answers) = ''raise_shipment_incident'' \<and> wire_call (raise_request gate_answers) \<and>
      check (state_of (params_of (raise_request gate_answers))) (answers_of (params_of (raise_request gate_answers))) = Inr ()"
    by code_simp
  then have call: "c_method (raise_request gate_answers) = Some ''tools/call''" "wire_call (raise_request gate_answers)"
    and "may_raise (Some t, raise_request gate_answers)" by (simp_all add: may_raise_def roles)
  then have runs: "gate_verdict shipped_mw (Some t) (raise_request gate_answers) = Runs" by (blast intro: may_raise_runs)
  have "snd (example_dispatch (raise_request gate_answers) (ms_world example_mock_state)) \<noteq> ms_world example_mock_state"
    by code_simp
  then have changed: "ms_world (snd (handle shipped_mw gate_env (Some t) (raise_request gate_answers) example_dispatch
      example_mock_state)) \<noteq> ms_world example_mock_state"
    using granted_call(2) [OF _ call runs, of gate_env example_dispatch example_mock_state] by (simp add: shipped_mw_def)
  have start: "ar_auth example_args = AuthDev" "\<not> ar_shadow example_args"
    "bindE (o_read_text shipped_sys ''policy.yaml'') (o_safe_load shipped_sys) = Inr (PDict shipped_doc)"
    by (simp_all add: example_args_def default_args_def shipped_sys_def example_sys_def)
  from serving_shipped [OF s start] have m: "shipped_mw \<in> set (sv_middleware srv)" by simp
  have tok: "Some t = None \<or> (\<exists>t'. Some t = Some t' \<and>
      authenticated toy_header toy_pyjwk (toy_decode 1000) (\<lambda>_. []) srv shipped_bearer t')"
    using auth by blast
  from served_effects_are_signed [OF s start m example_serves tok changed] s auth show ?thesis
    by (simp add: example_mock_state_def) blast
qed

section \<open>Every incident is on record\<close>

text \<open>The line an accepted approval of the write tool leaves, for some caller at some time.\<close>

definition approval_line :: "audit_line \<Rightarrow> bool" where
  "approval_line line \<longleftrightarrow>
     (\<exists>now who. line = record_line now who ''approval''
        (approval_decision shipped_mw ''raise_shipment_incident'' ''allow'' ''approved by human'') None None (Some ''allow''))"

lemma may_raise_on_record:
  assumes "may_raise (token, ctx)"
  shows "\<exists>line\<in>set (request_lines shipped_mw orc n (token, ctx)). approval_line line"
proof -
  have "d_allowed (call_decision shipped_mw token ctx)" "d_requires_approval (call_decision shipped_mw token ctx)"
    using assms by (auto simp: may_raise_def shipped_call_decision registered_tools_def)
  moreover have "mw_enforce shipped_mw" by (simp add: shipped_mw_def)
  moreover have m: "c_method ctx = Some ''tools/call''" "check (state_of (params_of ctx)) (answers_of (params_of ctx)) = Inr ()"
    and tool: "py_str (dict_get_or (params_of ctx) ''name'' (PStr [])) = ''raise_shipment_incident''"
    using assms by (simp_all add: may_raise_def call_tool_name_def)
  moreover have "truthy (answers_of (params_of ctx))" using check_ok_truthy [OF m(2)] .
  ultimately have "record_line (clock orc (Suc n)) (describe_principal token) ''approval''
      (approval_decision shipped_mw ''raise_shipment_incident'' ''allow'' ''approved by human'') None None (Some ''allow'')
      \<in> set (request_lines shipped_mw orc n (token, ctx))"
    by (simp add: request_lines_def approval_lines_def)
  then show ?thesis unfolding approval_line_def by blast
qed

lemma raising_requests_on_record:
  "length (filter may_raise reqs) \<le> length (filter approval_line (session_lines shipped_mw orc n reqs))"
proof (induction reqs arbitrary: n)
  case Nil
  then show ?case by simp
next
  case (Cons req reqs)
  obtain token ctx where req: "req = (token, ctx)" by (cases req)
  have "of_bool (may_raise req) \<le> length (filter approval_line (request_lines shipped_mw orc n req))"
    using may_raise_on_record [of token ctx orc n] by (auto simp: req Suc_le_eq filter_empty_conv)
  with Cons.IH [of "n + length (request_lines shipped_mw orc n req)"] show ?case by auto
qed

text \<open>C4: every incident is on record: over any session under the shipped policy, whatever the
  callers send, the audit log gains at least as many records of a human's approval of the write
  tool as the incident log gains incidents; no incident is filed off the record.\<close>

theorem incidents_are_on_record:
  assumes "serves_tools ticks db call_next" and "mock_reachable ticks (ms_world st)"
    and "logging h st" and "list_all wire_request reqs"
  shows "\<exists>new lines.
    mk_incidents (ms_world (snd (run_session shipped_mw orc call_next reqs st))) = mk_incidents (ms_world st) @ new \<and>
    sk_lines (ms_sink (snd (run_session shipped_mw orc call_next reqs st))) =
      sk_lines (ms_sink st) @ map (Pair h) lines \<and>
    length new \<le> length (filter approval_line lines)"
proof -
  obtain new where n: "mk_incidents (ms_world (snd (run_session shipped_mw orc call_next reqs st))) =
      mk_incidents (ms_world st) @ new" "length new \<le> length (filter may_raise reqs)"
    using session_step [OF assms(1,2), of orc reqs] by blast
  have "sk_lines (ms_sink (snd (run_session shipped_mw orc call_next reqs st))) =
      sk_lines (ms_sink st) @ map (Pair h) (session_lines shipped_mw orc (ms_clock_reads st) reqs)"
    using run_session_grows [OF assms(3,4), of shipped_mw orc call_next] by (simp add: log_grows_def)
  with n le_trans [OF n(2) raising_requests_on_record [of reqs orc "ms_clock_reads st"]] show ?thesis by blast
qed

theorem incidents_are_on_record_witness:
  "\<exists>i lines. mk_incidents (ms_world (snd (run_session shipped_mw gate_env example_dispatch raising_session
      example_mock_state))) = mk_incidents (init_mock [] []) @ [i] \<and>
    sk_lines (ms_sink (snd (run_session shipped_mw gate_env example_dispatch raising_session example_mock_state))) =
      map (Pair ''stdout'') lines \<and> (\<exists>line\<in>set lines. approval_line line)"
proof -
  let ?w = "ms_world (snd (run_session shipped_mw gate_env example_dispatch raising_session example_mock_state))"
  have r: "mock_reachable (\<lambda>n. ''now'') (ms_world example_mock_state)"
    unfolding example_mock_state_def by (simp add: mock_init)
  have l: "logging ''stdout'' example_mock_state"
    by (simp add: logging_def example_mock_state_def example_sink_def configure_def)
  have w: "list_all wire_request raising_session" by code_simp
  have "sk_lines (ms_sink example_mock_state) = []" by code_simp
  with incidents_are_on_record [OF example_serves r l w, of gate_env] obtain new lines where
    n: "mk_incidents ?w = mk_incidents (init_mock [] []) @ new"
    and s: "sk_lines (ms_sink (snd (run_session shipped_mw gate_env example_dispatch raising_session example_mock_state))) =
      map (Pair ''stdout'') lines"
    and c: "length new \<le> length (filter approval_line lines)"
    by (auto simp: example_mock_state_def)
  have one: "length new = 1"
    using raising_session_files_one arg_cong [OF n, of length] by (simp add: init_mock_def)
  then obtain i where "new = [i]" by (cases new) auto
  moreover have "filter approval_line lines \<noteq> []" using c one by auto
  then have "\<exists>line\<in>set lines. approval_line line" by (simp add: filter_empty_conv)
  ultimately show ?thesis using n s by blast
qed

end
